theory Spec2Isabelle
  imports Complex_Main
begin

section \<open>The inverse-kinematics target (OpenSim/Tools/IKTarget.cpp)\<close>

text \<open>
  A shallow embedding of \<^verbatim>\<open>IKTarget\<close>. Conventions:
  \<^item> a C++ \<^verbatim>\<open>double\<close> is a \<^typ>\<open>real\<close>: rounding, infinities and the arithmetic of
    not-a-number values are outside the model. The one place where the source tests
    for not-a-number (\<^verbatim>\<open>rdMath::isNAN\<close> in \<^verbatim>\<open>prepareToSolve\<close>) keeps the test as an
    operation of the environment;
  \<^item> the model and its dynamics engine, the storage row and LAPACK are collaborators
    whose code is not part of the file. They are the fields of the record
    \<open>engine\<close>, over an arbitrary type \<open>'m\<close> of model states; every theorem holds for
    every engine;
  \<^item> a \<^verbatim>\<open>coordinateInfo*\<close> is the position of the object in the array
    \<^verbatim>\<open>allCoordinates\<close> of \<^verbatim>\<open>buildCoordinateMap\<close>, which is kept as the store \<open>infos\<close>:
    \<^verbatim>\<open>_prescribedQs\<close>, \<^verbatim>\<open>_unprescribedQs\<close> and \<^verbatim>\<open>_unprescribedWeightedQs\<close> are lists of
    such positions, so that the last one aliases the second one as in the source;
  \<^item> an exception is the left summand of the result; a loop that need not end
    returns \<open>None\<close> when it does not;
  \<^item> output on \<^verbatim>\<open>cout\<close> is not modelled.
\<close>

subsection \<open>Data\<close>

type_synonym Vec3 = "real \<times> real \<times> real"

datatype exn = InterruptedException | Exception string

datatype ValueType = DefaultValue | ManualValue | FromFile

text \<open>
  The task set holds coordinate tasks and marker tasks in one list; the source tells
  them apart with \<^verbatim>\<open>dynamic_cast\<close>. The arguments are what the accessors return:
  \<^verbatim>\<open>getName\<close>, \<^verbatim>\<open>getApply\<close>, \<^verbatim>\<open>getWeight\<close> and, for a coordinate task,
  \<^verbatim>\<open>getValueType\<close> and \<^verbatim>\<open>getValue\<close>. Of the value types the file names
  \<^verbatim>\<open>FromFile\<close> and \<^verbatim>\<open>ManualValue\<close>; \<open>DefaultValue\<close> stands for any other one.
\<close>

datatype IKTask =
    IKCoordinateTask string bool real ValueType real
  | IKMarkerTask string bool real

record coordinateInfo =
  coord :: nat
  prescribed :: bool
  experimentalColumn :: int
  constantExperimentalValue :: real
  weight :: real
  experimentalValue :: real

record markerToSolve =
  marker :: nat
  body :: nat
  markerColumn :: int
  markerWeight :: real
  computedPosition :: Vec3
  experimentalPosition :: Vec3
  validExperimentalPosition :: bool

text \<open>
  The collaborators. A coordinate, a marker and a body are named by a number (the
  position of a coordinate in the model's coordinate set).
\<close>

record 'm engine =
  coordinateSetSize :: "'m \<Rightarrow> nat"
  coordinateSetGetIndex :: "'m \<Rightarrow> string \<Rightarrow> int"
  markerSetGet :: "'m \<Rightarrow> string \<Rightarrow> nat option"
  getBody :: "'m \<Rightarrow> nat \<Rightarrow> nat"
  markerGetName :: "'m \<Rightarrow> nat \<Rightarrow> string"
  coordGetName :: "'m \<Rightarrow> nat \<Rightarrow> string"
  getOffset :: "'m \<Rightarrow> nat \<Rightarrow> Vec3"
  transformPosition :: "'m \<Rightarrow> nat \<Rightarrow> Vec3 \<Rightarrow> Vec3"
  getLocked :: "'m \<Rightarrow> nat \<Rightarrow> bool"
  setLocked :: "nat \<Rightarrow> bool \<Rightarrow> 'm \<Rightarrow> 'm"
  isConstrained :: "'m \<Rightarrow> nat \<Rightarrow> bool"
  getClamped :: "'m \<Rightarrow> nat \<Rightarrow> bool"
  setClamped :: "nat \<Rightarrow> bool \<Rightarrow> 'm \<Rightarrow> 'm"
  getDefaultValue :: "'m \<Rightarrow> nat \<Rightarrow> real"
  getValue :: "'m \<Rightarrow> nat \<Rightarrow> real"
  setValue :: "nat \<Rightarrow> real \<Rightarrow> bool \<Rightarrow> 'm \<Rightarrow> 'm"
  isNAN :: "real \<Rightarrow> bool"
  dgelsy :: "nat \<Rightarrow> nat \<Rightarrow> real list list \<Rightarrow> real list \<Rightarrow> real \<Rightarrow> real list \<times> nat"

text \<open>
  The object. \<open>calcDerivs\<close> is the file's static flag of that name; the static
  \<^verbatim>\<open>debug\<close> is never assigned and is the constant below.
\<close>

record IKTarget =
  markers :: "markerToSolve list"
  infos :: "coordinateInfo list"
  prescribedQs :: "nat list"
  unprescribedQs :: "nat list"
  unprescribedWeightedQs :: "nat list"
  numParameters :: nat
  dx :: "real list"
  interrupted :: bool
  printPerformanceValues :: bool
  calcDerivs :: bool
  worstMarkerError :: real
  nameOfWorstMarker :: string
  worstCoordinateError :: real
  nameOfWorstCoordinate :: string

definition perturbation :: real where
  "perturbation = 1 / 1000"

definition debug :: bool where
  "debug = False"

subsection \<open>Construction\<close>

text \<open>
  Modelled from the spec: \<^verbatim>\<open>Array<string>::findIndex\<close> and \<^verbatim>\<open>rfindIndex\<close> of
  OpenSim/Common/Array.h, which the file calls on the column labels: the position of
  the first, respectively the last, element equal to the name, and \<open>-1\<close> when there
  is none.
\<close>

fun findIndex :: "string list \<Rightarrow> string \<Rightarrow> int" where
  "findIndex [] a = -1"
| "findIndex (x # xs) a =
     (if x = a then 0 else (let j = findIndex xs a in if j < 0 then -1 else j + 1))"

definition rfindIndex :: "string list \<Rightarrow> string \<Rightarrow> int" where
  "rfindIndex xs a =
     (let j = findIndex (rev xs) a in if j < 0 then -1 else int (length xs) - 1 - j)"

text \<open>
  \<^verbatim>\<open>buildMarkerMap\<close>: one pass over the task set. \<open>raw\<close> is the object that
  \<^verbatim>\<open>new markerToSolve\<close> returns, whose fields hold whatever the memory held.
\<close>

fun buildMarkerMap ::
  "'m engine \<Rightarrow> 'm \<Rightarrow> markerToSolve \<Rightarrow> string list \<Rightarrow> IKTask list \<Rightarrow> markerToSolve list
     \<Rightarrow> exn + markerToSolve list" where
  "buildMarkerMap e m raw aNameArray [] ms = Inr ms"
| "buildMarkerMap e m raw aNameArray (IKCoordinateTask n a w vt v # ts) ms =
     buildMarkerMap e m raw aNameArray ts ms"
| "buildMarkerMap e m raw aNameArray (IKMarkerTask markerName a w # ts) ms =
     (if \<not> a then buildMarkerMap e m raw aNameArray ts ms
      else case markerSetGet e m markerName of
        None \<Rightarrow> Inl (Exception (''IKTarget.buildMarkerMap: ERROR- marker '' @ [CHR 0x27] @
                  markerName @ [CHR 0x27] @ '' named in IKMarkerTask not found in model''))
      | Some modelMarker \<Rightarrow>
          if w = 0 then buildMarkerMap e m raw aNameArray ts ms
          else let j = findIndex aNameArray (markerName @ ''_tx'') in
            if j < 0 then
              Inl (Exception (''IKTarget.buildMarkerMap: ERROR- experimental data for marker '' @
                     [CHR 0x27] @ markerName @ [CHR 0x27] @ '' not found in trc file''))
            else buildMarkerMap e m raw aNameArray ts
                   (ms @ [raw\<lparr>marker := modelMarker, body := getBody e m modelMarker,
                              markerColumn := j - 1, markerWeight := w\<rparr>]))"

text \<open>
  \<^verbatim>\<open>buildCoordinateMap\<close>, first loop: one info structure for each model coordinate;
  \<open>raw\<close> is what \<^verbatim>\<open>new coordinateInfo\<close> returns.
\<close>

definition initialInfo :: "'m engine \<Rightarrow> 'm \<Rightarrow> coordinateInfo \<Rightarrow> nat \<Rightarrow> coordinateInfo" where
  "initialInfo e m raw i =
     raw\<lparr>coord := i, prescribed := (getLocked e m i \<or> isConstrained e m i),
         experimentalColumn := -1, constantExperimentalValue := getDefaultValue e m i,
         weight := 0\<rparr>"

definition allCoordinatesInit :: "'m engine \<Rightarrow> 'm \<Rightarrow> coordinateInfo \<Rightarrow> coordinateInfo list" where
  "allCoordinatesInit e m raw = map (initialInfo e m raw) [0..<coordinateSetSize e m]"

text \<open>
  Second loop: the coordinate tasks update the info structures. An index that the
  coordinate set returns beyond its size would make the source write out of bounds;
  here the update is then without effect.
\<close>

fun applyCoordinateTasks ::
  "'m engine \<Rightarrow> 'm \<Rightarrow> string list \<Rightarrow> IKTask list \<Rightarrow> coordinateInfo list
     \<Rightarrow> exn + coordinateInfo list" where
  "applyCoordinateTasks e m aNameArray [] allCoordinates = Inr allCoordinates"
| "applyCoordinateTasks e m aNameArray (IKMarkerTask n a w # ts) allCoordinates =
     applyCoordinateTasks e m aNameArray ts allCoordinates"
| "applyCoordinateTasks e m aNameArray (IKCoordinateTask coordName a w vt v # ts) allCoordinates =
     (if \<not> a then applyCoordinateTasks e m aNameArray ts allCoordinates
      else let coordIndex = coordinateSetGetIndex e m coordName in
        if coordIndex < 0 then
          Inl (Exception (''IKTarget.buildCoordinateMap: ERROR- coordinate '' @ [CHR 0x27] @
                 coordName @ [CHR 0x27] @ '' named in IKCoordinateTask not found in model''))
        else let k = nat coordIndex; info = allCoordinates ! k in
          if vt = FromFile then
            (let j = rfindIndex aNameArray coordName in
             if j < 0 then
               Inl (Exception (''IKTarget.buildCoordinateMap: ERROR- coordinate task '' @ [CHR 0x27] @
                      coordName @ [CHR 0x27] @ '' specifies from_file but no column found for this coordinate in coordinates file''))
             else applyCoordinateTasks e m aNameArray ts
                    (allCoordinates[k := info\<lparr>experimentalColumn := j - 1, weight := w\<rparr>]))
          else if vt = ManualValue then
            applyCoordinateTasks e m aNameArray ts
              (allCoordinates[k := info\<lparr>constantExperimentalValue := v, weight := w\<rparr>])
          else applyCoordinateTasks e m aNameArray ts (allCoordinates[k := info\<lparr>weight := w\<rparr>]))"

text \<open>
  Third loop: the info structures are filtered into the three arrays. The state of the
  loop is the triple (\<^verbatim>\<open>_prescribedQs\<close>, \<^verbatim>\<open>_unprescribedQs\<close>, \<^verbatim>\<open>_unprescribedWeightedQs\<close>).
\<close>

definition filterStep ::
  "coordinateInfo list \<Rightarrow> nat \<Rightarrow> nat list \<times> nat list \<times> nat list \<Rightarrow> nat list \<times> nat list \<times> nat list" where
  "filterStep allCoordinates i s =
     (case s of (p, un, uw) \<Rightarrow>
        if prescribed (allCoordinates ! i) then (p @ [i], un, uw)
        else if weight (allCoordinates ! i) \<noteq> 0 then (p, un @ [i], uw @ [i])
        else (p, un @ [i], uw))"

definition filterCoordinates :: "coordinateInfo list \<Rightarrow> nat list \<times> nat list \<times> nat list" where
  "filterCoordinates allCoordinates =
     fold (filterStep allCoordinates) [0..<length allCoordinates] ([], [], [])"

definition buildCoordinateMap ::
  "'m engine \<Rightarrow> 'm \<Rightarrow> coordinateInfo \<Rightarrow> string list \<Rightarrow> IKTask list
     \<Rightarrow> exn + coordinateInfo list \<times> nat list \<times> nat list \<times> nat list" where
  "buildCoordinateMap e m raw aNameArray ikTaskSet =
     (case applyCoordinateTasks e m aNameArray ikTaskSet (allCoordinatesInit e m raw) of
        Inl x \<Rightarrow> Inl x
      | Inr allCoordinates \<Rightarrow> Inr (allCoordinates, filterCoordinates allCoordinates))"

text \<open>
  The constructor; \<^verbatim>\<open>setNumParameters\<close> allocates \<^verbatim>\<open>_dx\<close>, which the loop then fills.
  \<open>u\<close> is the content of the two error quantities, which the constructor leaves unset.
\<close>

definition newIKTarget ::
  "'m engine \<Rightarrow> 'm \<Rightarrow> markerToSolve \<Rightarrow> coordinateInfo \<Rightarrow> real \<Rightarrow> IKTask list \<Rightarrow> string list
     \<Rightarrow> exn + IKTarget" where
  "newIKTarget e m rawMarker rawInfo u aIKTaskSet columnLabels =
     (case buildMarkerMap e m rawMarker columnLabels aIKTaskSet [] of
        Inl x \<Rightarrow> Inl x
      | Inr ms \<Rightarrow>
         (case buildCoordinateMap e m rawInfo columnLabels aIKTaskSet of
            Inl x \<Rightarrow> Inl x
          | Inr (allCoordinates, p, un, uw) \<Rightarrow>
              Inr \<lparr>markers = ms, infos = allCoordinates, prescribedQs = p,
                   unprescribedQs = un, unprescribedWeightedQs = uw,
                   numParameters = length un, dx = replicate (length un) perturbation,
                   interrupted = False, printPerformanceValues = False, calcDerivs = True,
                   worstMarkerError = u, nameOfWorstMarker = [],
                   worstCoordinateError = u, nameOfWorstCoordinate = []\<rparr>))"


subsection \<open>Residual evaluation: the objective\<close>

text \<open>
  The loop that every evaluation starts with: the parameters are applied to the
  unprescribed coordinates, the last one with the flag that makes the model
  recompute. \<open>x\<close> must have \<open>numParameters\<close> elements (the source reads \<open>x[i]\<close> unchecked).
\<close>

definition infoAt :: "IKTarget \<Rightarrow> nat \<Rightarrow> coordinateInfo" where
  "infoAt t p = infos t ! p"

definition applyParameters :: "'m engine \<Rightarrow> IKTarget \<Rightarrow> real list \<Rightarrow> 'm \<Rightarrow> 'm" where
  "applyParameters e t x m =
     fold (\<lambda>i. setValue e (coord (infoAt t (unprescribedQs t ! i))) (x ! i)
                 (int i = int (numParameters t) - 1))
       [0..<numParameters t] m"

definition squaredError :: "Vec3 \<Rightarrow> Vec3 \<Rightarrow> real" where
  "squaredError ex co =
     (case ex of (e0, e1, e2) \<Rightarrow> case co of (c0, c1, c2) \<Rightarrow>
        0 + (e0 - c0) * (e0 - c0) + (e1 - c1) * (e1 - c1) + (e2 - c2) * (e2 - c2))"

text \<open>
  The local variables of the tally: \<^verbatim>\<open>totalWeightedSquaredErrors\<close>, the total of the
  unweighted squared errors, their maximum and the index of the worst offender.
\<close>

type_synonym tally = "real \<times> real \<times> real \<times> int"

text \<open>
  The marker loop of \<^verbatim>\<open>objectiveFunc\<close>. \<open>i\<close> is the loop index, the third list holds
  the markers from \<open>i\<close> on, \<open>done\<close> the ones before.
\<close>

fun objectiveMarkers ::
  "'m engine \<Rightarrow> 'm \<Rightarrow> int \<Rightarrow> markerToSolve list \<Rightarrow> markerToSolve list \<Rightarrow> tally
     \<Rightarrow> markerToSolve list \<times> tally" where
  "objectiveMarkers e m i [] done acc = (done, acc)"
| "objectiveMarkers e m i (mk # ms) done acc =
     (if \<not> validExperimentalPosition mk then objectiveMarkers e m (i + 1) ms (done @ [mk]) acc
      else case acc of (tw, tm, mx, worst) \<Rightarrow>
        let localPos = getOffset e m (marker mk);
            globalPos = transformPosition e m (body mk) localPos;
            mk' = mk\<lparr>computedPosition := globalPos\<rparr>;
            markerError = squaredError (experimentalPosition mk') (computedPosition mk')
        in objectiveMarkers e m (i + 1) ms (done @ [mk'])
             (tw + markerWeight mk' * markerError, tm + markerError,
              (if markerError > mx then markerError else mx),
              (if markerError > mx then i else worst)))"

text \<open>The loop over \<^verbatim>\<open>_unprescribedWeightedQs\<close>, whose elements point into \<open>infos\<close>.\<close>

fun objectiveCoordinates ::
  "'m engine \<Rightarrow> 'm \<Rightarrow> IKTarget \<Rightarrow> int \<Rightarrow> nat list \<Rightarrow> tally \<Rightarrow> tally" where
  "objectiveCoordinates e m t i [] acc = acc"
| "objectiveCoordinates e m t i (p # ps) acc =
     (case acc of (tw, tc, mx, worst) \<Rightarrow>
        let experimentalValue = experimentalValue (infoAt t p);
            computedValue = getValue e m (coord (infoAt t p));
            err = experimentalValue - computedValue;
            coordinateError = err * err
        in objectiveCoordinates e m t (i + 1) ps
             (tw + weight (infoAt t p) * coordinateError, tc + coordinateError,
              (if coordinateError > mx then coordinateError else mx),
              (if coordinateError > mx then i else worst)))"

definition setErrorReportingQuantities ::
  "real \<Rightarrow> string \<Rightarrow> real \<Rightarrow> string \<Rightarrow> IKTarget \<Rightarrow> IKTarget" where
  "setErrorReportingQuantities aMarkerError aMarkerName aCoordinateError aCoordinateName t =
     t\<lparr>worstMarkerError := aMarkerError, nameOfWorstMarker := aMarkerName,
       worstCoordinateError := aCoordinateError, nameOfWorstCoordinate := aCoordinateName\<rparr>"

text \<open>The report at the end of an evaluation (the printing left out).\<close>

definition reportErrors ::
  "'m engine \<Rightarrow> 'm \<Rightarrow> real \<Rightarrow> int \<Rightarrow> real \<Rightarrow> int \<Rightarrow> IKTarget \<Rightarrow> IKTarget" where
  "reportErrors e m maxMarkerError worstMarker maxCoordinateError worstCoordinate t =
     (if printPerformanceValues t \<or> (\<not> calcDerivs t \<and> debug) then
        setErrorReportingQuantities
          maxMarkerError
          (if worstMarker < 0 then []
           else markerGetName e m (marker (markers t ! nat worstMarker)))
          maxCoordinateError
          (if worstCoordinate < 0 then []
           else coordGetName e m (coord (infoAt t (unprescribedWeightedQs t ! nat worstCoordinate))))
          t
      else t)"

text \<open>
  \<^verbatim>\<open>objectiveFunc\<close>. The result is the exception, or the status, the objective \<open>f\<close>, the
  model and the object after the call.
\<close>

definition objectiveFunc ::
  "'m engine \<Rightarrow> real list \<Rightarrow> 'm \<Rightarrow> IKTarget \<Rightarrow> exn + int \<times> real \<times> 'm \<times> IKTarget" where
  "objectiveFunc e x m t =
     (if interrupted t then Inl InterruptedException
      else
        let m1 = applyParameters e t x m in
        case objectiveMarkers e m1 0 (markers t) [] (0, 0, 0, -1) of
          (ms, totalWeightedSquaredErrors, totalMarkerSquaredErrors, maxMarkerError, worstMarker) \<Rightarrow>
        let t1 = t\<lparr>markers := ms\<rparr> in
        case objectiveCoordinates e m1 t1 0 (unprescribedWeightedQs t1)
               (totalWeightedSquaredErrors, 0, 0, -1) of
          (totalWeightedSquaredErrors, totalCoordinateSquaredErrors, maxCoordinateError,
             worstCoordinate) \<Rightarrow>
        let t2 = reportErrors e m1 maxMarkerError worstMarker maxCoordinateError worstCoordinate t1
        in Inr (0, totalWeightedSquaredErrors, m1, t2))"

text \<open>\<^verbatim>\<open>getComputedMarkerLocations\<close>: three numbers for each marker, valid or not.\<close>

definition getComputedMarkerLocations :: "IKTarget \<Rightarrow> real list" where
  "getComputedMarkerLocations t =
     fold (\<lambda>mk aMarkerLocations.
             aMarkerLocations @ (case computedPosition mk of (c0, c1, c2) \<Rightarrow> [c0, c1, c2]))
       (markers t) []"

subsection \<open>Binding a frame\<close>

text \<open>
  \<^verbatim>\<open>prepareToSolve\<close>. \<open>dataRow\<close> is the state vector of the frame: \<open>dataRow c\<close> is the
  value that \<^verbatim>\<open>getDataValue\<close> stores for column \<open>c\<close>. \<open>qGuess\<close> is the caller's array.
\<close>

definition prepareToSolve_prescribed ::
  "'m engine \<Rightarrow> (int \<Rightarrow> real) \<Rightarrow> IKTarget \<Rightarrow> 'm \<Rightarrow> 'm" where
  "prepareToSolve_prescribed e dataRow t m =
     fold (\<lambda>p m.
             let info = infoAt t p;
                 v = (if experimentalColumn info \<ge> 0 then dataRow (experimentalColumn info)
                      else constantExperimentalValue info);
                 lockedState = getLocked e m (coord info)
             in setLocked e (coord info) lockedState
                  (setValue e (coord info) v True (setLocked e (coord info) False m)))
       (prescribedQs t) m"

definition prepareToSolve_unprescribedStep ::
  "'m engine \<Rightarrow> 'm \<Rightarrow> (int \<Rightarrow> real) \<Rightarrow> nat \<Rightarrow> real list \<times> IKTarget \<Rightarrow> real list \<times> IKTarget" where
  "prepareToSolve_unprescribedStep e m dataRow i s =
     (case s of (qGuess, t) \<Rightarrow>
        let p = unprescribedQs t ! i;
            info = infoAt t p;
            qGuess' = (if experimentalColumn info \<ge> 0
                       then qGuess[i := dataRow (experimentalColumn info)]
                       else qGuess[i := getValue e m (coord info)])
        in if weight info \<noteq> 0 then
             (qGuess',
              t\<lparr>infos := (infos t)[p := info\<lparr>experimentalValue :=
                   (if experimentalColumn info \<ge> 0 then qGuess' ! i
                    else constantExperimentalValue info)\<rparr>]\<rparr>)
           else (qGuess', t))"

definition prepareToSolve_marker :: "'m engine \<Rightarrow> (int \<Rightarrow> real) \<Rightarrow> markerToSolve \<Rightarrow> markerToSolve" where
  "prepareToSolve_marker e dataRow mk =
     (let dataColumnNumber = markerColumn mk;
          ex = (dataRow dataColumnNumber, dataRow (dataColumnNumber + 1),
                dataRow (dataColumnNumber + 2))
      in mk\<lparr>experimentalPosition := ex,
            validExperimentalPosition :=
              (case ex of (e0, e1, e2) \<Rightarrow> \<not> (isNAN e e0 \<or> isNAN e e1 \<or> isNAN e e2))\<rparr>)"

definition prepareToSolve ::
  "'m engine \<Rightarrow> (int \<Rightarrow> real) \<Rightarrow> real list \<Rightarrow> 'm \<Rightarrow> IKTarget \<Rightarrow> real list \<times> 'm \<times> IKTarget" where
  "prepareToSolve e dataRow qGuess m t =
     (let m1 = prepareToSolve_prescribed e dataRow t m in
      case fold (prepareToSolve_unprescribedStep e m1 dataRow) [0..<length (unprescribedQs t)]
             (qGuess, t) of
        (qGuess', t1) \<Rightarrow>
          (qGuess', m1, t1\<lparr>markers := map (prepareToSolve_marker e dataRow) (markers t1)\<rparr>))"


subsection \<open>The Jacobian\<close>

fun jacobianMarkers ::
  "'m engine \<Rightarrow> 'm \<Rightarrow> real list \<Rightarrow> nat \<Rightarrow> markerToSolve list \<Rightarrow> real list \<Rightarrow> real list" where
  "jacobianMarkers e m markerWeights k [] pf = pf"
| "jacobianMarkers e m markerWeights k (mk # ms) pf =
     (if \<not> validExperimentalPosition mk then jacobianMarkers e m markerWeights (k + 1) ms pf
      else
        let localPos = getOffset e m (marker mk);
            globalPos = transformPosition e m (body mk) localPos
        in case globalPos of (g0, g1, g2) \<Rightarrow>
           case computedPosition mk of (c0, c1, c2) \<Rightarrow>
             jacobianMarkers e m markerWeights (k + 1) ms
               (pf[k * 3 + 0 := markerWeights ! k * (g0 - c0),
                   k * 3 + 1 := markerWeights ! k * (g1 - c1),
                   k * 3 + 2 := markerWeights ! k * (g2 - c2)]))"

definition markerWeightsOf :: "IKTarget \<Rightarrow> real list" where
  "markerWeightsOf t =
     map (\<lambda>mk. if \<not> validExperimentalPosition mk then 0 else sqrt (markerWeight mk)) (markers t)"

text \<open>The model with parameter \<open>i\<close> perturbed forward, its clamping switched off.\<close>

definition perturbForward :: "'m engine \<Rightarrow> IKTarget \<Rightarrow> real list \<Rightarrow> nat \<Rightarrow> 'm \<Rightarrow> 'm" where
  "perturbForward e t jointQs i m =
     (let c = coord (infoAt t (unprescribedQs t ! i))
      in setValue e c (jointQs ! i + dx t ! i) True (setClamped e c False m))"

text \<open>
  One pass of the loop over the controls. The state is the model, \<open>J\<close>, the vectors
  \<open>xp\<close> and \<open>pf\<close> and the row of the next weighted coordinate.
\<close>

definition jacobianColumn ::
  "'m engine \<Rightarrow> IKTarget \<Rightarrow> real list \<Rightarrow> real list \<Rightarrow> nat
     \<Rightarrow> 'm \<times> real list list \<times> real list \<times> real list \<times> nat
     \<Rightarrow> 'm \<times> real list list \<times> real list \<times> real list \<times> nat" where
  "jacobianColumn e t markerWeights jointQs i s =
     (case s of (m, J, xp, pf, row) \<Rightarrow>
        let info = infoAt t (unprescribedQs t ! i);
            clampedState = getClamped e m (coord info);
            xp1 = xp[i := jointQs ! i + dx t ! i];
            m2 = setValue e (coord info) (xp1 ! i) True (setClamped e (coord info) False m);
            pf1 = jacobianMarkers e m2 markerWeights 0 (markers t) pf;
            rdx = 1 / dx t ! i;
            J1 = J[i := map (\<lambda>v. rdx * v) pf1];
            xp2 = xp1[i := jointQs ! i];
            m3 = setValue e (coord info) (xp2 ! i) False m2;
            m4 = setClamped e (coord info) clampedState m3
        in if weight info \<noteq> 0
           then (m4, J1[i := (J1 ! i)[row := sqrt (weight info)]], xp2, pf1, row + 1)
           else (m4, J1, xp2, pf1, row))"

definition residualSize :: "IKTarget \<Rightarrow> nat" where
  "residualSize t = 3 * length (markers t) + length (unprescribedWeightedQs t)"

definition jacobianColumns ::
  "'m engine \<Rightarrow> IKTarget \<Rightarrow> real list \<Rightarrow> nat list \<Rightarrow> 'm \<Rightarrow> real list list
     \<Rightarrow> 'm \<times> real list list \<times> real list \<times> real list \<times> nat" where
  "jacobianColumns e t jointQs is m J =
     fold (jacobianColumn e t (markerWeightsOf t) jointQs) is
       (m, J, jointQs, replicate (residualSize t) 0, 3 * length (markers t))"

definition createJacobian ::
  "'m engine \<Rightarrow> IKTarget \<Rightarrow> real list \<Rightarrow> 'm \<Rightarrow> real list list \<Rightarrow> 'm \<times> real list list" where
  "createJacobian e t jointQs m J =
     (case jacobianColumns e t jointQs [0..<numParameters t] m J of
        (m', J', xp, pf, row) \<Rightarrow> (m', J'))"

subsection \<open>The residual vector\<close>

text \<open>
  \<^verbatim>\<open>iterativeOptimization\<close> evaluates the residual vector \<^verbatim>\<open>dError\<close> in three places
  (before the loop, for the trial step and for every halved step) with the same
  statements; they are the function \<open>evaluateDError\<close>. The vector is updated in place.
\<close>

fun residualMarkers ::
  "'m engine \<Rightarrow> 'm \<Rightarrow> nat \<Rightarrow> markerToSolve list \<Rightarrow> markerToSolve list \<Rightarrow> real list
     \<Rightarrow> markerToSolve list \<times> real list" where
  "residualMarkers e m i [] done dE = (done, dE)"
| "residualMarkers e m i (mk # ms) done dE =
     (if \<not> validExperimentalPosition mk then residualMarkers e m (i + 1) ms (done @ [mk]) dE
      else
        let localPos = getOffset e m (marker mk);
            globalPos = transformPosition e m (body mk) localPos;
            mk' = mk\<lparr>computedPosition := globalPos\<rparr>
        in case experimentalPosition mk' of (e0, e1, e2) \<Rightarrow>
           case computedPosition mk' of (c0, c1, c2) \<Rightarrow>
             residualMarkers e m (i + 1) ms (done @ [mk'])
               (dE[i * 3 + 0 := sqrt (markerWeight mk') * (e0 - c0),
                   i * 3 + 1 := sqrt (markerWeight mk') * (e1 - c1),
                   i * 3 + 2 := sqrt (markerWeight mk') * (e2 - c2)]))"

definition residualCoordinateStep ::
  "'m engine \<Rightarrow> 'm \<Rightarrow> IKTarget \<Rightarrow> nat \<Rightarrow> nat \<times> real list \<Rightarrow> nat \<times> real list" where
  "residualCoordinateStep e m t i s =
     (case s of (row, dE) \<Rightarrow>
        let info = infoAt t (unprescribedQs t ! i) in
        if weight info \<noteq> 0 then
          (row + 1,
           dE[row := sqrt (weight info) * (experimentalValue info - getValue e m (coord info))])
        else (row, dE))"

definition residualCoordinates :: "'m engine \<Rightarrow> 'm \<Rightarrow> IKTarget \<Rightarrow> real list \<Rightarrow> real list" where
  "residualCoordinates e m t dE =
     snd (fold (residualCoordinateStep e m t) [0..<numParameters t]
            (3 * length (markers t), dE))"

text \<open>\<^verbatim>\<open>Matrix::norm\<close> of SimTK on a column: the Euclidean norm.\<close>

definition norm_col :: "real list \<Rightarrow> real" where
  "norm_col v = sqrt (sum_list (map (\<lambda>a. a * a) v))"

text \<open>
  The local variables of \<^verbatim>\<open>iterativeOptimization\<close>, with the model and the object;
  the counter \<^verbatim>\<open>iter\<close> is an argument of the loop. A matrix is the list of its columns.
\<close>

record 'm solver =
  model :: 'm
  target :: IKTarget
  results :: "real list"
  J :: "real list list"
  dQ :: "real list"
  dError :: "real list"
  rank :: nat
  previousDErrorNorm :: real
  currentDErrorNorm :: real
  tempDErrorNorm :: real
  deltaDErrorNorm :: real

definition evaluateDError :: "'m engine \<Rightarrow> real list \<Rightarrow> 'm solver \<Rightarrow> 'm solver" where
  "evaluateDError e x st =
     (let m1 = applyParameters e (target st) x (model st) in
      case residualMarkers e m1 0 (markers (target st)) [] (dError st) of
        (ms, dE) \<Rightarrow>
          let t1 = (target st)\<lparr>markers := ms\<rparr>
          in st\<lparr>model := m1, target := t1, dError := residualCoordinates e m1 t1 dE\<rparr>)"


subsection \<open>The iterative solver\<close>

definition errorTol :: real where
  "errorTol = 1 / 10000"

definition maxIter :: nat where
  "maxIter = 1000"

definition rcond :: real where
  "rcond = 1 / 10 ^ 9"

text \<open>The values \<^verbatim>\<open>results[i]+dQ(i, 0)\<close> for the \<open>n\<close> parameters.\<close>

definition trialValues :: "real list \<Rightarrow> real list \<Rightarrow> nat \<Rightarrow> real list" where
  "trialValues rs dq n = map (\<lambda>i. rs ! i + dq ! i) [0..<n]"

text \<open>
  The first half of the loop body: the Jacobian, the least-squares solution of LAPACK
  (the overwritten right-hand side, of which the first \<open>n\<close> entries are the update, and
  the rank) and the residual of the trial step.
\<close>

definition solveStep :: "'m engine \<Rightarrow> 'm solver \<Rightarrow> 'm solver" where
  "solveStep e st =
     (let st1 = st\<lparr>previousDErrorNorm := currentDErrorNorm st\<rparr>;
          t = target st1;
          n = numParameters t
      in case createJacobian e t (results st1) (model st1) (J st1) of
        (m', J') \<Rightarrow>
          case dgelsy e (residualSize t) n J' (dError st1) rcond of
            (performanceVectorCopy, rk) \<Rightarrow>
              let st2 = st1\<lparr>model := m', J := J', dQ := take n performanceVectorCopy, rank := rk\<rparr>;
                  st3 = evaluateDError e (trialValues (results st2) (dQ st2) n) st2
              in st3\<lparr>tempDErrorNorm := norm_col (dError st3)\<rparr>)"

text \<open>One pass of the inner loop: the update is halved and the residual evaluated again.\<close>

definition halveStep :: "'m engine \<Rightarrow> 'm solver \<Rightarrow> 'm solver" where
  "halveStep e st =
     (let st1 = st\<lparr>dQ := map (\<lambda>v. v * (1 / 2)) (dQ st)\<rparr>;
          st2 = evaluateDError e
                  (trialValues (results st1) (dQ st1) (numParameters (target st1))) st1
      in st2\<lparr>tempDErrorNorm := norm_col (dError st2)\<rparr>)"

partial_function (option) backtrack :: "'m engine \<Rightarrow> 'm solver \<Rightarrow> 'm solver option" where
  "backtrack e st =
     (if tempDErrorNorm st > previousDErrorNorm st then backtrack e (halveStep e st)
      else Some st)"

text \<open>The end of the loop body: the error records and the change in configuration.\<close>

definition acceptStep :: "'m solver \<Rightarrow> 'm solver" where
  "acceptStep st =
     st\<lparr>currentDErrorNorm := norm_col (dError st),
        deltaDErrorNorm := \<bar>norm_col (dError st) - previousDErrorNorm st\<bar>,
        results := trialValues (results st) (dQ st) (length (results st))\<rparr>"

definition outerBody :: "'m engine \<Rightarrow> 'm solver \<Rightarrow> 'm solver option" where
  "outerBody e st =
     (let st4 = solveStep e st in
      case (if tempDErrorNorm st4 > previousDErrorNorm st4 then backtrack e st4 else Some st4) of
        None \<Rightarrow> None
      | Some st5 \<Rightarrow> Some (acceptStep st5))"

function solverLoop :: "'m engine \<Rightarrow> nat \<Rightarrow> 'm solver \<Rightarrow> (nat \<times> 'm solver) option" where
  "solverLoop e iter st =
     (if deltaDErrorNorm st > errorTol \<and> iter < maxIter then
        (case outerBody e st of
           None \<Rightarrow> None
         | Some st' \<Rightarrow> solverLoop e (iter + 1) st')
      else Some (iter, st))"
  by pat_completeness auto
termination
  by (relation "measure (\<lambda>(e, iter, st). maxIter - iter)") auto

text \<open>
  The marker tally after the loop: the world position is computed but not stored, the
  error is taken from \<^verbatim>\<open>computedPosition\<close> as it stands.
\<close>

fun finalMarkers :: "'m engine \<Rightarrow> 'm \<Rightarrow> int \<Rightarrow> markerToSolve list \<Rightarrow> tally \<Rightarrow> tally" where
  "finalMarkers e m i [] acc = acc"
| "finalMarkers e m i (mk # ms) acc =
     (if \<not> validExperimentalPosition mk then finalMarkers e m (i + 1) ms acc
      else case acc of (tw, tm, mx, worst) \<Rightarrow>
        let markerError = squaredError (experimentalPosition mk) (computedPosition mk)
        in finalMarkers e m (i + 1) ms
             (tw + markerWeight mk * markerError, tm + markerError,
              (if markerError > mx then markerError else mx),
              (if markerError > mx then i else worst)))"

definition initialSolver :: "'m engine \<Rightarrow> real list \<Rightarrow> 'm \<Rightarrow> IKTarget \<Rightarrow> 'm solver" where
  "initialSolver e rs m t =
     (let st0 = \<lparr>model = m, target = t, results = rs,
                 J = replicate (numParameters t) (replicate (residualSize t) 0),
                 dQ = replicate (numParameters t) 0,
                 dError = replicate (residualSize t) 0,
                 rank = numParameters t,
                 previousDErrorNorm = 0, currentDErrorNorm = 0, tempDErrorNorm = 0,
                 deltaDErrorNorm = 100\<rparr>;
          st1 = evaluateDError e rs st0
      in st1\<lparr>currentDErrorNorm := norm_col (dError st1)\<rparr>)"

text \<open>What follows the loop: the pose is applied to the model and the errors are tallied.\<close>

definition finishSolver :: "'m engine \<Rightarrow> 'm solver \<Rightarrow> int \<times> real list \<times> 'm \<times> IKTarget" where
  "finishSolver e st =
     (let m1 = applyParameters e (target st) (results st) (model st);
          t = target st
      in case finalMarkers e m1 0 (markers t) (0, 0, 0, -1) of
        (totalWeightedSquaredErrors, totalMarkerSquaredErrors, maxMarkerError, worstMarker) \<Rightarrow>
      case objectiveCoordinates e m1 t 0 (unprescribedWeightedQs t)
             (totalWeightedSquaredErrors, 0, 0, -1) of
        (totalWeightedSquaredErrors, totalCoordinateSquaredErrors, maxCoordinateError,
           worstCoordinate) \<Rightarrow>
        (0, results st, m1,
         reportErrors e m1 maxMarkerError worstMarker maxCoordinateError worstCoordinate t))"

text \<open>
  \<^verbatim>\<open>iterativeOptimization\<close>: \<open>None\<close> when an inner loop does not end, else the status,
  the vector \<^verbatim>\<open>results\<close>, the model and the object.
\<close>

definition iterativeOptimization ::
  "'m engine \<Rightarrow> real list \<Rightarrow> 'm \<Rightarrow> IKTarget \<Rightarrow> (int \<times> real list \<times> 'm \<times> IKTarget) option" where
  "iterativeOptimization e rs m t =
     (case solverLoop e 0 (initialSolver e rs m t) of
        None \<Rightarrow> None
      | Some (iter, st) \<Rightarrow> Some (finishSolver e st))"


subsection \<open>Notions used to state the properties\<close>

text \<open>The component \<open>v[r]\<close> of a vector, for \<open>r\<close> from 0 to 2.\<close>

fun component :: "Vec3 \<Rightarrow> nat \<Rightarrow> real" where
  "component (a, b, c) r = (if r = 0 then a else if r = 1 then b else c)"

text \<open>The world position of a marker in the model state \<open>m\<close>.\<close>

definition worldPosition :: "'m engine \<Rightarrow> 'm \<Rightarrow> markerToSolve \<Rightarrow> Vec3" where
  "worldPosition e m mk = transformPosition e m (body mk) (getOffset e m (marker mk))"

text \<open>
  The relation between the three arrays and the store that the constructor
  establishes, with the number of parameters and the steps.
\<close>

definition partitioned :: "IKTarget \<Rightarrow> bool" where
  "partitioned t \<longleftrightarrow>
     prescribedQs t = filter (\<lambda>i. prescribed (infos t ! i)) [0..<length (infos t)] \<and>
     unprescribedQs t = filter (\<lambda>i. \<not> prescribed (infos t ! i)) [0..<length (infos t)] \<and>
     unprescribedWeightedQs t = filter (\<lambda>i. weight (infos t ! i) \<noteq> 0) (unprescribedQs t) \<and>
     numParameters t = length (unprescribedQs t) \<and>
     dx t = replicate (numParameters t) perturbation"

text \<open>
  A vector of the length of the residual vector whose rows are 0 for the markers
  without a valid experimental position and for the coordinates.
\<close>

definition clearRows :: "IKTarget \<Rightarrow> real list \<Rightarrow> bool" where
  "clearRows t pf \<longleftrightarrow>
     length pf = residualSize t \<and>
     (\<forall>k < length (markers t). \<not> validExperimentalPosition (markers t ! k) \<longrightarrow>
        (\<forall>r < 3. pf ! (3 * k + r) = 0)) \<and>
     (\<forall>j. 3 * length (markers t) \<le> j \<and> j < length pf \<longrightarrow> pf ! j = 0)"

text \<open>The object with another experimental value for the coordinate at \<open>p\<close> of the store.\<close>

definition withExperimentalValue :: "IKTarget \<Rightarrow> nat \<Rightarrow> real \<Rightarrow> IKTarget" where
  "withExperimentalValue t p v =
     t\<lparr>infos := (infos t)[p := (infos t ! p)\<lparr>experimentalValue := v\<rparr>]\<rparr>"

text \<open>A solver state whose object has the cancellation flag set to \<open>b\<close>.\<close>

definition flagged :: "bool \<Rightarrow> 'm solver \<Rightarrow> 'm solver" where
  "flagged b st = st\<lparr>target := (target st)\<lparr>interrupted := b\<rparr>\<rparr>"

text \<open>
  Two states of an object with the same three arrays, parameters and steps, and the
  same store but for the experimental values.
\<close>

definition sameCoordinates :: "IKTarget \<Rightarrow> IKTarget \<Rightarrow> bool" where
  "sameCoordinates t t' \<longleftrightarrow>
     prescribedQs t' = prescribedQs t \<and> unprescribedQs t' = unprescribedQs t \<and>
     unprescribedWeightedQs t' = unprescribedWeightedQs t \<and>
     numParameters t' = numParameters t \<and> dx t' = dx t \<and>
     map (\<lambda>c. c\<lparr>experimentalValue := 0\<rparr>) (infos t') =
       map (\<lambda>c. c\<lparr>experimentalValue := 0\<rparr>) (infos t)"

text \<open>
  The life of an object after its construction: any sequence of frame bindings,
  objective evaluations, runs of the solver and changes of its flags.
\<close>

inductive lifetime :: "'m engine \<Rightarrow> IKTarget \<Rightarrow> IKTarget \<Rightarrow> bool" for e :: "'m engine" and t :: IKTarget where
  constructed: "lifetime e t t"
| bound: "lifetime e t t1 \<Longrightarrow> prepareToSolve e dataRow qGuess m t1 = (qGuess', m', t2)
     \<Longrightarrow> lifetime e t t2"
| evaluated: "lifetime e t t1 \<Longrightarrow> objectiveFunc e x m t1 = Inr (status, f, m', t2)
     \<Longrightarrow> lifetime e t t2"
| solved: "lifetime e t t1 \<Longrightarrow> iterativeOptimization e rs m t1 = Some (status, rs', m', t2)
     \<Longrightarrow> lifetime e t t2"
| flagged: "lifetime e t t1
     \<Longrightarrow> lifetime e t (t1\<lparr>interrupted := b, printPerformanceValues := pp, calcDerivs := cd\<rparr>)"

text \<open>
  The states of the solver: the one before the loop and what the three blocks of the
  loop body make of a state. The conditions of the two loops are left out, so that
  these are at least the states that a run passes through.
\<close>

inductive solverStates :: "'m engine \<Rightarrow> 'm solver \<Rightarrow> 'm solver \<Rightarrow> bool" for e :: "'m engine" and s0 :: "'m solver" where
  initial: "solverStates e s0 s0"
| solve: "solverStates e s0 st \<Longrightarrow> solverStates e s0 (solveStep e st)"
| halve: "solverStates e s0 st \<Longrightarrow> solverStates e s0 (halveStep e st)"
| accept: "solverStates e s0 st \<Longrightarrow> solverStates e s0 (acceptStep st)"

text \<open>
  What the residual vector of a solver state should be: its length, the rows of the
  markers and the rows of the weighted coordinates.
\<close>

definition residualOf :: "'m engine \<Rightarrow> 'm solver \<Rightarrow> bool" where
  "residualOf e st \<longleftrightarrow>
     (let t = target st; ms = markers t; uw = unprescribedWeightedQs t in
      length (dError st) = 3 * length ms + length uw \<and>
      (\<forall>k < length ms. \<forall>r < 3.
         dError st ! (3 * k + r) =
           (if validExperimentalPosition (ms ! k)
            then sqrt (markerWeight (ms ! k)) *
                   (component (experimentalPosition (ms ! k)) r -
                    component (computedPosition (ms ! k)) r)
            else 0)) \<and>
      (\<forall>k < length uw.
         dError st ! (3 * length ms + k) =
           sqrt (weight (infoAt t (uw ! k))) *
             (experimentalValue (infoAt t (uw ! k)) -
              getValue e (model st) (coord (infoAt t (uw ! k))))))"

text \<open>The state of the solver after \<open>k\<close> passes of the outer loop, while it runs.\<close>

primrec passes :: "'m engine \<Rightarrow> nat \<Rightarrow> nat \<Rightarrow> 'm solver \<Rightarrow> (nat \<times> 'm solver) option" where
  "passes e 0 iter st = Some (iter, st)"
| "passes e (Suc k) iter st =
     (if deltaDErrorNorm st > errorTol \<and> iter < maxIter then
        (case outerBody e st of None \<Rightarrow> None | Some st' \<Rightarrow> passes e k (iter + 1) st')
      else None)"

text \<open>
  The state of a pass of the outer loop after the trial step of the least-squares
  solution and \<open>k\<close> passes of the inner loop.
\<close>

definition trialStep :: "'m engine \<Rightarrow> 'm solver \<Rightarrow> nat \<Rightarrow> 'm solver" where
  "trialStep e st k = (halveStep e ^^ k) (solveStep e st)"

text \<open>The markers without a valid experimental position are the same in both objects.\<close>

definition invalidKept :: "IKTarget \<Rightarrow> IKTarget \<Rightarrow> bool" where
  "invalidKept t t' \<longleftrightarrow>
     map validExperimentalPosition (markers t') = map validExperimentalPosition (markers t) \<and>
     (\<forall>k < length (markers t).
        \<not> validExperimentalPosition (markers t ! k) \<longrightarrow> markers t' ! k = markers t ! k)"

text \<open>
  The rows that an evaluation in the model state \<open>m\<close> writes for a marker and for the
  coordinate at a position of the store, and the parameters with a nonzero weight.
\<close>

definition markerRow :: "'m engine \<Rightarrow> 'm \<Rightarrow> markerToSolve \<Rightarrow> nat \<Rightarrow> real" where
  "markerRow e m mk r =
     sqrt (markerWeight mk) *
       (component (experimentalPosition mk) r - component (worldPosition e m mk) r)"

definition coordinateRow :: "'m engine \<Rightarrow> 'm \<Rightarrow> IKTarget \<Rightarrow> nat \<Rightarrow> real" where
  "coordinateRow e m t p =
     sqrt (weight (infoAt t p)) *
       (experimentalValue (infoAt t p) - getValue e m (coord (infoAt t p)))"

definition weightedParameter :: "IKTarget \<Rightarrow> nat \<Rightarrow> bool" where
  "weightedParameter t i \<longleftrightarrow> weight (infoAt t (unprescribedQs t ! i)) \<noteq> 0"

text \<open>
  What an evaluation makes of a marker, and the relation between a marker and a later
  state of it: only the computed position may differ, and not even that when the
  experimental position is not valid.
\<close>

definition evaluatedMarker :: "'m engine \<Rightarrow> 'm \<Rightarrow> markerToSolve \<Rightarrow> markerToSolve" where
  "evaluatedMarker e m mk =
     (if validExperimentalPosition mk then mk\<lparr>computedPosition := worldPosition e m mk\<rparr> else mk)"

definition markerKept :: "markerToSolve \<Rightarrow> markerToSolve \<Rightarrow> bool" where
  "markerKept mk mk' \<longleftrightarrow>
     mk' = mk\<lparr>computedPosition := computedPosition mk'\<rparr> \<and>
     (\<not> validExperimentalPosition mk \<longrightarrow> mk' = mk)"

text \<open>
  The relation between an object and a later state of it in which at most the computed
  positions of the valid markers and the error quantities differ.
\<close>

definition fixedPart :: "IKTarget \<Rightarrow> IKTarget" where
  "fixedPart t =
     t\<lparr>markers := [], worstMarkerError := 0, nameOfWorstMarker := [],
       worstCoordinateError := 0, nameOfWorstCoordinate := []\<rparr>"

definition frame :: "IKTarget \<Rightarrow> IKTarget \<Rightarrow> bool" where
  "frame t t' \<longleftrightarrow>
     list_all2 markerKept (markers t) (markers t') \<and> fixedPart t' = fixedPart t"

subsection \<open>An example\<close>

text \<open>
  A model with three coordinates: \<open>q\<close> moves every marker along the first axis, \<open>r\<close>
  along the second and \<open>p\<close> is locked. A model state is the list of their values. The
  markers \<open>M\<close> and \<open>N\<close> sit at the origin of the body. A cell of the storage that holds
  \<open>missing\<close> stands for a missing value. The least-squares solver is the one for a
  matrix with orthogonal columns, which the Jacobian of this model is.
\<close>

definition missing :: real where
  "missing = -9999"

definition dot :: "real list \<Rightarrow> real list \<Rightarrow> real" where
  "dot a b = sum_list (map (\<lambda>(x, y). x * y) (zip a b))"

definition exDgelsy :: "nat \<Rightarrow> nat \<Rightarrow> real list list \<Rightarrow> real list \<Rightarrow> real \<Rightarrow> real list \<times> nat" where
  "exDgelsy mm n A b rc =
     (map (\<lambda>a. if dot a a = 0 then 0 else dot a b / dot a a) A @ drop n b,
      length (filter (\<lambda>a. dot a a \<noteq> 0) A))"

definition exEngine :: "(real list) engine" where
  "exEngine =
     \<lparr>coordinateSetSize = length,
      coordinateSetGetIndex = (\<lambda>m n. findIndex [''q'', ''p'', ''r''] n),
      markerSetGet = (\<lambda>m n. if n = ''M'' then Some 0 else if n = ''N'' then Some 1 else None),
      getBody = (\<lambda>m k. 0),
      markerGetName = (\<lambda>m k. if k = 0 then ''M'' else ''N''),
      coordGetName = (\<lambda>m i. if i = 0 then ''q'' else if i = 1 then ''p'' else ''r''),
      getOffset = (\<lambda>m k. (0, 0, 0)),
      transformPosition = (\<lambda>m b v. case v of (x, y, z) \<Rightarrow> (x + m ! 0, y + m ! 2, z)),
      getLocked = (\<lambda>m i. i = 1),
      setLocked = (\<lambda>i b m. m),
      isConstrained = (\<lambda>m i. False),
      getClamped = (\<lambda>m i. False),
      setClamped = (\<lambda>i b m. m),
      getDefaultValue = (\<lambda>m i. 0),
      getValue = (\<lambda>m i. m ! i),
      setValue = (\<lambda>i v b m. m[i := v]),
      isNAN = (\<lambda>v. v = missing),
      dgelsy = exDgelsy\<rparr>"

definition exModel :: "real list" where
  "exModel = [0, 0, 0]"

definition exLabels :: "string list" where
  "exLabels = [''time'', ''M_tx'', ''M_ty'', ''M_tz'', ''N_tx'', ''N_ty'', ''N_tz'', ''q'', ''r'']"

definition exTasks :: "IKTask list" where
  "exTasks = [IKMarkerTask ''M'' True 1, IKMarkerTask ''N'' True 1,
              IKCoordinateTask ''q'' True 1 FromFile 0, IKCoordinateTask ''r'' True 0 FromFile 0]"

definition exRawMarker :: markerToSolve where
  "exRawMarker = \<lparr>marker = 0, body = 0, markerColumn = 0, markerWeight = 0,
                  computedPosition = (7, 7, 7), experimentalPosition = (0, 0, 0),
                  validExperimentalPosition = False\<rparr>"

definition exRawInfo :: coordinateInfo where
  "exRawInfo = \<lparr>coord = 0, prescribed = False, experimentalColumn = 0,
                constantExperimentalValue = 0, weight = 0, experimentalValue = 0\<rparr>"

text \<open>The frame: \<open>M\<close> is seen at \<open>(1, 1, 0)\<close>, \<open>N\<close> is missing, \<open>q\<close> is 1 and \<open>r\<close> is 0.\<close>

definition exRow :: "int \<Rightarrow> real" where
  "exRow c = [1, 1, 0, missing, missing, missing, 1, 0] ! nat c"

text \<open>The object as constructed, and the object, the model and the guess once the frame is bound.\<close>

definition exInfos :: "coordinateInfo list" where
  "exInfos =
     [\<lparr>coord = 0, prescribed = False, experimentalColumn = 6,
       constantExperimentalValue = 0, weight = 1, experimentalValue = 0\<rparr>,
      \<lparr>coord = 1, prescribed = True, experimentalColumn = -1,
       constantExperimentalValue = 0, weight = 0, experimentalValue = 0\<rparr>,
      \<lparr>coord = 2, prescribed = False, experimentalColumn = 7,
       constantExperimentalValue = 0, weight = 0, experimentalValue = 0\<rparr>]"

definition exNew :: IKTarget where
  "exNew =
     \<lparr>markers =
        [\<lparr>marker = 0, body = 0, markerColumn = 0, markerWeight = 1,
          computedPosition = (7, 7, 7), experimentalPosition = (0, 0, 0),
          validExperimentalPosition = False\<rparr>,
         \<lparr>marker = 1, body = 0, markerColumn = 3, markerWeight = 1,
          computedPosition = (7, 7, 7), experimentalPosition = (0, 0, 0),
          validExperimentalPosition = False\<rparr>],
      infos = exInfos,
      prescribedQs = [1], unprescribedQs = [0, 2], unprescribedWeightedQs = [0],
      numParameters = 2, dx = [perturbation, perturbation],
      interrupted = False, printPerformanceValues = False, calcDerivs = True,
      worstMarkerError = 0, nameOfWorstMarker = [],
      worstCoordinateError = 0, nameOfWorstCoordinate = []\<rparr>"

definition exTarget :: IKTarget where
  "exTarget =
     exNew\<lparr>markers :=
        [\<lparr>marker = 0, body = 0, markerColumn = 0, markerWeight = 1,
          computedPosition = (7, 7, 7), experimentalPosition = (1, 1, 0),
          validExperimentalPosition = True\<rparr>,
         \<lparr>marker = 1, body = 0, markerColumn = 3, markerWeight = 1,
          computedPosition = (7, 7, 7), experimentalPosition = (missing, missing, missing),
          validExperimentalPosition = False\<rparr>],
      infos := exInfos[0 := (exInfos ! 0)\<lparr>experimentalValue := 1\<rparr>]\<rparr>"

definition exGuess :: "real list" where
  "exGuess = [1, 0]"

text \<open>
  The states of the solver on this frame: before the loop, after the first pass (the
  step \<open>(0, 1)\<close> brings \<open>M\<close> onto its experimental position) and after the second
  one (no step is left).
\<close>

definition exMarkers :: "Vec3 \<Rightarrow> markerToSolve list" where
  "exMarkers c =
     [\<lparr>marker = 0, body = 0, markerColumn = 0, markerWeight = 1,
       computedPosition = c, experimentalPosition = (1, 1, 0),
       validExperimentalPosition = True\<rparr>,
      \<lparr>marker = 1, body = 0, markerColumn = 3, markerWeight = 1,
       computedPosition = (7, 7, 7), experimentalPosition = (missing, missing, missing),
       validExperimentalPosition = False\<rparr>]"

definition exJ :: "real list list" where
  "exJ = [[1, 0, 0, 0, 0, 0, 1], [0, 1, 0, 0, 0, 0, 0]]"

definition exS0 :: "(real list) solver" where
  "exS0 = \<lparr>model = [1, 0, 0], target = exTarget\<lparr>markers := exMarkers (1, 0, 0)\<rparr>,
           results = [1, 0], J = [[0, 0, 0, 0, 0, 0, 0], [0, 0, 0, 0, 0, 0, 0]], dQ = [0, 0],
           dError = [0, 1, 0, 0, 0, 0, 0], rank = 2,
           previousDErrorNorm = 0, currentDErrorNorm = 1, tempDErrorNorm = 0,
           deltaDErrorNorm = 100\<rparr>"

definition exS1 :: "(real list) solver" where
  "exS1 = \<lparr>model = [1, 0, 1], target = exTarget\<lparr>markers := exMarkers (1, 1, 0)\<rparr>,
           results = [1, 1], J = exJ, dQ = [0, 1],
           dError = [0, 0, 0, 0, 0, 0, 0], rank = 2,
           previousDErrorNorm = 1, currentDErrorNorm = 0, tempDErrorNorm = 0,
           deltaDErrorNorm = 1\<rparr>"

definition exS2 :: "(real list) solver" where
  "exS2 = \<lparr>model = [1, 0, 1], target = exTarget\<lparr>markers := exMarkers (1, 1, 0)\<rparr>,
           results = [1, 1], J = exJ, dQ = [0, 0],
           dError = [0, 0, 0, 0, 0, 0, 0], rank = 2,
           previousDErrorNorm = 0, currentDErrorNorm = 0, tempDErrorNorm = 0,
           deltaDErrorNorm = 0\<rparr>"

text \<open>
  The same model with a bend: beyond 1/2 the coordinate \<open>r\<close> moves the markers five times
  as fast along the second axis. From the same guess the step \<open>(0, 1)\<close> of the first
  pass overshoots (\<open>exB0\<close>, the trial norm is 2 against 1) and is halved once
  (\<open>exB1\<close>, the state after the pass).
\<close>

definition exBent :: "(real list) engine" where
  "exBent =
     exEngine\<lparr>transformPosition :=
       (\<lambda>m b v. case v of (x, y, z) \<Rightarrow>
          (x + m ! 0, y + (if m ! 2 \<le> 1 / 2 then m ! 2 else 5 * m ! 2 - 2), z))\<rparr>"

definition exB0 :: "(real list) solver" where
  "exB0 = \<lparr>model = [1, 0, 1], target = exTarget\<lparr>markers := exMarkers (1, 3, 0)\<rparr>,
           results = [1, 0], J = exJ, dQ = [0, 1],
           dError = [0, - 2, 0, 0, 0, 0, 0], rank = 2,
           previousDErrorNorm = 1, currentDErrorNorm = 1, tempDErrorNorm = 2,
           deltaDErrorNorm = 100\<rparr>"

definition exB1 :: "(real list) solver" where
  "exB1 = \<lparr>model = [1, 0, 1 / 2], target = exTarget\<lparr>markers := exMarkers (1, 1 / 2, 0)\<rparr>,
           results = [1, 1 / 2], J = exJ, dQ = [0, 1 / 2],
           dError = [0, 1 / 2, 0, 0, 0, 0, 0], rank = 2,
           previousDErrorNorm = 1, currentDErrorNorm = 1 / 2, tempDErrorNorm = 1 / 2,
           deltaDErrorNorm = 1 / 2\<rparr>"

section \<open>Properties\<close>

subsection \<open>Markers through an evaluation\<close>

lemma markerKept_refl: "markerKept mk mk"
  by (simp add: markerKept_def)

lemma markerKept_trans:
  assumes "markerKept a b" and "markerKept b c"
  shows "markerKept a c"
proof -
  have b: "b = a\<lparr>computedPosition := computedPosition b\<rparr>"
    and c: "c = b\<lparr>computedPosition := computedPosition c\<rparr>"
    using assms by (simp_all add: markerKept_def)
  have "c = a\<lparr>computedPosition := computedPosition b\<rparr>\<lparr>computedPosition := computedPosition c\<rparr>"
    using b c by simp
  then have 1: "c = a\<lparr>computedPosition := computedPosition c\<rparr>" by simp
  have v: "validExperimentalPosition b = validExperimentalPosition a"
    by (subst b) simp
  have 2: "\<not> validExperimentalPosition a \<longrightarrow> c = a"
    using assms v by (simp add: markerKept_def)
  show ?thesis using 1 2 by (simp add: markerKept_def)
qed

lemma markerKept_evaluated: "markerKept mk (evaluatedMarker e m mk)"
  by (simp add: markerKept_def evaluatedMarker_def)

lemma frame_refl: "frame t t"
  by (simp add: frame_def list_all2_refl markerKept_refl)

lemma frame_trans: "frame a b \<Longrightarrow> frame b c \<Longrightarrow> frame a c"
  unfolding frame_def
  by (auto intro: list_all2_trans[OF markerKept_trans])

lemma fixedPart_fields:
  assumes "fixedPart t' = fixedPart t"
  shows "infos t' = infos t" "prescribedQs t' = prescribedQs t"
    "unprescribedQs t' = unprescribedQs t" "unprescribedWeightedQs t' = unprescribedWeightedQs t"
    "numParameters t' = numParameters t" "dx t' = dx t" "interrupted t' = interrupted t"
    "printPerformanceValues t' = printPerformanceValues t" "calcDerivs t' = calcDerivs t"
proof -
  have "infos (fixedPart t') = infos (fixedPart t)"
    "prescribedQs (fixedPart t') = prescribedQs (fixedPart t)"
    "unprescribedQs (fixedPart t') = unprescribedQs (fixedPart t)"
    "unprescribedWeightedQs (fixedPart t') = unprescribedWeightedQs (fixedPart t)"
    "numParameters (fixedPart t') = numParameters (fixedPart t)"
    "dx (fixedPart t') = dx (fixedPart t)"
    "interrupted (fixedPart t') = interrupted (fixedPart t)"
    "printPerformanceValues (fixedPart t') = printPerformanceValues (fixedPart t)"
    "calcDerivs (fixedPart t') = calcDerivs (fixedPart t)"
    using assms by simp_all
  then show "infos t' = infos t" "prescribedQs t' = prescribedQs t"
    "unprescribedQs t' = unprescribedQs t" "unprescribedWeightedQs t' = unprescribedWeightedQs t"
    "numParameters t' = numParameters t" "dx t' = dx t" "interrupted t' = interrupted t"
    "printPerformanceValues t' = printPerformanceValues t" "calcDerivs t' = calcDerivs t"
    by (simp_all add: fixedPart_def)
qed

lemma residualMarkers_fst:
  "fst (residualMarkers e m i ms done dE) = done @ map (evaluatedMarker e m) ms"
  by (induction ms arbitrary: i "done" dE)
     (simp_all add: evaluatedMarker_def worldPosition_def Let_def split: prod.splits)

lemma objectiveMarkers_fst:
  "fst (objectiveMarkers e m i ms done acc) = done @ map (evaluatedMarker e m) ms"
  by (induction ms arbitrary: i "done" acc)
     (simp_all add: evaluatedMarker_def worldPosition_def Let_def split: prod.splits)

lemma frame_markers:
  "frame t (t\<lparr>markers := map (evaluatedMarker e m) (markers t)\<rparr>)"
  by (simp add: frame_def fixedPart_def list_all2_map2 list_all2_refl markerKept_evaluated)

subsection \<open>The example, evaluated\<close>

lemmas ex_defs = exEngine_def exModel_def exTarget_def exNew_def exInfos_def exGuess_def
  missing_def perturbation_def exMarkers_def
lemmas eval_defs = evaluateDError_def applyParameters_def residualCoordinates_def
  residualCoordinateStep_def infoAt_def residualSize_def norm_col_def Let_def upt_rec
  eval_nat_numeral
lemmas jacobian_defs = createJacobian_def jacobianColumns_def jacobianColumn_def
  markerWeightsOf_def infoAt_def residualSize_def Let_def upt_rec eval_nat_numeral

lemma ex_new:
  "newIKTarget exEngine exModel exRawMarker exRawInfo 0 exTasks exLabels = Inr exNew"
  by (simp add: newIKTarget_def buildCoordinateMap_def exEngine_def exModel_def exTasks_def
      exLabels_def exRawMarker_def exRawInfo_def exNew_def exInfos_def allCoordinatesInit_def
      initialInfo_def rfindIndex_def filterCoordinates_def filterStep_def upt_rec Let_def)

lemma ex_bound:
  "prepareToSolve exEngine exRow [0, 0] exModel exNew = (exGuess, exModel, exTarget)"
  by (simp add: prepareToSolve_def prepareToSolve_prescribed_def
      prepareToSolve_unprescribedStep_def prepareToSolve_marker_def exEngine_def exModel_def
      exNew_def exTarget_def exInfos_def exRow_def exGuess_def infoAt_def upt_rec Let_def
      missing_def)

lemma ex_initial: "initialSolver exEngine exGuess exModel exTarget = exS0"
  by (simp add: initialSolver_def exS0_def ex_defs eval_defs)

lemma ex_jacobian0:
  "createJacobian exEngine (target exS0) (results exS0) (model exS0) (J exS0) = ([1, 0, 0], exJ)"
  by (simp add: exS0_def exJ_def ex_defs jacobian_defs)

lemma ex_jacobian1:
  "createJacobian exEngine (target exS1) (results exS1) (model exS1) (J exS1) = ([1, 0, 1], exJ)"
  by (simp add: exS1_def exJ_def ex_defs jacobian_defs)

lemma ex_dgelsy0: "exDgelsy 7 2 exJ [0, 1, 0, 0, 0, 0, 0] rc = ([0, 1, 0, 0, 0, 0, 0], 2)"
  by (simp add: exDgelsy_def dot_def exJ_def)

lemma ex_dgelsy1: "exDgelsy 7 2 exJ [0, 0, 0, 0, 0, 0, 0] rc = ([0, 0, 0, 0, 0, 0, 0], 2)"
  by (simp add: exDgelsy_def dot_def exJ_def)

lemma ex_solve0:
  "solveStep exEngine exS0 = exS1\<lparr>results := [1, 0], currentDErrorNorm := 1, deltaDErrorNorm := 100\<rparr>"
proof -
  have t: "target exS0 = exTarget\<lparr>markers := exMarkers (1, 0, 0)\<rparr>"
    and d: "dError exS0 = [0, 1, 0, 0, 0, 0, 0]"
    by (simp_all add: exS0_def)
  have n: "numParameters (target exS0) = 2" "residualSize (target exS0) = 7"
    by (simp_all add: t exTarget_def exNew_def exMarkers_def residualSize_def)
  have g: "dgelsy exEngine = exDgelsy" by (simp add: exEngine_def)
  have "solveStep exEngine exS0 =
      (let st2 = exS0\<lparr>previousDErrorNorm := 1, model := [1, 0, 0], J := exJ, dQ := [0, 1], rank := 2\<rparr>;
           st3 = evaluateDError exEngine [1, 1] st2
       in st3\<lparr>tempDErrorNorm := norm_col (dError st3)\<rparr>)"
    apply (simp only: solveStep_def)
    apply (simp add: ex_jacobian0 n g ex_dgelsy0 d trialValues_def upt_rec)
    apply (simp add: exS0_def)
    done
  also have "\<dots> = exS1\<lparr>results := [1, 0], currentDErrorNorm := 1, deltaDErrorNorm := 100\<rparr>"
    by (simp add: exS0_def exS1_def ex_defs eval_defs)
  finally show ?thesis .
qed

lemma ex_solve1:
  "solveStep exEngine exS1 = exS2\<lparr>currentDErrorNorm := 0, deltaDErrorNorm := 1\<rparr>"
proof -
  have t: "target exS1 = exTarget\<lparr>markers := exMarkers (1, 1, 0)\<rparr>"
    and d: "dError exS1 = [0, 0, 0, 0, 0, 0, 0]"
    by (simp_all add: exS1_def)
  have n: "numParameters (target exS1) = 2" "residualSize (target exS1) = 7"
    by (simp_all add: t exTarget_def exNew_def exMarkers_def residualSize_def)
  have g: "dgelsy exEngine = exDgelsy" by (simp add: exEngine_def)
  have "solveStep exEngine exS1 =
      (let st2 = exS1\<lparr>previousDErrorNorm := 0, model := [1, 0, 1], J := exJ, dQ := [0, 0], rank := 2\<rparr>;
           st3 = evaluateDError exEngine [1, 1] st2
       in st3\<lparr>tempDErrorNorm := norm_col (dError st3)\<rparr>)"
    apply (simp only: solveStep_def)
    apply (simp add: ex_jacobian1 n g ex_dgelsy1 d trialValues_def upt_rec)
    apply (simp add: exS1_def)
    done
  also have "\<dots> = exS2\<lparr>currentDErrorNorm := 0, deltaDErrorNorm := 1\<rparr>"
    by (simp add: exS1_def exS2_def ex_defs eval_defs)
  finally show ?thesis .
qed

lemma ex_pass0: "outerBody exEngine exS0 = Some exS1"
  by (simp add: outerBody_def ex_solve0)
     (simp add: exS1_def acceptStep_def norm_col_def trialValues_def upt_rec)

lemma ex_pass1: "outerBody exEngine exS1 = Some exS2"
  by (simp add: outerBody_def ex_solve1)
     (simp add: exS2_def acceptStep_def norm_col_def trialValues_def upt_rec)

declare solverLoop.simps [simp del]

lemma ex_loop: "solverLoop exEngine 0 exS0 = Some (2, exS2)"
proof -
  have 0: "deltaDErrorNorm exS0 = 100" and 1: "deltaDErrorNorm exS1 = 1"
    and 2: "deltaDErrorNorm exS2 = 0"
    by (simp_all add: exS0_def exS1_def exS2_def)
  have "solverLoop exEngine 0 exS0 = solverLoop exEngine (Suc 0) exS1"
    by (simp add: solverLoop.simps[of _ 0] 0 errorTol_def maxIter_def ex_pass0)
  also have "\<dots> = solverLoop exEngine (Suc (Suc 0)) exS2"
    by (simp add: solverLoop.simps[of _ "Suc 0"] 1 errorTol_def maxIter_def ex_pass1)
  also have "\<dots> = Some (2, exS2)"
    by (simp add: solverLoop.simps[of _ "Suc (Suc 0)"] 2 errorTol_def)
  finally show ?thesis .
qed

lemma ex_finish:
  "finishSolver exEngine exS2 = (0, [1, 1], [1, 0, 1], exTarget\<lparr>markers := exMarkers (1, 1, 0)\<rparr>)"
  by (simp add: finishSolver_def exS2_def ex_defs applyParameters_def infoAt_def upt_rec
      squaredError_def reportErrors_def debug_def Let_def)

lemma ex_solved:
  "iterativeOptimization exEngine exGuess exModel exTarget =
     Some (0, [1, 1], [1, 0, 1], exTarget\<lparr>markers := exMarkers (1, 1, 0)\<rparr>)"
  by (simp add: iterativeOptimization_def ex_initial ex_loop ex_finish)

subsection \<open>What the steps of the solver keep of a state\<close>

lemma evaluateDError_fields:
  "results (evaluateDError e x st) = results st"
  "J (evaluateDError e x st) = J st"
  "dQ (evaluateDError e x st) = dQ st"
  "rank (evaluateDError e x st) = rank st"
  "previousDErrorNorm (evaluateDError e x st) = previousDErrorNorm st"
  "currentDErrorNorm (evaluateDError e x st) = currentDErrorNorm st"
  "tempDErrorNorm (evaluateDError e x st) = tempDErrorNorm st"
  "deltaDErrorNorm (evaluateDError e x st) = deltaDErrorNorm st"
  by (simp_all add: evaluateDError_def Let_def split: prod.splits)

lemma halveStep_norms:
  "tempDErrorNorm (halveStep e st) = norm_col (dError (halveStep e st))"
  "previousDErrorNorm (halveStep e st) = previousDErrorNorm st"
  by (simp_all add: halveStep_def Let_def evaluateDError_fields)

lemma solveStep_norms:
  "tempDErrorNorm (solveStep e st) = norm_col (dError (solveStep e st))"
  "previousDErrorNorm (solveStep e st) = currentDErrorNorm st"
  by (simp_all add: solveStep_def Let_def evaluateDError_fields split: prod.splits)

lemmas backtrack_induct = backtrack.raw_induct[rotated 1, consumes 1, case_names step]

subsection \<open>What an evaluation and the solver leave as it is\<close>

lemma evaluateDError_target:
  "target (evaluateDError e x st) =
     (target st)\<lparr>markers :=
        map (evaluatedMarker e (applyParameters e (target st) x (model st))) (markers (target st))\<rparr>"
proof -
  obtain ms dE where r: "residualMarkers e (applyParameters e (target st) x (model st)) 0
      (markers (target st)) [] (dError st) = (ms, dE)"
    by (cases "residualMarkers e (applyParameters e (target st) x (model st)) 0
      (markers (target st)) [] (dError st)")
  have "ms = map (evaluatedMarker e (applyParameters e (target st) x (model st))) (markers (target st))"
    using residualMarkers_fst[of e "applyParameters e (target st) x (model st)" 0
      "markers (target st)" "[]" "dError st"] by (simp add: r)
  then show ?thesis
    by (simp add: evaluateDError_def Let_def r)
qed

lemma evaluateDError_model:
  "model (evaluateDError e x st) = applyParameters e (target st) x (model st)"
  by (simp add: evaluateDError_def Let_def split: prod.splits)

lemma frame_evaluateDError: "frame (target st) (target (evaluateDError e x st))"
  by (simp add: evaluateDError_target frame_markers)

lemma frame_halveStep: "frame (target st) (target (halveStep e st))"
  using frame_evaluateDError[of "st\<lparr>dQ := map (\<lambda>v. v * (1 / 2)) (dQ st)\<rparr>" e]
  by (simp add: halveStep_def Let_def)

lemma frame_solveStep: "frame (target st) (target (solveStep e st))"
proof -
  obtain m' J' where j: "createJacobian e (target st) (results st) (model st) (J st) = (m', J')"
    by (cases "createJacobian e (target st) (results st) (model st) (J st)")
  obtain v rk where d: "dgelsy e (residualSize (target st)) (numParameters (target st)) J' (dError st) rcond = (v, rk)"
    by (cases "dgelsy e (residualSize (target st)) (numParameters (target st)) J' (dError st) rcond")
  show ?thesis
    using frame_evaluateDError[of "st\<lparr>previousDErrorNorm := currentDErrorNorm st, model := m',
        J := J', dQ := take (numParameters (target st)) v, rank := rk\<rparr>" e]
    by (simp add: solveStep_def Let_def j d)
qed

lemma frame_acceptStep: "target (acceptStep st) = target st"
  by (simp add: acceptStep_def)

lemma frame_backtrack:
  assumes "backtrack e st = Some st'"
  shows "frame (target st) (target st')"
  using assms
proof (induct rule: backtrack_induct)
  case (step bt e st st')
  show ?case
  proof (cases "tempDErrorNorm st > previousDErrorNorm st")
    case True
    with step(2) have "bt e (halveStep e st) = Some st'" by simp
    from step(1)[OF this] show ?thesis
      using frame_trans[OF frame_halveStep] by blast
  next
    case False
    with step(2) show ?thesis by (simp add: frame_refl)
  qed
qed

lemma frame_outerBody:
  assumes "outerBody e st = Some st'"
  shows "frame (target st) (target st')"
proof -
  let ?s = "solveStep e st"
  obtain st5 where b: "(if tempDErrorNorm ?s > previousDErrorNorm ?s then backtrack e ?s else Some ?s) = Some st5"
    and a: "st' = acceptStep st5"
    using assms by (auto simp: outerBody_def Let_def split: option.splits)
  have "frame (target ?s) (target st5)"
    using b frame_backtrack by (auto split: if_splits simp: frame_refl)
  then show ?thesis
    using frame_trans[OF frame_solveStep[of st e]] by (simp add: a frame_acceptStep)
qed

lemma frame_solverLoop:
  "solverLoop e iter st = Some (iter', st') \<Longrightarrow> frame (target st) (target st')"
proof (induction e iter st rule: solverLoop.induct)
  case (1 e iter st)
  show ?case
  proof (cases "deltaDErrorNorm st > errorTol \<and> iter < maxIter")
    case True
    then obtain st1 where o: "outerBody e st = Some st1"
      and l: "solverLoop e (iter + 1) st1 = Some (iter', st')"
      using "1.prems" by (subst (asm) solverLoop.simps) (auto split: option.splits)
    from frame_trans[OF frame_outerBody[OF o] "1.IH"[OF True o l]] show ?thesis .
  next
    case False
    then show ?thesis
      using "1.prems" by (subst (asm) solverLoop.simps) (auto simp: frame_refl)
  qed
qed

lemma frame_reportErrors: "frame t (reportErrors e m a b c d t)"
  by (simp add: reportErrors_def setErrorReportingQuantities_def frame_def fixedPart_def
      list_all2_refl markerKept_refl)

lemma frame_initialSolver: "frame t (target (initialSolver e rs m t))"
  by (simp add: initialSolver_def Let_def evaluateDError_target frame_markers)

lemma frame_finishSolver:
  "finishSolver e st = (status, rs, m', t') \<Longrightarrow> frame (target st) t'"
  by (auto simp: finishSolver_def Let_def frame_reportErrors split: prod.splits)

lemma frame_iterativeOptimization:
  assumes "iterativeOptimization e rs m t = Some (status, rs', m', t')"
  shows "frame t t'"
proof -
  obtain iter st where l: "solverLoop e 0 (initialSolver e rs m t) = Some (iter, st)"
    and f: "finishSolver e st = (status, rs', m', t')"
    using assms by (auto simp: iterativeOptimization_def split: option.splits)
  show ?thesis
    using frame_trans[OF frame_initialSolver[of t e rs m]
        frame_trans[OF frame_solverLoop[OF l] frame_finishSolver[OF f]]] .
qed

lemma frame_objectiveFunc:
  assumes "objectiveFunc e x m t = Inr (status, f, m', t')"
  shows "frame t t'"
proof -
  let ?m = "applyParameters e t x m"
  have 1: "frame t (t\<lparr>markers := map (evaluatedMarker e ?m) (markers t)\<rparr>)"
    by (rule frame_markers)
  obtain a b c d
    where 2: "t' = reportErrors e ?m a b c d (t\<lparr>markers := map (evaluatedMarker e ?m) (markers t)\<rparr>)"
  proof -
    obtain ms tw tm mx w where o: "objectiveMarkers e ?m 0 (markers t) [] (0, 0, 0, -1) = (ms, tw, tm, mx, w)"
      by (metis prod_cases5)
    have ms: "ms = map (evaluatedMarker e ?m) (markers t)"
      using objectiveMarkers_fst[of e ?m 0 "markers t" "[]" "(0, 0, 0, -1)"] by (simp add: o)
    show ?thesis
      using assms that
      by (auto simp: objectiveFunc_def Let_def o ms split: if_splits prod.splits)
  qed
  show ?thesis
    unfolding 2 by (rule frame_trans[OF 1 frame_reportErrors])
qed

subsection \<open>The reported marker locations\<close>

lemma fold_append_locations:
  "fold (\<lambda>mk acc. acc @ f mk) ms acc = acc @ concat (map f ms)"
  by (induction ms arbitrary: acc) simp_all

lemma getComputedMarkerLocations_concat:
  "getComputedMarkerLocations t =
     concat (map (\<lambda>mk. case computedPosition mk of (c0, c1, c2) \<Rightarrow> [c0, c1, c2]) (markers t))"
  by (simp add: getComputedMarkerLocations_def fold_append_locations)

lemma length_concat_triples:
  "(\<And>x. length (f x) = 3) \<Longrightarrow> length (concat (map f xs)) = 3 * length xs"
  by (induction xs) simp_all

lemma nth_concat_triples:
  "(\<And>x. length (f x) = 3) \<Longrightarrow> k < length xs \<Longrightarrow> r < 3 \<Longrightarrow>
   concat (map f xs) ! (3 * k + r) = f (xs ! k) ! r"
proof (induction xs arbitrary: k)
  case Nil
  then show ?case by simp
next
  case (Cons x xs)
  show ?case
  proof (cases k)
    case 0
    with Cons.prems show ?thesis by (simp add: nth_append)
  next
    case (Suc j)
    with Cons.prems have "concat (map f xs) ! (3 * j + r) = f (xs ! j) ! r"
      by (intro Cons.IH) simp_all
    with Suc Cons.prems(1) show ?thesis by (simp add: nth_append)
  qed
qed

lemma triple_nth:
  "r < 3 \<Longrightarrow> (case v of (c0, c1, c2) \<Rightarrow> [c0, c1, c2]) ! r = component v r"
  by (cases v) (auto simp: nth_Cons' less_Suc_eq numeral_3_eq_3)

lemma getComputedMarkerLocations_nth:
  assumes "k < length (markers t)" and "r < 3"
  shows "getComputedMarkerLocations t ! (3 * k + r) = component (computedPosition (markers t ! k)) r"
proof -
  have "getComputedMarkerLocations t ! (3 * k + r) =
      (case computedPosition (markers t ! k) of (c0, c1, c2) \<Rightarrow> [c0, c1, c2]) ! r"
    unfolding getComputedMarkerLocations_concat
    by (rule nth_concat_triples) (use assms in \<open>auto split: prod.splits\<close>)
  then show ?thesis by (simp add: triple_nth assms)
qed

lemma length_getComputedMarkerLocations:
  "length (getComputedMarkerLocations t) = 3 * length (markers t)"
  unfolding getComputedMarkerLocations_concat
  by (rule length_concat_triples) (auto split: prod.splits)

lemma frame_invalid:
  assumes "frame t t'" and "k < length (markers t)"
    and "\<not> validExperimentalPosition (markers t ! k)"
  shows "length (markers t') = length (markers t)" and "markers t' ! k = markers t ! k"
proof -
  have l: "list_all2 markerKept (markers t) (markers t')"
    using assms(1) by (simp add: frame_def)
  show "length (markers t') = length (markers t)"
    using l by (simp add: list_all2_lengthD)
  have "markerKept (markers t ! k) (markers t' ! k)"
    using l assms(2) by (rule list_all2_nthD)
  then show "markers t' ! k = markers t ! k"
    using assms(3) by (simp add: markerKept_def)
qed

text \<open>
  C10. A marker whose experimental position is not valid keeps its computed position
  through an objective evaluation and through a run of the iterative solver, and
  \<^verbatim>\<open>getComputedMarkerLocations\<close> returns three numbers for every marker, which for such
  a marker are the components of that old position.
\<close>

theorem stale_computed_position_reported:
  assumes "objectiveFunc e x m t = Inr (status, f, m', t') \<or>
           iterativeOptimization e x m t = Some (status, x', m', t')"
    and "k < length (markers t)"
    and "\<not> validExperimentalPosition (markers t ! k)"
  shows "computedPosition (markers t' ! k) = computedPosition (markers t ! k) \<and>
         length (getComputedMarkerLocations t') = 3 * length (markers t) \<and>
         (\<forall>r < 3. getComputedMarkerLocations t' ! (3 * k + r) =
                    component (computedPosition (markers t ! k)) r)"
proof -
  have f: "frame t t'"
    using assms(1)
  proof
    assume "objectiveFunc e x m t = Inr (status, f, m', t')"
    then show ?thesis by (rule frame_objectiveFunc)
  next
    assume "iterativeOptimization e x m t = Some (status, x', m', t')"
    then show ?thesis by (rule frame_iterativeOptimization)
  qed
  note i = frame_invalid[OF f assms(2,3)]
  have "k < length (markers t')" using i(1) assms(2) by simp
  then show ?thesis
    using i by (simp add: getComputedMarkerLocations_nth length_getComputedMarkerLocations)
qed

lemma ex_objective:
  "objectiveFunc exEngine [1, 1] exModel exTarget =
     Inr (0, 0, [1, 0, 1], exTarget\<lparr>markers := exMarkers (1, 1, 0)\<rparr>)"
  by (simp add: objectiveFunc_def ex_defs applyParameters_def infoAt_def upt_rec
      squaredError_def reportErrors_def debug_def Let_def)

theorem stale_computed_position_reported_witness:
  "iterativeOptimization exEngine exGuess exModel exTarget =
     Some (0, [1, 1], [1, 0, 1], exTarget\<lparr>markers := exMarkers (1, 1, 0)\<rparr>) \<and>
   \<not> validExperimentalPosition (markers exTarget ! 1) \<and>
   computedPosition (markers (exTarget\<lparr>markers := exMarkers (1, 1, 0)\<rparr>) ! 1) = (7, 7, 7) \<and>
   getComputedMarkerLocations (exTarget\<lparr>markers := exMarkers (1, 1, 0)\<rparr>) = [1, 1, 0, 7, 7, 7]"
proof -
  have v: "1 < length (markers exTarget)" "\<not> validExperimentalPosition (markers exTarget ! 1)"
    by (simp_all add: exTarget_def)
  have "computedPosition (markers (exTarget\<lparr>markers := exMarkers (1, 1, 0)\<rparr>) ! 1) =
      computedPosition (markers exTarget ! 1)"
    using stale_computed_position_reported[OF disjI2[OF ex_solved] v] by blast
  then show ?thesis
    using ex_solved v by (simp add: exTarget_def getComputedMarkerLocations_def exMarkers_def)
qed

subsection \<open>The value of the objective\<close>

lemma objectiveMarkers_total:
  "fst (snd (objectiveMarkers e m i ms done acc)) =
     fst acc + (\<Sum>mk\<leftarrow>filter validExperimentalPosition ms.
                  markerWeight mk * squaredError (experimentalPosition mk) (worldPosition e m mk))"
proof (induction ms arbitrary: i "done" acc)
  case Nil
  then show ?case by simp
next
  case (Cons mk ms)
  obtain tw tm mx w where acc: "acc = (tw, tm, mx, w)" by (cases acc) auto
  show ?case
    by (simp add: Cons.IH acc Let_def worldPosition_def algebra_simps)
qed

lemma objectiveCoordinates_total:
  "fst (objectiveCoordinates e m t i ps acc) =
     fst acc + (\<Sum>p\<leftarrow>ps. weight (infoAt t p) *
                  (experimentalValue (infoAt t p) - getValue e m (coord (infoAt t p)))\<^sup>2)"
proof (induction ps arbitrary: i acc)
  case Nil
  then show ?case by simp
next
  case (Cons p ps)
  obtain tw tm mx w where acc: "acc = (tw, tm, mx, w)" by (cases acc) auto
  show ?case
    by (simp add: Cons.IH acc Let_def power2_eq_square algebra_simps)
qed

lemma squaredError_components:
  "squaredError ex co =
     (component ex 0 - component co 0)\<^sup>2 + (component ex 1 - component co 1)\<^sup>2 +
     (component ex 2 - component co 2)\<^sup>2"
  by (cases ex, cases co) (simp add: squaredError_def power2_eq_square)

lemma evaluated_sum:
  "(\<Sum>mk\<leftarrow>filter validExperimentalPosition (map (evaluatedMarker e m) ms).
      markerWeight mk * squaredError (experimentalPosition mk) (computedPosition mk)) =
   (\<Sum>mk\<leftarrow>filter validExperimentalPosition ms.
      markerWeight mk * squaredError (experimentalPosition mk) (worldPosition e m mk))"
  by (induction ms) (simp_all add: evaluatedMarker_def)

lemma infoAt_markers [simp]: "infoAt (t\<lparr>markers := ms\<rparr>) p = infoAt t p"
  by (simp add: infoAt_def)

text \<open>
  C3. For a parameter vector \<open>x\<close>, and with the cancellation flag clear,
  \<^verbatim>\<open>objectiveFunc\<close> returns the status 0 and the objective
  \<open>f = \<Sum> weight * squared error\<close>, the first sum over the markers with a valid
  experimental position, the error taken componentwise between the experimental
  position and the world position in the model to which \<open>x\<close> has been applied (which
  is what the call stores as computed position), the second sum over the weighted
  unprescribed coordinates, the error taken between the experimental value and the
  value of the coordinate in that model. A marker without a valid experimental
  position has no term.
\<close>

theorem objective_is_weighted_squared_error:
  assumes "\<not> interrupted t" and "length x = numParameters t"
  shows "\<exists>t'. objectiveFunc e x m t =
           Inr (0,
                (\<Sum>mk\<leftarrow>filter validExperimentalPosition (markers t').
                   markerWeight mk *
                     ((component (experimentalPosition mk) 0 - component (computedPosition mk) 0)\<^sup>2 +
                      (component (experimentalPosition mk) 1 - component (computedPosition mk) 1)\<^sup>2 +
                      (component (experimentalPosition mk) 2 - component (computedPosition mk) 2)\<^sup>2)) +
                (\<Sum>p\<leftarrow>unprescribedWeightedQs t.
                   weight (infoAt t p) *
                     (experimentalValue (infoAt t p) -
                      getValue e (applyParameters e t x m) (coord (infoAt t p)))\<^sup>2),
                applyParameters e t x m, t') \<and>
         markers t' = map (evaluatedMarker e (applyParameters e t x m)) (markers t)"
proof -
  let ?m = "applyParameters e t x m"
  let ?ms = "map (evaluatedMarker e ?m) (markers t)"
  obtain ms tw tm mx w where o: "objectiveMarkers e ?m 0 (markers t) [] (0, 0, 0, -1) = (ms, tw, tm, mx, w)"
    by (metis prod_cases5)
  have ms: "ms = ?ms"
    using objectiveMarkers_fst[of e ?m 0 "markers t" "[]" "(0, 0, 0, -1)"] by (simp add: o)
  have tw: "tw = (\<Sum>mk\<leftarrow>filter validExperimentalPosition (markers t).
                  markerWeight mk * squaredError (experimentalPosition mk) (worldPosition e ?m mk))"
    using objectiveMarkers_total[of e ?m 0 "markers t" "[]" "(0, 0, 0, -1)"] by (simp add: o)
  have s: "(\<Sum>mk\<leftarrow>filter validExperimentalPosition ?ms.
              markerWeight mk * squaredError (experimentalPosition mk) (computedPosition mk)) = tw"
    unfolding tw by (rule evaluated_sum)
  obtain tw' tc mc wc where c: "objectiveCoordinates e ?m (t\<lparr>markers := ?ms\<rparr>) 0
      (unprescribedWeightedQs t) (tw, 0, 0, -1) = (tw', tc, mc, wc)"
    by (metis prod_cases4)
  have tw': "tw' = tw + (\<Sum>p\<leftarrow>unprescribedWeightedQs t. weight (infoAt t p) *
                  (experimentalValue (infoAt t p) - getValue e ?m (coord (infoAt t p)))\<^sup>2)"
    using objectiveCoordinates_total[of e ?m "t\<lparr>markers := ?ms\<rparr>" 0 "unprescribedWeightedQs t"
        "(tw, 0, 0, -1)"] by (simp add: c)
  have r: "markers (reportErrors e ?m mx w mc wc (t\<lparr>markers := ?ms\<rparr>)) = ?ms"
    by (simp add: reportErrors_def setErrorReportingQuantities_def)
  have "objectiveFunc e x m t = Inr (0, tw', ?m, reportErrors e ?m mx w mc wc (t\<lparr>markers := ?ms\<rparr>))"
    using assms(1) by (simp add: objectiveFunc_def Let_def o ms c)
  then show ?thesis
    using r s[unfolded squaredError_components] tw' by simp
qed

theorem objective_is_weighted_squared_error_witness:
  "\<not> interrupted exTarget \<and> length [1, 0 :: real] = numParameters exTarget \<and>
   (\<exists>t'. objectiveFunc exEngine [1, 0] exModel exTarget = Inr (0, 1, [1, 0, 0], t') \<and>
         markers t' = exMarkers (1, 0, 0))"
proof -
  have h: "\<not> interrupted exTarget" "length [1, 0 :: real] = numParameters exTarget"
    by (simp_all add: exTarget_def exNew_def)
  have m: "applyParameters exEngine exTarget [1, 0] exModel = [1, 0, 0]"
    by (simp add: ex_defs applyParameters_def infoAt_def upt_rec)
  have e: "map (evaluatedMarker exEngine [1, 0, 0]) (markers exTarget) = exMarkers (1, 0, 0)"
    by (simp add: ex_defs evaluatedMarker_def worldPosition_def)
  obtain t' where t': "objectiveFunc exEngine [1, 0] exModel exTarget =
      Inr (0,
        (\<Sum>mk\<leftarrow>filter validExperimentalPosition (markers t').
           markerWeight mk *
             ((component (experimentalPosition mk) 0 - component (computedPosition mk) 0)\<^sup>2 +
              (component (experimentalPosition mk) 1 - component (computedPosition mk) 1)\<^sup>2 +
              (component (experimentalPosition mk) 2 - component (computedPosition mk) 2)\<^sup>2)) +
        (\<Sum>p\<leftarrow>unprescribedWeightedQs exTarget.
           weight (infoAt exTarget p) *
             (experimentalValue (infoAt exTarget p) -
              getValue exEngine [1, 0, 0] (coord (infoAt exTarget p)))\<^sup>2),
        [1, 0, 0], t')"
    and ms: "markers t' = exMarkers (1, 0, 0)"
    using objective_is_weighted_squared_error[OF h, of exEngine exModel] unfolding m e by blast
  have "objectiveFunc exEngine [1, 0] exModel exTarget = Inr (0, 1, [1, 0, 0], t')"
    unfolding t' ms by (simp add: ex_defs infoAt_def)
  then show ?thesis using h ms by blast
qed

subsection \<open>The rows of the residual vector\<close>

lemma residualMarkers_length:
  "length (snd (residualMarkers e m i ms done dE)) = length dE"
  by (induction ms arbitrary: i "done" dE) (simp_all add: Let_def split: prod.splits)

lemma residualMarkers_outside:
  "j < 3 * i \<or> 3 * (i + length ms) \<le> j \<Longrightarrow>
   snd (residualMarkers e m i ms done dE) ! j = dE ! j"
proof (induction ms arbitrary: i "done" dE)
  case Nil
  then show ?case by simp
next
  case (Cons mk ms)
  have j: "j < 3 * (i + 1) \<or> 3 * (i + 1 + length ms) \<le> j"
    using Cons.prems by auto
  have n: "j \<noteq> i * 3" "j \<noteq> Suc (i * 3)" "j \<noteq> Suc (Suc (i * 3))"
    using Cons.prems by auto
  show ?case
    using Cons.IH[OF j] n by (simp add: Let_def split: prod.splits)
qed

lemma residualMarkers_inside_aux:
  "3 * (i + length ms) \<le> length dE \<Longrightarrow> k < length ms \<Longrightarrow> r < 3 \<Longrightarrow> j = 3 * (i + k) + r \<Longrightarrow>
   snd (residualMarkers e m i ms done dE) ! j =
     (if validExperimentalPosition (ms ! k) then markerRow e m (ms ! k) r else dE ! j)"
proof (induction ms arbitrary: i k "done" dE)
  case Nil
  then show ?case by simp
next
  case (Cons mk ms)
  obtain e0 e1 e2 where ex: "experimentalPosition mk = (e0, e1, e2)"
    by (cases "experimentalPosition mk")
  obtain c0 c1 c2 where co: "transformPosition e m (body mk) (getOffset e m (marker mk)) = (c0, c1, c2)"
    by (cases "transformPosition e m (body mk) (getOffset e m (marker mk))")
  show ?case
  proof (cases k)
    case 0
    have o: "\<And>d D. snd (residualMarkers e m (Suc i) ms d D) ! j = D ! j"
      by (rule residualMarkers_outside) (use Cons.prems 0 in simp)
    have r: "j = i * 3 \<or> j = Suc (i * 3) \<or> j = Suc (Suc (i * 3))"
      using Cons.prems(3,4) 0 by auto
    have l: "Suc (Suc (i * 3)) < length dE" using Cons.prems(1) by simp
    have c: "r = (if j = i * 3 then 0 else if j = Suc (i * 3) then 1 else 2)"
      using Cons.prems(3,4) 0 by auto
    show ?thesis
      using r l
      by (auto simp: 0 Let_def ex co o c markerRow_def worldPosition_def)
  next
    case (Suc k')
    have p: "3 * (i + 1 + length ms) \<le> length dE" "k' < length ms" "j = 3 * (i + 1 + k') + r"
      using Cons.prems Suc by auto
    have n: "j \<noteq> i * 3" "j \<noteq> Suc (i * 3)" "j \<noteq> Suc (Suc (i * 3))"
      using p(3) by auto
    have IH: "\<And>d D. length D = length dE \<Longrightarrow>
        snd (residualMarkers e m (i + 1) ms d D) ! j =
          (if validExperimentalPosition (ms ! k') then markerRow e m (ms ! k') r else D ! j)"
      using p(1) by (intro Cons.IH[OF _ p(2) Cons.prems(3) p(3)]) simp
    show ?thesis
    proof (cases "validExperimentalPosition mk")
      case True
      show ?thesis
        using n IH by (simp add: Suc True Let_def ex co)
    next
      case False
      then show ?thesis
        using IH by (simp add: Suc)
    qed
  qed
qed

lemma residualMarkers_inside:
  "3 * length ms \<le> length dE \<Longrightarrow> k < length ms \<Longrightarrow> r < 3 \<Longrightarrow>
   snd (residualMarkers e m 0 ms done dE) ! (3 * k + r) =
     (if validExperimentalPosition (ms ! k) then markerRow e m (ms ! k) r
      else dE ! (3 * k + r))"
  using residualMarkers_inside_aux[of 0 ms dE k r "3 * k + r" e m "done"] by simp

lemma residualCoordinateStep_simps:
  "residualCoordinateStep e m t i (row, dE) =
     (if weightedParameter t i
      then (row + 1, dE[row := coordinateRow e m t (unprescribedQs t ! i)])
      else (row, dE))"
  by (simp add: residualCoordinateStep_def weightedParameter_def coordinateRow_def Let_def)

lemma fold_residualCoordinateStep_fst:
  "fst (fold (residualCoordinateStep e m t) is (row, dE)) =
     row + length (filter (weightedParameter t) is)"
  by (induction "is" arbitrary: row dE) (simp_all add: residualCoordinateStep_simps)

lemma fold_residualCoordinateStep_length:
  "length (snd (fold (residualCoordinateStep e m t) is (row, dE))) = length dE"
  by (induction "is" arbitrary: row dE) (simp_all add: residualCoordinateStep_simps)

lemma fold_residualCoordinateStep_below:
  "j < row \<Longrightarrow> snd (fold (residualCoordinateStep e m t) is (row, dE)) ! j = dE ! j"
  by (induction "is" arbitrary: row dE) (simp_all add: residualCoordinateStep_simps)

lemma fold_residualCoordinateStep_at:
  "row + length (filter (weightedParameter t) is) \<le> length dE \<Longrightarrow>
   k < length (filter (weightedParameter t) is) \<Longrightarrow>
   snd (fold (residualCoordinateStep e m t) is (row, dE)) ! (row + k) =
     coordinateRow e m t (unprescribedQs t ! (filter (weightedParameter t) is ! k))"
proof (induction "is" arbitrary: row dE k)
  case Nil
  then show ?case by simp
next
  case (Cons i "is")
  show ?case
  proof (cases "weightedParameter t i")
    case True
    show ?thesis
    proof (cases k)
      case 0
      have "row < length dE" using Cons.prems True by simp
      then show ?thesis
        by (simp add: 0 True residualCoordinateStep_simps fold_residualCoordinateStep_below)
    next
      case (Suc k')
      have "snd (fold (residualCoordinateStep e m t) is
                  (row + 1, dE[row := coordinateRow e m t (unprescribedQs t ! i)])) ! (row + 1 + k') =
            coordinateRow e m t (unprescribedQs t ! (filter (weightedParameter t) is ! k'))"
        using Cons.prems True Suc by (intro Cons.IH) simp_all
      then show ?thesis
        by (simp add: Suc True residualCoordinateStep_simps)
    qed
  next
    case False
    then show ?thesis
      using Cons.IH[of row dE k] Cons.prems by (simp add: residualCoordinateStep_simps)
  qed
qed

lemma filter_nth_upt:
  "map ((!) xs) (filter (\<lambda>i. P (xs ! i)) [0..<length xs]) = filter P xs"
proof -
  have "filter P xs = filter P (map ((!) xs) [0..<length xs])"
    by (simp add: map_nth)
  also have "\<dots> = map ((!) xs) (filter (P \<circ> (!) xs) [0..<length xs])"
    by (rule filter_map)
  finally show ?thesis by (simp add: comp_def)
qed

lemma partitioned_weighted:
  assumes "partitioned t"
  shows "map ((!) (unprescribedQs t)) (filter (weightedParameter t) [0..<numParameters t]) =
         unprescribedWeightedQs t"
proof -
  have n: "numParameters t = length (unprescribedQs t)"
    and w: "unprescribedWeightedQs t = filter (\<lambda>p. weight (infos t ! p) \<noteq> 0) (unprescribedQs t)"
    using assms by (simp_all add: partitioned_def)
  show ?thesis
    unfolding n w
    using filter_nth_upt[of "unprescribedQs t" "\<lambda>p. weight (infos t ! p) \<noteq> 0"]
    by (simp add: weightedParameter_def[abs_def] infoAt_def)
qed

lemma residualCoordinates_rows:
  assumes "partitioned t" and "length dE = residualSize t"
  shows "length (residualCoordinates e m t dE) = residualSize t"
    and "j < 3 * length (markers t) \<Longrightarrow> residualCoordinates e m t dE ! j = dE ! j"
    and "k < length (unprescribedWeightedQs t) \<Longrightarrow>
         residualCoordinates e m t dE ! (3 * length (markers t) + k) =
           coordinateRow e m t (unprescribedWeightedQs t ! k)"
proof -
  let ?is = "filter (weightedParameter t) [0..<numParameters t]"
  have w: "map ((!) (unprescribedQs t)) ?is = unprescribedWeightedQs t"
    by (rule partitioned_weighted[OF assms(1)])
  then have l: "length ?is = length (unprescribedWeightedQs t)"
    by (metis length_map)
  show "length (residualCoordinates e m t dE) = residualSize t"
    by (simp add: residualCoordinates_def fold_residualCoordinateStep_length assms(2))
  show "j < 3 * length (markers t) \<Longrightarrow> residualCoordinates e m t dE ! j = dE ! j"
    by (simp add: residualCoordinates_def fold_residualCoordinateStep_below)
  show "residualCoordinates e m t dE ! (3 * length (markers t) + k) =
           coordinateRow e m t (unprescribedWeightedQs t ! k)"
    if k: "k < length (unprescribedWeightedQs t)"
  proof -
    have "residualCoordinates e m t dE ! (3 * length (markers t) + k) =
        coordinateRow e m t (unprescribedQs t ! (?is ! k))"
      unfolding residualCoordinates_def
      by (rule fold_residualCoordinateStep_at) (use k l assms(2) in \<open>simp_all add: residualSize_def\<close>)
    also have "unprescribedQs t ! (?is ! k) = map ((!) (unprescribedQs t)) ?is ! k"
      using k l by simp
    finally show ?thesis by (simp add: w)
  qed
qed

lemma partitioned_fixedPart:
  assumes "fixedPart t' = fixedPart t"
  shows "partitioned t' = partitioned t"
  unfolding partitioned_def fixedPart_fields[OF assms] ..

lemma partitioned_frame: "frame t t' \<Longrightarrow> partitioned t \<Longrightarrow> partitioned t'"
  using partitioned_fixedPart[of t' t] by (simp add: frame_def)

lemma evaluatedMarker_row:
  "validExperimentalPosition mk \<Longrightarrow>
   sqrt (markerWeight (evaluatedMarker e m mk)) *
     (component (experimentalPosition (evaluatedMarker e m mk)) r -
      component (computedPosition (evaluatedMarker e m mk)) r) = markerRow e m mk r"
  by (simp add: evaluatedMarker_def markerRow_def)

lemma evaluatedMarker_valid [simp]:
  "validExperimentalPosition (evaluatedMarker e m mk) = validExperimentalPosition mk"
  by (simp add: evaluatedMarker_def)

lemma evaluateDError_dError:
  "dError (evaluateDError e x st) =
     (let m1 = applyParameters e (target st) x (model st)
      in residualCoordinates e m1
           ((target st)\<lparr>markers := map (evaluatedMarker e m1) (markers (target st))\<rparr>)
           (snd (residualMarkers e m1 0 (markers (target st)) [] (dError st))))"
proof -
  obtain ms dE where r: "residualMarkers e (applyParameters e (target st) x (model st)) 0
      (markers (target st)) [] (dError st) = (ms, dE)"
    by (cases "residualMarkers e (applyParameters e (target st) x (model st)) 0
      (markers (target st)) [] (dError st)")
  have "ms = map (evaluatedMarker e (applyParameters e (target st) x (model st))) (markers (target st))"
    using residualMarkers_fst[of e "applyParameters e (target st) x (model st)" 0
      "markers (target st)" "[]" "dError st"] by (simp add: r)
  then show ?thesis
    by (simp add: evaluateDError_def Let_def r)
qed

lemma evaluateDError_residualOf:
  assumes p: "partitioned (target st)"
    and l: "length (dError st) = residualSize (target st)"
    and z: "\<forall>k < length (markers (target st)).
              \<not> validExperimentalPosition (markers (target st) ! k) \<longrightarrow>
              (\<forall>r < 3. dError st ! (3 * k + r) = 0)"
  shows "residualOf e (evaluateDError e x st)"
proof -
  let ?t = "target st"
  let ?m = "applyParameters e ?t x (model st)"
  let ?ms = "map (evaluatedMarker e ?m) (markers ?t)"
  let ?t1 = "?t\<lparr>markers := ?ms\<rparr>"
  let ?dE = "snd (residualMarkers e ?m 0 (markers ?t) [] (dError st))"
  have p1: "partitioned ?t1" using p by (simp add: partitioned_def)
  have l1: "length ?dE = residualSize ?t1"
    by (simp add: residualMarkers_length l residualSize_def)
  note rows = residualCoordinates_rows[OF p1 l1, where e = e and m = ?m]
  have d: "dError (evaluateDError e x st) = residualCoordinates e ?m ?t1 ?dE"
    by (simp add: evaluateDError_dError Let_def)
  have markerRows: "dError (evaluateDError e x st) ! (3 * k + r) =
      (if validExperimentalPosition (?ms ! k)
       then sqrt (markerWeight (?ms ! k)) *
              (component (experimentalPosition (?ms ! k)) r - component (computedPosition (?ms ! k)) r)
       else 0)" if k: "k < length (markers ?t)" and r: "r < 3" for k r
  proof -
    have "3 * k + r < 3 * length (markers ?t1)" using k r by simp
    then have "dError (evaluateDError e x st) ! (3 * k + r) = ?dE ! (3 * k + r)"
      unfolding d by (rule rows(2))
    also have "\<dots> = (if validExperimentalPosition (markers ?t ! k)
        then markerRow e ?m (markers ?t ! k) r else dError st ! (3 * k + r))"
      by (rule residualMarkers_inside) (use k r l in \<open>simp_all add: residualSize_def\<close>)
    finally show ?thesis
      using k r z by (simp add: evaluatedMarker_row)
  qed
  have coordinateRows: "dError (evaluateDError e x st) ! (3 * length (markers ?t) + k) =
      sqrt (weight (infoAt ?t (unprescribedWeightedQs ?t ! k))) *
        (experimentalValue (infoAt ?t (unprescribedWeightedQs ?t ! k)) -
         getValue e ?m (coord (infoAt ?t (unprescribedWeightedQs ?t ! k))))"
    if k: "k < length (unprescribedWeightedQs ?t)" for k
    using rows(3)[of k] k by (simp add: d coordinateRow_def)
  show ?thesis
    unfolding residualOf_def Let_def evaluateDError_target evaluateDError_model
    using markerRows coordinateRows rows(1)
    by (simp add: d residualSize_def)
qed

lemma residualOf_zero_rows:
  assumes "residualOf e st"
  shows "length (dError st) = residualSize (target st)"
    and "\<forall>k < length (markers (target st)).
           \<not> validExperimentalPosition (markers (target st) ! k) \<longrightarrow>
           (\<forall>r < 3. dError st ! (3 * k + r) = 0)"
  using assms by (simp_all add: residualOf_def Let_def residualSize_def)

subsection \<open>Construction and the life of an object\<close>

lemma map_update_same:
  "f y = f (xs ! k) \<Longrightarrow> map f (xs[k := y]) = map f xs"
  by (cases "k < length xs") (simp_all add: map_update list_update_same_conv list_update_beyond)

lemma applyCoordinateTasks_prescribed:
  "applyCoordinateTasks e m aNameArray ts allCoordinates = Inr allCoordinates' \<Longrightarrow>
   map prescribed allCoordinates' = map prescribed allCoordinates"
proof (induction e m aNameArray ts allCoordinates rule: applyCoordinateTasks.induct)
  case (1 e m aNameArray allCoordinates)
  then show ?case by simp
next
  case (2 e m aNameArray n a w ts allCoordinates)
  then show ?case by simp
next
  case (3 e m aNameArray coordName a w vt v ts allCoordinates)
  then show ?case
    by (auto simp: Let_def map_update_same split: if_splits)
qed

lemma fold_filterStep:
  "fold (filterStep allCoordinates) is (p, un, uw) =
     (p @ filter (\<lambda>i. prescribed (allCoordinates ! i)) is,
      un @ filter (\<lambda>i. \<not> prescribed (allCoordinates ! i)) is,
      uw @ filter (\<lambda>i. weight (allCoordinates ! i) \<noteq> 0)
             (filter (\<lambda>i. \<not> prescribed (allCoordinates ! i)) is))"
  by (induction "is" arbitrary: p un uw) (auto simp: filterStep_def)

lemma filterCoordinates_eq:
  "filterCoordinates allCoordinates =
     (filter (\<lambda>i. prescribed (allCoordinates ! i)) [0..<length allCoordinates],
      filter (\<lambda>i. \<not> prescribed (allCoordinates ! i)) [0..<length allCoordinates],
      filter (\<lambda>i. weight (allCoordinates ! i) \<noteq> 0)
        (filter (\<lambda>i. \<not> prescribed (allCoordinates ! i)) [0..<length allCoordinates]))"
  by (simp add: filterCoordinates_def fold_filterStep)

lemma newIKTarget_infos:
  assumes "newIKTarget e m rawMarker rawInfo u tasks labels = Inr t"
  shows "map prescribed (infos t) =
           map (\<lambda>i. getLocked e m i \<or> isConstrained e m i) [0..<coordinateSetSize e m]"
    and "partitioned t"
proof -
  obtain ms where "buildMarkerMap e m rawMarker labels tasks [] = Inr ms"
    using assms by (auto simp: newIKTarget_def split: sum.splits)
  obtain allC where a: "applyCoordinateTasks e m labels tasks (allCoordinatesInit e m rawInfo) = Inr allC"
    using assms by (auto simp: newIKTarget_def buildCoordinateMap_def split: sum.splits)
  have t: "infos t = allC" "prescribedQs t = fst (filterCoordinates allC)"
    "unprescribedQs t = fst (snd (filterCoordinates allC))"
    "unprescribedWeightedQs t = snd (snd (filterCoordinates allC))"
    "numParameters t = length (unprescribedQs t)"
    "dx t = replicate (numParameters t) perturbation"
    using assms a by (auto simp: newIKTarget_def buildCoordinateMap_def split: sum.splits prod.splits)
  show "map prescribed (infos t) =
           map (\<lambda>i. getLocked e m i \<or> isConstrained e m i) [0..<coordinateSetSize e m]"
    using applyCoordinateTasks_prescribed[OF a]
    by (simp add: t(1) allCoordinatesInit_def initialInfo_def comp_def)
  have f: "prescribedQs t = filter (\<lambda>i. prescribed (allC ! i)) [0..<length allC]"
    "unprescribedQs t = filter (\<lambda>i. \<not> prescribed (allC ! i)) [0..<length allC]"
    "unprescribedWeightedQs t = filter (\<lambda>i. weight (allC ! i) \<noteq> 0) (unprescribedQs t)"
    by (simp_all add: t(2-4) filterCoordinates_eq)
  show "partitioned t"
    unfolding partitioned_def t(1) using f t(5,6) by simp
qed

lemma sameCoordinates_refl: "sameCoordinates t t"
  by (simp add: sameCoordinates_def)

lemma sameCoordinates_trans:
  "sameCoordinates a b \<Longrightarrow> sameCoordinates b c \<Longrightarrow> sameCoordinates a c"
  by (simp add: sameCoordinates_def)

lemma sameCoordinates_frame:
  assumes "frame t t'"
  shows "sameCoordinates t t'"
proof -
  have "fixedPart t' = fixedPart t" using assms by (simp add: frame_def)
  from fixedPart_fields[OF this] show ?thesis by (simp add: sameCoordinates_def)
qed

lemma sameCoordinates_nth:
  assumes "sameCoordinates t t'"
  shows "length (infos t') = length (infos t)"
    and "i < length (infos t) \<Longrightarrow> weight (infos t' ! i) = weight (infos t ! i)"
    and "i < length (infos t) \<Longrightarrow> prescribed (infos t' ! i) = prescribed (infos t ! i)"
proof -
  let ?f = "\<lambda>c::coordinateInfo. c\<lparr>experimentalValue := 0\<rparr>"
  have e: "map ?f (infos t') = map ?f (infos t)"
    using assms by (simp add: sameCoordinates_def)
  then show l: "length (infos t') = length (infos t)"
    by (metis length_map)
  assume i: "i < length (infos t)"
  have "map ?f (infos t') ! i = map ?f (infos t) ! i" by (simp add: e)
  then have "?f (infos t' ! i) = ?f (infos t ! i)" using i l by simp
  then have "weight (?f (infos t' ! i)) = weight (?f (infos t ! i))"
    and "prescribed (?f (infos t' ! i)) = prescribed (?f (infos t ! i))" by simp_all
  then show "weight (infos t' ! i) = weight (infos t ! i)"
    and "prescribed (infos t' ! i) = prescribed (infos t ! i)" by simp_all
qed

lemma partitioned_sameCoordinates:
  assumes s: "sameCoordinates t t'" and p: "partitioned t"
  shows "partitioned t'"
proof -
  note n = sameCoordinates_nth[OF s]
  have f: "prescribedQs t' = prescribedQs t" "unprescribedQs t' = unprescribedQs t"
    "unprescribedWeightedQs t' = unprescribedWeightedQs t" "numParameters t' = numParameters t"
    "dx t' = dx t"
    using s by (simp_all add: sameCoordinates_def)
  have 1: "filter (\<lambda>i. prescribed (infos t' ! i)) [0..<length (infos t')] =
           filter (\<lambda>i. prescribed (infos t ! i)) [0..<length (infos t)]"
    unfolding n(1) by (rule filter_cong) (simp_all add: n(3))
  have 2: "filter (\<lambda>i. \<not> prescribed (infos t' ! i)) [0..<length (infos t')] =
           filter (\<lambda>i. \<not> prescribed (infos t ! i)) [0..<length (infos t)]"
    unfolding n(1) by (rule filter_cong) (simp_all add: n(3))
  have u: "unprescribedQs t = filter (\<lambda>i. \<not> prescribed (infos t ! i)) [0..<length (infos t)]"
    using p by (simp add: partitioned_def)
  have 3: "filter (\<lambda>i. weight (infos t' ! i) \<noteq> 0) (unprescribedQs t) =
           filter (\<lambda>i. weight (infos t ! i) \<noteq> 0) (unprescribedQs t)"
  proof (rule filter_cong)
    fix x assume "x \<in> set (unprescribedQs t)"
    then have "x < length (infos t)" by (subst (asm) u) simp
    then show "(weight (infos t' ! x) \<noteq> 0) = (weight (infos t ! x) \<noteq> 0)"
      by (simp add: n(2))
  qed simp
  show ?thesis
    using p unfolding partitioned_def f 1 2 3 .
qed

lemma prepareToSolve_unprescribedStep_same:
  "sameCoordinates t (snd (prepareToSolve_unprescribedStep e m dataRow i (qGuess, t)))"
  by (simp add: prepareToSolve_unprescribedStep_def Let_def sameCoordinates_def infoAt_def
      map_update_same)

lemma fold_prepareToSolve_unprescribedStep_same:
  "sameCoordinates t (snd (fold (prepareToSolve_unprescribedStep e m dataRow) is (qGuess, t)))"
proof (induction "is" arbitrary: qGuess t)
  case Nil
  show ?case by (simp add: sameCoordinates_refl)
next
  case (Cons i "is")
  obtain q1 t1 where s: "prepareToSolve_unprescribedStep e m dataRow i (qGuess, t) = (q1, t1)"
    by (cases "prepareToSolve_unprescribedStep e m dataRow i (qGuess, t)")
  have "sameCoordinates t t1"
    using prepareToSolve_unprescribedStep_same[of t e m dataRow i qGuess] by (simp add: s)
  then show ?case
    using Cons.IH[where t = t1 and qGuess = q1] by (simp add: s) (rule sameCoordinates_trans)
qed

lemma prepareToSolve_same:
  assumes "prepareToSolve e dataRow qGuess m t = (qGuess', m', t')"
  shows "sameCoordinates t t'"
proof -
  let ?m = "prepareToSolve_prescribed e dataRow t m"
  obtain q1 t1 where f: "fold (prepareToSolve_unprescribedStep e ?m dataRow)
      [0..<length (unprescribedQs t)] (qGuess, t) = (q1, t1)"
    by (cases "fold (prepareToSolve_unprescribedStep e ?m dataRow)
      [0..<length (unprescribedQs t)] (qGuess, t)")
  have "sameCoordinates t t1"
    using fold_prepareToSolve_unprescribedStep_same[of t e ?m dataRow
        "[0..<length (unprescribedQs t)]" qGuess] by (simp add: f)
  moreover have "t' = t1\<lparr>markers := map (prepareToSolve_marker e dataRow) (markers t1)\<rparr>"
    using assms by (simp add: prepareToSolve_def Let_def f)
  ultimately show ?thesis by (simp add: sameCoordinates_def)
qed

lemma lifetime_same:
  "lifetime e t t' \<Longrightarrow> sameCoordinates t t'"
proof (induction rule: lifetime.induct)
  case constructed
  show ?case by (rule sameCoordinates_refl)
next
  case (bound t1 dataRow qGuess m qGuess' m' t2)
  show ?case
    by (rule sameCoordinates_trans[OF bound.IH prepareToSolve_same[OF bound.hyps(2)]])
next
  case (evaluated t1 x m status f m' t2)
  show ?case
    by (rule sameCoordinates_trans[OF evaluated.IH
          sameCoordinates_frame[OF frame_objectiveFunc[OF evaluated.hyps(2)]]])
next
  case (solved t1 rs m status rs' m' t2)
  show ?case
    by (rule sameCoordinates_trans[OF solved.IH
          sameCoordinates_frame[OF frame_iterativeOptimization[OF solved.hyps(2)]]])
next
  case (flagged t1 b pp cd)
  then show ?case by (simp add: sameCoordinates_def)
qed

lemma lifetime_partitioned:
  assumes "newIKTarget e0 m0 rawMarker rawInfo u tasks labels = Inr t0" and "lifetime e t0 t"
  shows "partitioned t"
  using partitioned_sameCoordinates[OF lifetime_same[OF assms(2)] newIKTarget_infos(2)[OF assms(1)]] .

subsection \<open>The three arrays\<close>

lemma count_list_filter_upt:
  "count_list (filter Q [0..<n]) i = (if i < n \<and> Q i then 1 else 0)"
  by (induction n) auto

text \<open>
  C6. In an object that \<^verbatim>\<open>buildCoordinateMap\<close> (through the constructor) has built, and
  at any later time of its life: every model coordinate is in exactly one of
  \<^verbatim>\<open>_prescribedQs\<close> and \<^verbatim>\<open>_unprescribedQs\<close> (and once in it); it is in \<^verbatim>\<open>_prescribedQs\<close> if
  and only if the model reported it locked or constrained at construction, whatever
  the tasks; \<^verbatim>\<open>_unprescribedWeightedQs\<close> holds exactly the elements of \<^verbatim>\<open>_unprescribedQs\<close>
  with a nonzero weight; and the three arrays are those of the construction.
\<close>

theorem coordinates_partitioned:
  assumes "newIKTarget e m rawMarker rawInfo u tasks labels = Inr t0" and "lifetime e t0 t"
  shows "length (infos t) = coordinateSetSize e m \<and>
         (\<forall>i < coordinateSetSize e m.
            count_list (prescribedQs t) i + count_list (unprescribedQs t) i = 1 \<and>
            (i \<in> set (prescribedQs t) \<longleftrightarrow> getLocked e m i \<or> isConstrained e m i)) \<and>
         set (prescribedQs t) \<union> set (unprescribedQs t) = {0..<coordinateSetSize e m} \<and>
         unprescribedWeightedQs t = filter (\<lambda>i. weight (infos t ! i) \<noteq> 0) (unprescribedQs t) \<and>
         prescribedQs t = prescribedQs t0 \<and> unprescribedQs t = unprescribedQs t0 \<and>
         unprescribedWeightedQs t = unprescribedWeightedQs t0"
proof -
  let ?n = "coordinateSetSize e m"
  let ?P = "\<lambda>i. getLocked e m i \<or> isConstrained e m i"
  note i0 = newIKTarget_infos[OF assms(1)]
  have s: "sameCoordinates t0 t" by (rule lifetime_same[OF assms(2)])
  have p: "partitioned t" by (rule lifetime_partitioned[OF assms])
  have l0: "length (infos t0) = ?n"
    using arg_cong[OF i0(1), of length] by simp
  have pr0: "prescribed (infos t0 ! i) = ?P i" if "i < ?n" for i
    using arg_cong[OF i0(1), of "\<lambda>xs. xs ! i"] that l0 by simp
  have a: "prescribedQs t0 = filter ?P [0..<?n]"
    "unprescribedQs t0 = filter (\<lambda>i. \<not> ?P i) [0..<?n]"
    using i0(2) unfolding partitioned_def l0
    by (auto intro: filter_cong simp: pr0)
  have f: "prescribedQs t = prescribedQs t0" "unprescribedQs t = unprescribedQs t0"
    "unprescribedWeightedQs t = unprescribedWeightedQs t0"
    using s by (simp_all add: sameCoordinates_def)
  have w: "unprescribedWeightedQs t = filter (\<lambda>i. weight (infos t ! i) \<noteq> 0) (unprescribedQs t)"
    using p by (simp add: partitioned_def)
  have len: "length (infos t) = ?n"
    using sameCoordinates_nth(1)[OF s] l0 by simp
  have cnt: "\<forall>i < ?n. count_list (prescribedQs t) i + count_list (unprescribedQs t) i = 1 \<and>
                    (i \<in> set (prescribedQs t) \<longleftrightarrow> ?P i)"
    unfolding f a by (simp add: count_list_filter_upt)
  have un: "set (prescribedQs t) \<union> set (unprescribedQs t) = {0..<?n}"
    unfolding f a by auto
  show ?thesis
    using len cnt un w f by (intro conjI)
qed

theorem coordinates_partitioned_witness:
  "newIKTarget exEngine exModel exRawMarker exRawInfo 0 exTasks exLabels = Inr exNew \<and>
   lifetime exEngine exNew exTarget \<and>
   length (infos exTarget) = coordinateSetSize exEngine exModel \<and>
   count_list (prescribedQs exTarget) 1 + count_list (unprescribedQs exTarget) 1 = 1 \<and>
   (1 \<in> set (prescribedQs exTarget)) =
     (getLocked exEngine exModel 1 \<or> isConstrained exEngine exModel 1) \<and>
   count_list (prescribedQs exTarget) 2 + count_list (unprescribedQs exTarget) 2 = 1 \<and>
   (2 \<in> set (prescribedQs exTarget)) =
     (getLocked exEngine exModel 2 \<or> isConstrained exEngine exModel 2) \<and>
   set (prescribedQs exTarget) \<union> set (unprescribedQs exTarget) =
     {0..<coordinateSetSize exEngine exModel} \<and>
   unprescribedWeightedQs exTarget =
     filter (\<lambda>i. weight (infos exTarget ! i) \<noteq> 0) (unprescribedQs exTarget) \<and>
   prescribedQs exTarget = prescribedQs exNew \<and> unprescribedQs exTarget = unprescribedQs exNew \<and>
   unprescribedWeightedQs exTarget = unprescribedWeightedQs exNew"
proof -
  have l: "lifetime exEngine exNew exTarget"
    by (rule lifetime.bound[OF lifetime.constructed ex_bound])
  have n: "1 < coordinateSetSize exEngine exModel" "2 < coordinateSetSize exEngine exModel"
    by (simp_all add: exEngine_def exModel_def)
  show ?thesis
    using coordinates_partitioned[OF ex_new l] n ex_new l by blast
qed

subsection \<open>The residual vector in the solver\<close>

lemma residualOf_cong:
  "target st' = target st \<Longrightarrow> dError st' = dError st \<Longrightarrow> model st' = model st \<Longrightarrow>
   residualOf e st' = residualOf e st"
  by (simp add: residualOf_def)

lemma residualOf_initialSolver:
  assumes "partitioned t"
  shows "residualOf e (initialSolver e rs m t)"
proof -
  let ?st0 = "\<lparr>model = m, target = t, results = rs,
        J = replicate (numParameters t) (replicate (residualSize t) 0),
        dQ = replicate (numParameters t) 0, dError = replicate (residualSize t) 0,
        rank = numParameters t, previousDErrorNorm = 0, currentDErrorNorm = 0,
        tempDErrorNorm = 0, deltaDErrorNorm = 100\<rparr>"
  have "residualOf e (evaluateDError e rs ?st0)"
    by (rule evaluateDError_residualOf) (simp_all add: assms residualSize_def)
  moreover have "residualOf e (initialSolver e rs m t) = residualOf e (evaluateDError e rs ?st0)"
    by (rule residualOf_cong) (simp_all add: initialSolver_def Let_def)
  ultimately show ?thesis by simp
qed

lemma residualOf_evaluate_next:
  assumes "partitioned (target st)" and "residualOf e st"
    and "target st2 = target st" and "dError st2 = dError st"
  shows "residualOf e (evaluateDError e x st2)"
  by (rule evaluateDError_residualOf)
     (use assms residualOf_zero_rows[OF assms(2)] in simp_all)

lemma residualOf_halveStep:
  assumes "partitioned (target st)" and "residualOf e st"
  shows "residualOf e (halveStep e st)"
proof -
  let ?st1 = "st\<lparr>dQ := map (\<lambda>v. v * (1 / 2)) (dQ st)\<rparr>"
  let ?x = "trialValues (results ?st1) (dQ ?st1) (numParameters (target ?st1))"
  have "residualOf e (evaluateDError e ?x ?st1)"
    by (rule residualOf_evaluate_next[OF assms]) simp_all
  moreover have "residualOf e (halveStep e st) = residualOf e (evaluateDError e ?x ?st1)"
    by (rule residualOf_cong) (simp_all add: halveStep_def Let_def)
  ultimately show ?thesis by simp
qed

lemma residualOf_solveStep:
  assumes "partitioned (target st)" and "residualOf e st"
  shows "residualOf e (solveStep e st)"
proof -
  obtain m' J' where j: "createJacobian e (target st) (results st) (model st) (J st) = (m', J')"
    by (cases "createJacobian e (target st) (results st) (model st) (J st)")
  obtain v rk where d: "dgelsy e (residualSize (target st)) (numParameters (target st)) J' (dError st) rcond = (v, rk)"
    by (cases "dgelsy e (residualSize (target st)) (numParameters (target st)) J' (dError st) rcond")
  let ?st2 = "st\<lparr>previousDErrorNorm := currentDErrorNorm st, model := m',
        J := J', dQ := take (numParameters (target st)) v, rank := rk\<rparr>"
  let ?x = "trialValues (results ?st2) (dQ ?st2) (numParameters (target st))"
  have "residualOf e (evaluateDError e ?x ?st2)"
    by (rule residualOf_evaluate_next[OF assms]) simp_all
  moreover have "residualOf e (solveStep e st) = residualOf e (evaluateDError e ?x ?st2)"
    by (rule residualOf_cong) (simp_all add: solveStep_def Let_def j d)
  ultimately show ?thesis by simp
qed

lemma residualOf_acceptStep: "residualOf e (acceptStep st) = residualOf e st"
  by (rule residualOf_cong) (simp_all add: acceptStep_def)

lemma solverStates_invariant:
  assumes "partitioned t" and "solverStates e (initialSolver e rs m t) st"
  shows "frame t (target st) \<and> residualOf e st"
  using assms(2)
proof (induction rule: solverStates.induct)
  case initial
  show ?case
    by (simp add: frame_initialSolver residualOf_initialSolver[OF assms(1)])
next
  case (solve st)
  then have p: "partitioned (target st)" using partitioned_frame assms(1) by blast
  show ?case
    using solve.IH frame_trans[OF _ frame_solveStep] residualOf_solveStep[OF p] by blast
next
  case (halve st)
  then have p: "partitioned (target st)" using partitioned_frame assms(1) by blast
  show ?case
    using halve.IH frame_trans[OF _ frame_halveStep] residualOf_halveStep[OF p] by blast
next
  case (accept st)
  then show ?case by (simp add: frame_acceptStep residualOf_acceptStep)
qed

text \<open>
  C4. In an object built by the constructor, at any time of its life, every state
  that a run of the iterative solver passes through has a residual vector \<^verbatim>\<open>dError\<close> of
  the fixed length \<open>3 * |markers| + |weighted unprescribed coordinates|\<close>, in which
  the three rows of a marker with a valid experimental position are
  \<open>sqrt weight * (experimental - computed)\<close>, the three rows of any other marker are 0,
  and the rows after those of the markers are, for the weighted unprescribed
  coordinates in their order, \<open>sqrt weight * (experimental value - value in the model)\<close>.
\<close>

theorem residual_vector_rows:
  assumes "newIKTarget e m0 rawMarker rawInfo u tasks labels = Inr t0"
    and "lifetime e t0 t"
    and "solverStates e (initialSolver e rs m t) st"
  shows "length (dError st) = 3 * length (markers t) + length (unprescribedWeightedQs t) \<and>
         length (markers (target st)) = length (markers t) \<and>
         unprescribedWeightedQs (target st) = unprescribedWeightedQs t \<and>
         (\<forall>k < length (markers t). \<forall>r < 3.
            dError st ! (3 * k + r) =
              (if validExperimentalPosition (markers (target st) ! k)
               then sqrt (markerWeight (markers (target st) ! k)) *
                      (component (experimentalPosition (markers (target st) ! k)) r -
                       component (computedPosition (markers (target st) ! k)) r)
               else 0)) \<and>
         (\<forall>k < length (unprescribedWeightedQs t).
            dError st ! (3 * length (markers t) + k) =
              sqrt (weight (infoAt t (unprescribedWeightedQs t ! k))) *
                (experimentalValue (infoAt t (unprescribedWeightedQs t ! k)) -
                 getValue e (model st) (coord (infoAt t (unprescribedWeightedQs t ! k)))))"
proof -
  have p: "partitioned t" by (rule lifetime_partitioned[OF assms(1,2)])
  note i = solverStates_invariant[OF p assms(3)]
  have f: "fixedPart (target st) = fixedPart t"
    and l: "length (markers (target st)) = length (markers t)"
    using i by (auto simp: frame_def dest: list_all2_lengthD)
  note ff = fixedPart_fields[OF f]
  have a: "infoAt (target st) = infoAt t"
    by (rule ext) (simp add: infoAt_def ff(1))
  show ?thesis
    using i[THEN conjunct2] unfolding residualOf_def Let_def l ff(4) a by simp
qed

lemma backtrack_solverStates:
  assumes "backtrack e st = Some st'"
  shows "solverStates e s0 st \<longrightarrow> solverStates e s0 st'"
  using assms
proof (induct rule: backtrack_induct)
  case (step bt e st st')
  show ?case
  proof (cases "tempDErrorNorm st > previousDErrorNorm st")
    case True
    with step(2) have "bt e (halveStep e st) = Some st'" by simp
    from step(1)[OF this] show ?thesis
      using solverStates.halve by blast
  next
    case False
    with step(2) show ?thesis by simp
  qed
qed

lemma outerBody_solverStates:
  assumes "outerBody e st = Some st'" and "solverStates e s0 st"
  shows "solverStates e s0 st'"
proof -
  let ?s = "solveStep e st"
  obtain st5 where b: "(if tempDErrorNorm ?s > previousDErrorNorm ?s then backtrack e ?s else Some ?s) = Some st5"
    and a: "st' = acceptStep st5"
    using assms(1) by (auto simp: outerBody_def Let_def split: option.splits)
  have s: "solverStates e s0 ?s" by (rule solverStates.solve[OF assms(2)])
  have "solverStates e s0 st5"
    using b s backtrack_solverStates by (auto split: if_splits)
  then show ?thesis unfolding a by (rule solverStates.accept)
qed

lemma solverLoop_solverStates:
  "solverLoop e iter st = Some (iter', st') \<Longrightarrow> solverStates e s0 st \<Longrightarrow> solverStates e s0 st'"
proof (induction e iter st rule: solverLoop.induct)
  case (1 e iter st)
  show ?case
  proof (cases "deltaDErrorNorm st > errorTol \<and> iter < maxIter")
    case True
    then obtain st1 where o: "outerBody e st = Some st1"
      and l: "solverLoop e (iter + 1) st1 = Some (iter', st')"
      using "1.prems"(1) by (subst (asm) solverLoop.simps) (auto split: option.splits)
    show ?thesis
      by (rule "1.IH"[OF True o l outerBody_solverStates[OF o "1.prems"(2)]])
  next
    case False
    then show ?thesis
      using "1.prems" by (subst (asm) solverLoop.simps) auto
  qed
qed

theorem residual_vector_rows_witness:
  "newIKTarget exEngine exModel exRawMarker exRawInfo 0 exTasks exLabels = Inr exNew \<and>
   lifetime exEngine exNew exTarget \<and>
   solverStates exEngine (initialSolver exEngine exGuess exModel exTarget) exS0 \<and>
   dError exS0 = [0, 1, 0, 0, 0, 0, 0] \<and>
   length (dError exS0) = 3 * length (markers exTarget) + length (unprescribedWeightedQs exTarget) \<and>
   dError exS0 ! (3 * 0 + 1) =
     sqrt (markerWeight (markers (target exS0) ! 0)) *
       (component (experimentalPosition (markers (target exS0) ! 0)) 1 -
        component (computedPosition (markers (target exS0) ! 0)) 1) \<and>
   \<not> validExperimentalPosition (markers (target exS0) ! 1) \<and>
   dError exS0 ! (3 * 1 + 2) = 0 \<and>
   dError exS0 ! (3 * length (markers exTarget) + 0) =
     sqrt (weight (infoAt exTarget (unprescribedWeightedQs exTarget ! 0))) *
       (experimentalValue (infoAt exTarget (unprescribedWeightedQs exTarget ! 0)) -
        getValue exEngine (model exS0) (coord (infoAt exTarget (unprescribedWeightedQs exTarget ! 0))))"
proof -
  have l: "lifetime exEngine exNew exTarget"
    by (rule lifetime.bound[OF lifetime.constructed ex_bound])
  have s: "solverStates exEngine (initialSolver exEngine exGuess exModel exTarget) exS0"
    unfolding ex_initial by (rule solverStates.initial)
  have d: "dError exS0 = [0, 1, 0, 0, 0, 0, 0]" by (simp add: exS0_def)
  have n: "0 < length (markers exTarget)" "1 < length (markers exTarget)"
    "0 < length (unprescribedWeightedQs exTarget)" "(1::nat) < 3" "(2::nat) < 3"
    by (simp_all add: exTarget_def exNew_def)
  have v: "validExperimentalPosition (markers (target exS0) ! 0)"
    "\<not> validExperimentalPosition (markers (target exS0) ! 1)"
    by (simp_all add: exS0_def exMarkers_def)
  note r = residual_vector_rows[OF ex_new l s]
  have r1: "dError exS0 ! (3 * 0 + 1) =
     sqrt (markerWeight (markers (target exS0) ! 0)) *
       (component (experimentalPosition (markers (target exS0) ! 0)) 1 -
        component (computedPosition (markers (target exS0) ! 0)) 1)"
    using r n(1,4) v(1) by presburger
  have r2: "dError exS0 ! (3 * 1 + 2) = 0"
    using r n(2,5) v(2) by presburger
  show ?thesis
    using ex_new l s d r r1 r2 n(3) v(2) by blast
qed

subsection \<open>The columns of the Jacobian\<close>

lemma jacobianMarkers_length:
  "length (jacobianMarkers e m mw k ms pf) = length pf"
  by (induction ms arbitrary: k pf) (simp_all add: Let_def split: prod.splits)

lemma jacobianMarkers_outside:
  "j < 3 * k \<or> 3 * (k + length ms) \<le> j \<Longrightarrow> jacobianMarkers e m mw k ms pf ! j = pf ! j"
proof (induction ms arbitrary: k pf)
  case Nil
  then show ?case by simp
next
  case (Cons mk ms)
  have j: "j < 3 * (k + 1) \<or> 3 * (k + 1 + length ms) \<le> j"
    using Cons.prems by auto
  have n: "j \<noteq> k * 3" "j \<noteq> Suc (k * 3)" "j \<noteq> Suc (Suc (k * 3))"
    using Cons.prems by auto
  show ?case
    using Cons.IH[OF j] n by (simp add: Let_def split: prod.splits)
qed

lemma jacobianMarkers_inside_aux:
  "3 * (k + length ms) \<le> length pf \<Longrightarrow> i < length ms \<Longrightarrow> r < 3 \<Longrightarrow> j = 3 * (k + i) + r \<Longrightarrow>
   jacobianMarkers e m mw k ms pf ! j =
     (if validExperimentalPosition (ms ! i)
      then mw ! (k + i) *
             (component (worldPosition e m (ms ! i)) r - component (computedPosition (ms ! i)) r)
      else pf ! j)"
proof (induction ms arbitrary: k i pf)
  case Nil
  then show ?case by simp
next
  case (Cons mk ms)
  obtain g0 g1 g2 where g: "transformPosition e m (body mk) (getOffset e m (marker mk)) = (g0, g1, g2)"
    by (cases "transformPosition e m (body mk) (getOffset e m (marker mk))")
  obtain c0 c1 c2 where co: "computedPosition mk = (c0, c1, c2)"
    by (cases "computedPosition mk")
  show ?case
  proof (cases i)
    case 0
    have o: "\<And>P. jacobianMarkers e m mw (Suc k) ms P ! j = P ! j"
      by (rule jacobianMarkers_outside) (use Cons.prems 0 in simp)
    have r: "j = k * 3 \<or> j = Suc (k * 3) \<or> j = Suc (Suc (k * 3))"
      using Cons.prems(3,4) 0 by auto
    have l: "Suc (Suc (k * 3)) < length pf" using Cons.prems(1) by simp
    have c: "r = (if j = k * 3 then 0 else if j = Suc (k * 3) then 1 else 2)"
      using Cons.prems(3,4) 0 by auto
    show ?thesis
      using r l
      by (auto simp: 0 Let_def g co o c worldPosition_def)
  next
    case (Suc i')
    have p: "3 * (k + 1 + length ms) \<le> length pf" "i' < length ms" "j = 3 * (k + 1 + i') + r"
      using Cons.prems Suc by auto
    have n: "j \<noteq> k * 3" "j \<noteq> Suc (k * 3)" "j \<noteq> Suc (Suc (k * 3))"
      using p(3) by auto
    have IH: "\<And>P. length P = length pf \<Longrightarrow>
        jacobianMarkers e m mw (k + 1) ms P ! j =
          (if validExperimentalPosition (ms ! i')
           then mw ! (k + 1 + i') *
             (component (worldPosition e m (ms ! i')) r - component (computedPosition (ms ! i')) r)
           else P ! j)"
      using p(1) by (intro Cons.IH[OF _ p(2) Cons.prems(3) p(3)]) simp
    show ?thesis
    proof (cases "validExperimentalPosition mk")
      case True
      show ?thesis
        using n IH by (simp add: Suc True Let_def g co)
    next
      case False
      then show ?thesis
        using IH by (simp add: Suc)
    qed
  qed
qed

lemma jacobianMarkers_inside:
  "3 * length ms \<le> length pf \<Longrightarrow> i < length ms \<Longrightarrow> r < 3 \<Longrightarrow>
   jacobianMarkers e m mw 0 ms pf ! (3 * i + r) =
     (if validExperimentalPosition (ms ! i)
      then mw ! i *
             (component (worldPosition e m (ms ! i)) r - component (computedPosition (ms ! i)) r)
      else pf ! (3 * i + r))"
  using jacobianMarkers_inside_aux[of 0 ms pf i r "3 * i + r" e m mw] by simp

lemma clearRows_replicate: "clearRows t (replicate (residualSize t) 0)"
  by (simp add: clearRows_def residualSize_def)

lemma clearRows_jacobianMarkers:
  assumes "clearRows t pf"
  shows "clearRows t (jacobianMarkers e m mw 0 (markers t) pf)"
proof -
  have l: "length pf = residualSize t" using assms by (simp add: clearRows_def)
  have "jacobianMarkers e m mw 0 (markers t) pf ! (3 * k + r) = 0"
    if "k < length (markers t)" "\<not> validExperimentalPosition (markers t ! k)" "r < 3" for k r
    using jacobianMarkers_inside[of "markers t" pf k r e m mw] that assms
    by (simp add: clearRows_def residualSize_def)
  moreover have "jacobianMarkers e m mw 0 (markers t) pf ! j = 0"
    if "3 * length (markers t) \<le> j" "j < length pf" for j
    using jacobianMarkers_outside[of j 0 "markers t" e m mw pf] that assms
    by (simp add: clearRows_def)
  ultimately show ?thesis
    by (simp add: clearRows_def jacobianMarkers_length l)
qed

lemma jacobianColumn_step:
  assumes "i < length jointQs"
  shows "jacobianColumn e t mw jointQs i (m, Jm, jointQs, pf, row) =
     (let info = infoAt t (unprescribedQs t ! i);
          mp = perturbForward e t jointQs i m;
          pf1 = jacobianMarkers e mp mw 0 (markers t) pf;
          col = map (\<lambda>v. 1 / dx t ! i * v) pf1
      in (setClamped e (coord info) (getClamped e m (coord info))
            (setValue e (coord info) (jointQs ! i) False mp),
          Jm[i := (if weight info \<noteq> 0 then col[row := sqrt (weight info)] else col)],
          jointQs, pf1, (if weight info \<noteq> 0 then row + 1 else row)))"
  using assms unfolding jacobianColumn_def perturbForward_def Let_def
  by (cases "i < length Jm") (simp_all add: list_update_beyond)

lemma fold_jacobianColumn:
  assumes "\<forall>i \<in> set is. i < length jointQs" and "clearRows t pf"
  shows "\<exists>m' J' pf'.
           fold (jacobianColumn e t mw jointQs) is (m, Jm, jointQs, pf, row) =
             (m', J', jointQs, pf', row + length (filter (weightedParameter t) is)) \<and>
           clearRows t pf' \<and> length J' = length Jm \<and>
           (\<forall>i. i \<notin> set is \<longrightarrow> J' ! i = Jm ! i)"
  using assms
proof (induction "is" arbitrary: m Jm pf row)
  case Nil
  then show ?case by simp
next
  case (Cons i "is")
  have i: "i < length jointQs" using Cons.prems(1) by simp
  let ?info = "infoAt t (unprescribedQs t ! i)"
  let ?mp = "perturbForward e t jointQs i m"
  let ?pf1 = "jacobianMarkers e ?mp mw 0 (markers t) pf"
  let ?col = "map (\<lambda>v. 1 / dx t ! i * v) ?pf1"
  let ?m4 = "setClamped e (coord ?info) (getClamped e m (coord ?info))
            (setValue e (coord ?info) (jointQs ! i) False ?mp)"
  let ?J1 = "Jm[i := (if weight ?info \<noteq> 0 then ?col[row := sqrt (weight ?info)] else ?col)]"
  let ?row1 = "if weight ?info \<noteq> 0 then row + 1 else row"
  have s: "jacobianColumn e t mw jointQs i (m, Jm, jointQs, pf, row) =
      (?m4, ?J1, jointQs, ?pf1, ?row1)"
    by (rule jacobianColumn_step[OF i, unfolded Let_def])
  have c: "clearRows t ?pf1" by (rule clearRows_jacobianMarkers[OF Cons.prems(2)])
  have r: "\<forall>i \<in> set is. i < length jointQs" using Cons.prems(1) by simp
  obtain m' J' pf' where
    f: "fold (jacobianColumn e t mw jointQs) is (?m4, ?J1, jointQs, ?pf1, ?row1) =
             (m', J', jointQs, pf', ?row1 + length (filter (weightedParameter t) is))"
    and p: "clearRows t pf'" "length J' = length ?J1" "\<forall>i. i \<notin> set is \<longrightarrow> J' ! i = ?J1 ! i"
    using Cons.IH[OF r c, of ?m4 ?J1 ?row1] by blast
  have "fold (jacobianColumn e t mw jointQs) (i # is) (m, Jm, jointQs, pf, row) =
      (m', J', jointQs, pf', row + length (filter (weightedParameter t) (i # is)))"
    by (simp add: s f weightedParameter_def)
  moreover have "length J' = length Jm" using p(2) by simp
  moreover have "\<forall>j. j \<notin> set (i # is) \<longrightarrow> J' ! j = Jm ! j"
    using p(3) by simp
  ultimately show ?case using p(1) by blast
qed

lemma upt_split: "i < n \<Longrightarrow> [0..<n] = [0..<i] @ i # [Suc i..<n]"
  using upt_add_eq_append[of 0 i "n - i"] upt_conv_Cons[of i n] by simp

lemma weighted_position:
  assumes p: "partitioned t" and i: "i < numParameters t" and w: "weightedParameter t i"
  shows "length (filter (weightedParameter t) [0..<i]) < length (unprescribedWeightedQs t)"
    and "unprescribedWeightedQs t ! length (filter (weightedParameter t) [0..<i]) =
         unprescribedQs t ! i"
proof -
  let ?W = "weightedParameter t"
  let ?c = "length (filter ?W [0..<i])"
  have f: "filter ?W [0..<numParameters t] = filter ?W [0..<i] @ i # filter ?W [Suc i..<numParameters t]"
    by (simp add: upt_split[OF i] w)
  have u: "unprescribedWeightedQs t = map ((!) (unprescribedQs t)) (filter ?W [0..<numParameters t])"
    by (rule partitioned_weighted[OF p, symmetric])
  show "?c < length (unprescribedWeightedQs t)"
    unfolding u f by simp
  show "unprescribedWeightedQs t ! ?c = unprescribedQs t ! i"
    unfolding u f by (simp add: nth_append)
qed

lemma markerWeightsOf_nth:
  "k < length (markers t) \<Longrightarrow>
   markerWeightsOf t ! k =
     (if validExperimentalPosition (markers t ! k) then sqrt (markerWeight (markers t ! k)) else 0)"
  by (simp add: markerWeightsOf_def)

lemma jacobian_column:
  assumes p: "partitioned t"
    and lq: "length jointQs = numParameters t" and lj: "length Jm = numParameters t"
    and i: "i < numParameters t"
  shows "\<exists>m' J'. createJacobian e t jointQs m Jm = (m', J') \<and>
    length J' = numParameters t \<and>
    length (J' ! i) = residualSize t \<and>
    (\<forall>k < length (markers t). \<forall>r < 3.
       J' ! i ! (3 * k + r) =
         (if validExperimentalPosition (markers t ! k)
          then sqrt (markerWeight (markers t ! k)) *
                 (component (worldPosition e
                    (perturbForward e t jointQs i (fst (jacobianColumns e t jointQs [0..<i] m Jm)))
                    (markers t ! k)) r -
                  component (computedPosition (markers t ! k)) r) / dx t ! i
          else 0)) \<and>
    (weightedParameter t i \<longrightarrow>
       J' ! i ! (3 * length (markers t) + length (filter (weightedParameter t) [0..<i])) =
         sqrt (weight (infoAt t (unprescribedQs t ! i))))"
proof -
  let ?W = "weightedParameter t"
  let ?M = "length (markers t)"
  let ?mw = "markerWeightsOf t"
  let ?step = "jacobianColumn e t ?mw jointQs"
  let ?c = "length (filter ?W [0..<i])"
  let ?info = "infoAt t (unprescribedQs t ! i)"
  have b1: "\<forall>j \<in> set [0..<i]. j < length jointQs" using i lq by simp
  obtain m1 J1 pf1 where
    f1: "fold ?step [0..<i] (m, Jm, jointQs, replicate (residualSize t) 0, 3 * ?M) =
           (m1, J1, jointQs, pf1, 3 * ?M + ?c)"
    and c1: "clearRows t pf1" and l1: "length J1 = length Jm"
    using fold_jacobianColumn[OF b1 clearRows_replicate,
        where e = e and mw = ?mw and m = m and Jm = Jm and row = "3 * ?M"] by blast
  have m1: "fst (jacobianColumns e t jointQs [0..<i] m Jm) = m1"
    by (simp add: jacobianColumns_def f1)
  let ?mp = "perturbForward e t jointQs i m1"
  let ?pf2 = "jacobianMarkers e ?mp ?mw 0 (markers t) pf1"
  let ?col = "map (\<lambda>v. 1 / dx t ! i * v) ?pf2"
  let ?final = "if weight ?info \<noteq> 0 then ?col[3 * ?M + ?c := sqrt (weight ?info)] else ?col"
  let ?m4 = "setClamped e (coord ?info) (getClamped e m1 (coord ?info))
            (setValue e (coord ?info) (jointQs ! i) False ?mp)"
  let ?row2 = "if weight ?info \<noteq> 0 then 3 * ?M + ?c + 1 else 3 * ?M + ?c"
  have iq: "i < length jointQs" using i lq by simp
  have s: "?step i (m1, J1, jointQs, pf1, 3 * ?M + ?c) = (?m4, J1[i := ?final], jointQs, ?pf2, ?row2)"
    by (rule jacobianColumn_step[OF iq, unfolded Let_def])
  have c2: "clearRows t ?pf2" by (rule clearRows_jacobianMarkers[OF c1])
  have b3: "\<forall>j \<in> set [Suc i..<numParameters t]. j < length jointQs" using lq by simp
  obtain m' J' pf' where
    f3: "fold ?step [Suc i..<numParameters t] (?m4, J1[i := ?final], jointQs, ?pf2, ?row2) =
           (m', J', jointQs, pf', ?row2 + length (filter ?W [Suc i..<numParameters t]))"
    and l3: "length J' = length (J1[i := ?final])"
    and k3: "\<forall>j. j \<notin> set [Suc i..<numParameters t] \<longrightarrow> J' ! j = J1[i := ?final] ! j"
    using fold_jacobianColumn[OF b3 c2,
        where e = e and mw = ?mw and m = ?m4 and Jm = "J1[i := ?final]" and row = ?row2] by blast
  have cj: "createJacobian e t jointQs m Jm = (m', J')"
    by (simp add: createJacobian_def jacobianColumns_def upt_split[OF i] f1 s f3)
  have col: "J' ! i = ?final"
    using k3 l1 lj i by simp
  have lp: "length ?pf2 = residualSize t" "length pf1 = residualSize t"
    using c1 c2 by (simp_all add: clearRows_def)
  have len: "length ?final = residualSize t"
    by (simp add: lp)
  have markerRows: "?final ! (3 * k + r) =
         (if validExperimentalPosition (markers t ! k)
          then sqrt (markerWeight (markers t ! k)) *
                 (component (worldPosition e ?mp (markers t ! k)) r -
                  component (computedPosition (markers t ! k)) r) / dx t ! i
          else 0)" if k: "k < ?M" and r: "r < 3" for k r
  proof -
    have lt: "3 * k + r < 3 * ?M" using k r by simp
    then have ne: "3 * k + r \<noteq> 3 * ?M + ?c" by simp
    have lt': "3 * k + r < length ?pf2" using lt by (simp add: lp residualSize_def)
    have "?final ! (3 * k + r) = ?col ! (3 * k + r)"
      using ne by simp
    also have "\<dots> = 1 / dx t ! i * ?pf2 ! (3 * k + r)"
      using lt' by simp
    also have "?pf2 ! (3 * k + r) =
        (if validExperimentalPosition (markers t ! k)
         then ?mw ! k * (component (worldPosition e ?mp (markers t ! k)) r -
                          component (computedPosition (markers t ! k)) r)
         else pf1 ! (3 * k + r))"
      by (rule jacobianMarkers_inside) (use k r lp in \<open>simp_all add: residualSize_def\<close>)
    finally show ?thesis
      using c1 k r by (simp add: markerWeightsOf_nth clearRows_def)
  qed
  have coordinateRow: "?final ! (3 * ?M + ?c) = sqrt (weight ?info)" if w: "?W i"
  proof -
    have "?c < length (unprescribedWeightedQs t)" by (rule weighted_position(1)[OF p i w])
    then have "3 * ?M + ?c < length ?col" by (simp add: lp residualSize_def)
    then show ?thesis using w by (simp add: weightedParameter_def)
  qed
  show ?thesis
    using cj l3 l1 lj len markerRows coordinateRow unfolding col[symmetric] m1 by simp
qed

text \<open>
  C7. In an object built by the constructor, at any time of its life,
  \<^verbatim>\<open>createJacobian\<close> on a parameter vector and a matrix with one column for each
  parameter returns a matrix with as many columns, whose column \<open>i\<close> has
  \<open>3 * |markers| + |weighted unprescribed coordinates|\<close> rows: in the three rows of a
  marker with a valid experimental position the forward difference
  \<open>sqrt weight * (perturbed - computed) / step\<close>, where \<open>perturbed\<close> is the world position
  in the model as the loop finds it at parameter \<open>i\<close>, with that parameter set to
  \<open>jointQs[i] + _dx[i]\<close> and its clamping off, \<open>computed\<close> is the stored computed position
  and \<open>step\<close> is \<open>_dx[i]\<close>, the fixed perturbation; 0 in the rows of any other marker;
  and, when parameter \<open>i\<close> has a nonzero weight, \<open>sqrt weight\<close> in the row of that
  coordinate among the weighted ones, whatever the step.
\<close>

theorem jacobian_columns:
  assumes "newIKTarget e m0 rawMarker rawInfo u tasks labels = Inr t0"
    and "lifetime e t0 t"
    and "length jointQs = numParameters t" and "length Jm = numParameters t"
    and "i < numParameters t"
  shows "\<exists>m' J'. createJacobian e t jointQs m Jm = (m', J') \<and>
    length J' = numParameters t \<and>
    length (J' ! i) = 3 * length (markers t) + length (unprescribedWeightedQs t) \<and>
    dx t ! i = perturbation \<and>
    (\<forall>k < length (markers t). \<forall>r < 3.
       J' ! i ! (3 * k + r) =
         (if validExperimentalPosition (markers t ! k)
          then sqrt (markerWeight (markers t ! k)) *
                 (component (worldPosition e
                    (perturbForward e t jointQs i (fst (jacobianColumns e t jointQs [0..<i] m Jm)))
                    (markers t ! k)) r -
                  component (computedPosition (markers t ! k)) r) / dx t ! i
          else 0)) \<and>
    (weight (infoAt t (unprescribedQs t ! i)) \<noteq> 0 \<longrightarrow>
       length (filter (weightedParameter t) [0..<i]) < length (unprescribedWeightedQs t) \<and>
       unprescribedWeightedQs t ! length (filter (weightedParameter t) [0..<i]) =
         unprescribedQs t ! i \<and>
       J' ! i ! (3 * length (markers t) + length (filter (weightedParameter t) [0..<i])) =
         sqrt (weight (infoAt t (unprescribedQs t ! i))))"
proof -
  have p: "partitioned t" by (rule lifetime_partitioned[OF assms(1,2)])
  have d: "dx t ! i = perturbation"
    using p assms(5) by (simp add: partitioned_def)
  obtain m' J' where c: "createJacobian e t jointQs m Jm = (m', J')"
    and r: "length J' = numParameters t" "length (J' ! i) = residualSize t"
      "\<forall>k < length (markers t). \<forall>r < 3.
       J' ! i ! (3 * k + r) =
         (if validExperimentalPosition (markers t ! k)
          then sqrt (markerWeight (markers t ! k)) *
                 (component (worldPosition e
                    (perturbForward e t jointQs i (fst (jacobianColumns e t jointQs [0..<i] m Jm)))
                    (markers t ! k)) r -
                  component (computedPosition (markers t ! k)) r) / dx t ! i
          else 0)"
      "weightedParameter t i \<longrightarrow>
       J' ! i ! (3 * length (markers t) + length (filter (weightedParameter t) [0..<i])) =
         sqrt (weight (infoAt t (unprescribedQs t ! i)))"
    using jacobian_column[OF p assms(3,4,5), of e m] by blast
  have w: "length (filter (weightedParameter t) [0..<i]) < length (unprescribedWeightedQs t) \<and>
       unprescribedWeightedQs t ! length (filter (weightedParameter t) [0..<i]) =
         unprescribedQs t ! i \<and>
       J' ! i ! (3 * length (markers t) + length (filter (weightedParameter t) [0..<i])) =
         sqrt (weight (infoAt t (unprescribedQs t ! i)))"
    if "weight (infoAt t (unprescribedQs t ! i)) \<noteq> 0"
    using that weighted_position[OF p assms(5)] r(4) by (simp add: weightedParameter_def)
  show ?thesis
    using c r(1) r(2)[unfolded residualSize_def] d r(3) w by blast
qed

lemma ex_objective0:
  "objectiveFunc exEngine [1, 0] exModel exTarget =
     Inr (0, 1, [1, 0, 0], exTarget\<lparr>markers := exMarkers (1, 0, 0)\<rparr>)"
  by (simp add: objectiveFunc_def ex_defs applyParameters_def infoAt_def upt_rec
      squaredError_def reportErrors_def debug_def Let_def)

lemma ex_simps: "(\<exists>m' J'. [1, 0, 0] = m' \<and> exJ = J' \<and> P J') = P exJ"
  by auto

theorem jacobian_columns_witness:
  "newIKTarget exEngine exModel exRawMarker exRawInfo 0 exTasks exLabels = Inr exNew \<and>
   lifetime exEngine exNew (target exS0) \<and>
   length (results exS0) = numParameters (target exS0) \<and>
   length (J exS0) = numParameters (target exS0) \<and>
   0 < numParameters (target exS0) \<and>
   createJacobian exEngine (target exS0) (results exS0) (model exS0) (J exS0) = ([1, 0, 0], exJ) \<and>
   length exJ = numParameters (target exS0) \<and>
   length (exJ ! 0) = 3 * length (markers (target exS0)) + length (unprescribedWeightedQs (target exS0)) \<and>
   exJ ! 0 ! (3 * 0 + 0) =
     sqrt (markerWeight (markers (target exS0) ! 0)) *
       (component (worldPosition exEngine
          (perturbForward exEngine (target exS0) (results exS0) 0
             (fst (jacobianColumns exEngine (target exS0) (results exS0) [0..<0] (model exS0) (J exS0))))
          (markers (target exS0) ! 0)) 0 -
        component (computedPosition (markers (target exS0) ! 0)) 0) / dx (target exS0) ! 0 \<and>
   exJ ! 0 ! (3 * 1 + 0) = 0 \<and>
   exJ ! 0 ! (3 * length (markers (target exS0)) +
              length (filter (weightedParameter (target exS0)) [0..<0])) =
     sqrt (weight (infoAt (target exS0) (unprescribedQs (target exS0) ! 0)))"
proof -
  have t: "target exS0 = exTarget\<lparr>markers := exMarkers (1, 0, 0)\<rparr>" by (simp add: exS0_def)
  have l: "lifetime exEngine exNew (target exS0)"
    unfolding t
    by (rule lifetime.evaluated[OF lifetime.bound[OF lifetime.constructed ex_bound] ex_objective0])
  have h: "length (results exS0) = numParameters (target exS0)"
    "length (J exS0) = numParameters (target exS0)" "0 < numParameters (target exS0)"
    by (simp_all add: exS0_def exTarget_def exNew_def)
  have v: "0 < length (markers (target exS0))" "1 < length (markers (target exS0))"
    "validExperimentalPosition (markers (target exS0) ! 0)"
    "\<not> validExperimentalPosition (markers (target exS0) ! 1)"
    "weight (infoAt (target exS0) (unprescribedQs (target exS0) ! 0)) \<noteq> 0" "(0::nat) < 3"
    by (simp_all add: t exTarget_def exNew_def exInfos_def exMarkers_def infoAt_def)
  note j = jacobian_columns[OF ex_new l h, of "model exS0", unfolded ex_jacobian0, simplified prod.inject ex_simps]
  have a: "length exJ = numParameters (target exS0)"
    "length (exJ ! 0) = 3 * length (markers (target exS0)) + length (unprescribedWeightedQs (target exS0))"
    using j by blast+
  have r: "\<forall>k < length (markers (target exS0)). \<forall>r < 3.
       exJ ! 0 ! (3 * k + r) =
         (if validExperimentalPosition (markers (target exS0) ! k)
          then sqrt (markerWeight (markers (target exS0) ! k)) *
                 (component (worldPosition exEngine
                    (perturbForward exEngine (target exS0) (results exS0) 0
                       (fst (jacobianColumns exEngine (target exS0) (results exS0) [0..<0]
                              (model exS0) (J exS0))))
                    (markers (target exS0) ! k)) r -
                  component (computedPosition (markers (target exS0) ! k)) r) / dx (target exS0) ! 0
          else 0)"
    using j by blast
  have r0: "exJ ! 0 ! (3 * 0 + 0) =
     sqrt (markerWeight (markers (target exS0) ! 0)) *
       (component (worldPosition exEngine
          (perturbForward exEngine (target exS0) (results exS0) 0
             (fst (jacobianColumns exEngine (target exS0) (results exS0) [0..<0] (model exS0) (J exS0))))
          (markers (target exS0) ! 0)) 0 -
        component (computedPosition (markers (target exS0) ! 0)) 0) / dx (target exS0) ! 0"
    using r v(1,3,6) by presburger
  have r1: "exJ ! 0 ! (3 * 1 + 0) = 0"
    using r v(2,4,6) by presburger
  have w: "exJ ! 0 ! (3 * length (markers (target exS0)) +
              length (filter (weightedParameter (target exS0)) [0..<0])) =
     sqrt (weight (infoAt (target exS0) (unprescribedQs (target exS0) ! 0)))"
    using j v(5) by blast
  show ?thesis
    using ex_new l h ex_jacobian0 a r0 r1 w by blast
qed

subsection \<open>Termination of the solver\<close>

lemma passes_iter:
  "passes e k iter st = Some (iter', st') \<Longrightarrow> iter' = iter + k"
  by (induction k arbitrary: iter st) (fastforce split: if_splits option.splits)+

lemma passes_Suc_first:
  "deltaDErrorNorm st > errorTol \<and> iter < maxIter \<Longrightarrow> outerBody e st = Some st1 \<Longrightarrow>
   passes e (Suc k) iter st = passes e k (iter + 1) st1"
  by simp

lemma outerBody_None:
  "outerBody e st = None \<longleftrightarrow>
     tempDErrorNorm (solveStep e st) > previousDErrorNorm (solveStep e st) \<and>
     backtrack e (solveStep e st) = None"
  by (simp add: outerBody_def Let_def split: option.splits)

lemma outerBody_delta:
  "outerBody e st = Some st' \<Longrightarrow>
   deltaDErrorNorm st' = \<bar>currentDErrorNorm st' - previousDErrorNorm st'\<bar>"
  by (auto simp: outerBody_def Let_def acceptStep_def split: option.splits if_splits)

lemma passes_last:
  "passes e (Suc j) iter st = Some (iter', st') \<Longrightarrow> \<exists>s. outerBody e s = Some st'"
proof (induction j arbitrary: iter st)
  case 0
  then show ?case by (auto split: if_splits option.splits)
next
  case (Suc j)
  from Suc.prems obtain st1 where "passes e (Suc j) (iter + 1) st1 = Some (iter', st')"
    by (subst (asm) passes.simps(2)) (auto split: if_splits option.splits)
  then show ?case by (rule Suc.IH)
qed

lemma solverLoop_terminates:
  assumes "\<forall>k it' st'. passes e k iter st = Some (it', st') \<and>
              deltaDErrorNorm st' > errorTol \<and> it' < maxIter \<longrightarrow> outerBody e st' \<noteq> None"
    and "iter \<le> maxIter"
  shows "\<exists>k st'. iter + k \<le> maxIter \<and> passes e k iter st = Some (iter + k, st') \<and>
           \<not> (deltaDErrorNorm st' > errorTol \<and> iter + k < maxIter) \<and>
           solverLoop e iter st = Some (iter + k, st')"
  using assms
proof (induction e iter st rule: solverLoop.induct)
  case (1 e iter st)
  show ?case
  proof (cases "deltaDErrorNorm st > errorTol \<and> iter < maxIter")
    case True
    have "outerBody e st \<noteq> None"
      using "1.prems"(1)[rule_format, of 0 iter st] True by simp
    then obtain st1 where o: "outerBody e st = Some st1" by auto
    have h: "\<forall>k it' st'. passes e k (iter + 1) st1 = Some (it', st') \<and>
              deltaDErrorNorm st' > errorTol \<and> it' < maxIter \<longrightarrow> outerBody e st' \<noteq> None"
    proof (intro allI impI)
      fix k it' st'
      assume a: "passes e k (iter + 1) st1 = Some (it', st') \<and>
              deltaDErrorNorm st' > errorTol \<and> it' < maxIter"
      then have "passes e (Suc k) iter st = Some (it', st')"
        using passes_Suc_first[OF True o] by simp
      then show "outerBody e st' \<noteq> None"
        using "1.prems"(1)[rule_format, of "Suc k" it' st'] a by blast
    qed
    have le: "iter + 1 \<le> maxIter" using True by simp
    obtain k st' where k: "iter + 1 + k \<le> maxIter"
      "passes e k (iter + 1) st1 = Some (iter + 1 + k, st')"
      "\<not> (deltaDErrorNorm st' > errorTol \<and> iter + 1 + k < maxIter)"
      "solverLoop e (iter + 1) st1 = Some (iter + 1 + k, st')"
      using "1.IH"[OF True o h le] by blast
    have "passes e (Suc k) iter st = Some (iter + Suc k, st')"
      using passes_Suc_first[OF True o, of k] k(2) by simp
    moreover have "solverLoop e iter st = Some (iter + Suc k, st')"
      using True o k(4) by (subst solverLoop.simps) simp
    ultimately show ?thesis
      using k(1,3) by (intro exI[of _ "Suc k"] exI[of _ st']) simp
  next
    case False
    have "solverLoop e iter st = Some (iter, st)"
      using False by (subst solverLoop.simps) auto
    then show ?thesis
      using False "1.prems"(2) by (intro exI[of _ 0] exI[of _ st]) simp
  qed
qed

text \<open>
  C8. Provided that every inner loop which a run of \<^verbatim>\<open>iterativeOptimization\<close> enters
  ends, the run ends: the outer loop makes some number \<open>k\<close> of passes, at most
  \<open>maxIter = 1000\<close>; before each of them the change of the accepted norm was above
  \<open>errorTol = 1e-4\<close>, and after the last one it is at most \<open>errorTol\<close>, unless \<open>k\<close> is
  1000; the change is \<open>|currentDErrorNorm - previousDErrorNorm|\<close> once a pass has been
  made. The call then returns the status 0 in either case, with the vector \<open>results\<close>
  of the last pass, which it has applied to the model once after the loop.
\<close>

theorem solver_terminates:
  assumes "\<forall>k iter st. passes e k 0 (initialSolver e rs m t) = Some (iter, st) \<and>
              deltaDErrorNorm st > errorTol \<and> iter < maxIter \<and>
              tempDErrorNorm (solveStep e st) > previousDErrorNorm (solveStep e st) \<longrightarrow>
              backtrack e (solveStep e st) \<noteq> None"
  shows "\<exists>k st. k \<le> 1000 \<and>
           passes e k 0 (initialSolver e rs m t) = Some (k, st) \<and>
           (deltaDErrorNorm st \<le> 1 / 10000 \<or> k = 1000) \<and>
           (0 < k \<longrightarrow> deltaDErrorNorm st = \<bar>currentDErrorNorm st - previousDErrorNorm st\<bar>) \<and>
           solverLoop e 0 (initialSolver e rs m t) = Some (k, st) \<and>
           iterativeOptimization e rs m t =
             Some (0, results st, applyParameters e (target st) (results st) (model st),
                   snd (snd (snd (finishSolver e st))))"
proof -
  let ?s0 = "initialSolver e rs m t"
  have h: "\<forall>k it' st'. passes e k 0 ?s0 = Some (it', st') \<and>
              deltaDErrorNorm st' > errorTol \<and> it' < maxIter \<longrightarrow> outerBody e st' \<noteq> None"
    using assms by (simp add: outerBody_None) blast
  obtain k st where k: "0 + k \<le> maxIter" "passes e k 0 ?s0 = Some (0 + k, st)"
    "\<not> (deltaDErrorNorm st > errorTol \<and> 0 + k < maxIter)"
    "solverLoop e 0 ?s0 = Some (0 + k, st)"
    using solverLoop_terminates[OF h] by blast
  have d: "deltaDErrorNorm st = \<bar>currentDErrorNorm st - previousDErrorNorm st\<bar>" if pos: "0 < k"
  proof -
    obtain j where j: "k = Suc j" using pos by (cases k) simp_all
    obtain s where "outerBody e s = Some st"
      using passes_last[OF k(2)[unfolded j]] by blast
    then show ?thesis by (rule outerBody_delta)
  qed
  have f: "finishSolver e st =
      (0, results st, applyParameters e (target st) (results st) (model st),
       snd (snd (snd (finishSolver e st))))"
    by (simp add: finishSolver_def Let_def split: prod.splits)
  have "iterativeOptimization e rs m t = Some (finishSolver e st)"
    by (simp add: iterativeOptimization_def k(4))
  then show ?thesis
    using k d f by (intro exI[of _ k] exI[of _ st]) (auto simp: maxIter_def errorTol_def)
qed

lemma ex_passes:
  "passes exEngine 0 0 exS0 = Some (0, exS0)"
  "passes exEngine (Suc 0) 0 exS0 = Some (1, exS1)"
  "passes exEngine (Suc (Suc 0)) 0 exS0 = Some (2, exS2)"
  "passes exEngine (Suc (Suc (Suc k))) 0 exS0 = None"
proof -
  have d: "deltaDErrorNorm exS0 = 100" "deltaDErrorNorm exS1 = 1" "deltaDErrorNorm exS2 = 0"
    by (simp_all add: exS0_def exS1_def exS2_def)
  show "passes exEngine 0 0 exS0 = Some (0, exS0)" by simp
  show "passes exEngine (Suc 0) 0 exS0 = Some (1, exS1)"
    by (simp add: d errorTol_def maxIter_def ex_pass0)
  show "passes exEngine (Suc (Suc 0)) 0 exS0 = Some (2, exS2)"
    by (simp add: d errorTol_def maxIter_def ex_pass0 ex_pass1)
  show "passes exEngine (Suc (Suc (Suc k))) 0 exS0 = None"
    by (simp add: d errorTol_def maxIter_def ex_pass0 ex_pass1)
qed

lemma ex_inner_loops:
  "\<forall>k iter st. passes exEngine k 0 (initialSolver exEngine exGuess exModel exTarget) = Some (iter, st) \<and>
              deltaDErrorNorm st > errorTol \<and> iter < maxIter \<and>
              tempDErrorNorm (solveStep exEngine st) > previousDErrorNorm (solveStep exEngine st) \<longrightarrow>
              backtrack exEngine (solveStep exEngine st) \<noteq> None"
proof (intro allI impI)
  fix k iter st
  assume a: "passes exEngine k 0 (initialSolver exEngine exGuess exModel exTarget) = Some (iter, st) \<and>
              deltaDErrorNorm st > errorTol \<and> iter < maxIter \<and>
              tempDErrorNorm (solveStep exEngine st) > previousDErrorNorm (solveStep exEngine st)"
  have t0: "tempDErrorNorm (solveStep exEngine exS0) = 0"
    "previousDErrorNorm (solveStep exEngine exS0) = 1"
    unfolding ex_solve0 by (simp_all add: exS1_def)
  have t1: "tempDErrorNorm (solveStep exEngine exS1) = 0"
    "previousDErrorNorm (solveStep exEngine exS1) = 0"
    unfolding ex_solve1 by (simp_all add: exS2_def)
  have t2: "deltaDErrorNorm exS2 = 0"
    by (simp add: exS2_def)
  have p: "passes exEngine k 0 exS0 = Some (iter, st)"
    using a unfolding ex_initial by blast
  have g: "deltaDErrorNorm st > errorTol"
    "tempDErrorNorm (solveStep exEngine st) > previousDErrorNorm (solveStep exEngine st)"
    using a by blast+
  have "k = 0 \<or> k = Suc 0 \<or> k = Suc (Suc 0) \<or> (\<exists>j. k = Suc (Suc (Suc j)))"
    by presburger
  then consider "k = 0" | "k = Suc 0" | "k = Suc (Suc 0)" | j where "k = Suc (Suc (Suc j))"
    by blast
  then have False
  proof cases
    case 1
    have "st = exS0" using p unfolding 1 ex_passes by simp
    with g(2) t0 show False by simp
  next
    case 2
    have "st = exS1" using p unfolding 2 ex_passes by simp
    with g(2) t1 show False by simp
  next
    case 3
    have "st = exS2" using p unfolding 3 ex_passes by simp
    with g(1) t2 show False by (simp add: errorTol_def)
  next
    case 4
    show False using p unfolding 4 ex_passes by simp
  qed
  then show "backtrack exEngine (solveStep exEngine st) \<noteq> None" ..
qed

theorem solver_terminates_witness:
  "passes exEngine 2 0 (initialSolver exEngine exGuess exModel exTarget) = Some (2, exS2) \<and>
   (2::nat) \<le> 1000 \<and> deltaDErrorNorm exS2 \<le> 1 / 10000 \<and>
   deltaDErrorNorm exS2 = \<bar>currentDErrorNorm exS2 - previousDErrorNorm exS2\<bar> \<and>
   solverLoop exEngine 0 (initialSolver exEngine exGuess exModel exTarget) = Some (2, exS2) \<and>
   iterativeOptimization exEngine exGuess exModel exTarget =
     Some (0, results exS2, applyParameters exEngine (target exS2) (results exS2) (model exS2),
           snd (snd (snd (finishSolver exEngine exS2))))"
proof -
  let ?s0 = "initialSolver exEngine exGuess exModel exTarget"
  obtain k st where r: "k \<le> 1000 \<and> passes exEngine k 0 ?s0 = Some (k, st) \<and>
    (deltaDErrorNorm st \<le> 1 / 10000 \<or> k = 1000) \<and>
    (0 < k \<longrightarrow> deltaDErrorNorm st = \<bar>currentDErrorNorm st - previousDErrorNorm st\<bar>) \<and>
    solverLoop exEngine 0 ?s0 = Some (k, st) \<and>
    iterativeOptimization exEngine exGuess exModel exTarget =
       Some (0, results st, applyParameters exEngine (target st) (results st) (model st),
             snd (snd (snd (finishSolver exEngine st))))"
    using solver_terminates[OF ex_inner_loops] by (elim exE)
  note r1 = r[THEN conjunct1]
  note r2 = r[THEN conjunct2, THEN conjunct1]
  note r4 = r[THEN conjunct2, THEN conjunct2, THEN conjunct2, THEN conjunct1]
  note r5 = r[THEN conjunct2, THEN conjunct2, THEN conjunct2, THEN conjunct2, THEN conjunct1]
  note r6 = r[THEN conjunct2, THEN conjunct2, THEN conjunct2, THEN conjunct2, THEN conjunct2]
  have "Some (k, st) = Some (2, exS2)"
    using r5 unfolding ex_initial ex_loop by (rule sym)
  then have k: "k = 2" "st = exS2" by simp_all
  have z: "deltaDErrorNorm exS2 \<le> 1 / 10000" by (simp add: exS2_def)
  have p: "(0::nat) < 2" by simp
  show ?thesis
    using r1 r2 r4[rule_format] r5 r6 z p unfolding k by (intro conjI)
qed

subsection \<open>A coordinate with weight 0 and a value from file\<close>

lemma infoAt_withExperimentalValue:
  "coord (infoAt (withExperimentalValue t p v) q) = coord (infoAt t q)"
  "weight (infoAt (withExperimentalValue t p v) q) = weight (infoAt t q)"
  "q \<noteq> p \<Longrightarrow> infoAt (withExperimentalValue t p v) q = infoAt t q"
proof -
  show "coord (infoAt (withExperimentalValue t p v) q) = coord (infoAt t q)"
    by (cases "p < length (infos t)"; cases "q = p")
       (simp_all add: withExperimentalValue_def infoAt_def list_update_beyond)
  show "weight (infoAt (withExperimentalValue t p v) q) = weight (infoAt t q)"
    by (cases "p < length (infos t)"; cases "q = p")
       (simp_all add: withExperimentalValue_def infoAt_def list_update_beyond)
  show "q \<noteq> p \<Longrightarrow> infoAt (withExperimentalValue t p v) q = infoAt t q"
    by (simp add: withExperimentalValue_def infoAt_def)
qed

lemma withExperimentalValue_fields [simp]:
  "markers (withExperimentalValue t p v) = markers t"
  "unprescribedQs (withExperimentalValue t p v) = unprescribedQs t"
  "unprescribedWeightedQs (withExperimentalValue t p v) = unprescribedWeightedQs t"
  "numParameters (withExperimentalValue t p v) = numParameters t"
  "interrupted (withExperimentalValue t p v) = interrupted t"
  "printPerformanceValues (withExperimentalValue t p v) = printPerformanceValues t"
  "calcDerivs (withExperimentalValue t p v) = calcDerivs t"
  by (simp_all add: withExperimentalValue_def)

lemma withExperimentalValue_markers:
  "(withExperimentalValue t p v)\<lparr>markers := ms\<rparr> = withExperimentalValue (t\<lparr>markers := ms\<rparr>) p v"
  by (simp add: withExperimentalValue_def)

lemma applyParameters_withExperimentalValue:
  "applyParameters e (withExperimentalValue t p v) x m = applyParameters e t x m"
  by (simp add: applyParameters_def infoAt_withExperimentalValue)

lemma objectiveCoordinates_withExperimentalValue:
  "p \<notin> set ps \<Longrightarrow>
   objectiveCoordinates e m (withExperimentalValue t p v) i ps acc =
   objectiveCoordinates e m t i ps acc"
  by (induction ps arbitrary: i acc)
     (auto simp: infoAt_withExperimentalValue Let_def split: prod.splits)

lemma reportErrors_withExperimentalValue:
  "reportErrors e m a b c d (withExperimentalValue t p v) =
   withExperimentalValue (reportErrors e m a b c d t) p v"
  by (simp add: reportErrors_def setErrorReportingQuantities_def infoAt_withExperimentalValue)
     (simp add: withExperimentalValue_def)

lemma objectiveFunc_withExperimentalValue:
  assumes "p \<notin> set (unprescribedWeightedQs t)"
  shows "objectiveFunc e x m (withExperimentalValue t p v) =
     (case objectiveFunc e x m t of
        Inl a \<Rightarrow> Inl a
      | Inr (status, f, m1, t1) \<Rightarrow> Inr (status, f, m1, withExperimentalValue t1 p v))"
proof -
  let ?m = "applyParameters e t x m"
  obtain ms tw tm mx w where o: "objectiveMarkers e ?m 0 (markers t) [] (0, 0, 0, -1) = (ms, tw, tm, mx, w)"
    by (metis prod_cases5)
  obtain tw' tc mc wc where c: "objectiveCoordinates e ?m (t\<lparr>markers := ms\<rparr>) 0
      (unprescribedWeightedQs t) (tw, 0, 0, -1) = (tw', tc, mc, wc)"
    by (metis prod_cases4)
  have c': "objectiveCoordinates e ?m (withExperimentalValue (t\<lparr>markers := ms\<rparr>) p v) 0
      (unprescribedWeightedQs t) (tw, 0, 0, -1) = (tw', tc, mc, wc)"
    unfolding objectiveCoordinates_withExperimentalValue[OF assms] by (rule c)
  show ?thesis
    by (simp add: objectiveFunc_def Let_def applyParameters_withExperimentalValue o
        withExperimentalValue_markers c c' reportErrors_withExperimentalValue)
qed

lemma residualCoordinates_withExperimentalValue:
  assumes "weight (infoAt t p) = 0"
  shows "residualCoordinates e m (withExperimentalValue t p v) dE = residualCoordinates e m t dE"
proof -
  have "residualCoordinateStep e m (withExperimentalValue t p v) i s =
        residualCoordinateStep e m t i s" for i s
  proof (cases "unprescribedQs t ! i = p")
    case True
    then show ?thesis
      using assms
      by (cases s) (simp add: residualCoordinateStep_def Let_def infoAt_withExperimentalValue)
  next
    case False
    then show ?thesis
      by (cases s) (simp add: residualCoordinateStep_def Let_def infoAt_withExperimentalValue)
  qed
  then have "residualCoordinateStep e m (withExperimentalValue t p v) =
        residualCoordinateStep e m t" by (intro ext)
  then show ?thesis by (simp add: residualCoordinates_def)
qed

lemma evaluateDError_withExperimentalValue:
  assumes "weight (infoAt t p) = 0"
  shows "dError (evaluateDError e x (st\<lparr>target := withExperimentalValue t p v\<rparr>)) =
         dError (evaluateDError e x (st\<lparr>target := t\<rparr>))"
proof -
  have w: "weight (infoAt (t\<lparr>markers := ms\<rparr>) p) = 0" for ms using assms by simp
  show ?thesis
    by (simp add: evaluateDError_dError Let_def applyParameters_withExperimentalValue
        withExperimentalValue_markers residualCoordinates_withExperimentalValue[OF w])
qed

lemma sameCoordinates_column:
  assumes "sameCoordinates t t'" and "p < length (infos t)"
  shows "experimentalColumn (infoAt t' p) = experimentalColumn (infoAt t p)"
    and "weight (infoAt t' p) = weight (infoAt t p)"
proof -
  let ?f = "\<lambda>c::coordinateInfo. c\<lparr>experimentalValue := 0\<rparr>"
  have e: "map ?f (infos t') = map ?f (infos t)"
    using assms(1) by (simp add: sameCoordinates_def)
  then have l: "length (infos t') = length (infos t)"
    by (metis length_map)
  have "map ?f (infos t') ! p = map ?f (infos t) ! p" by (simp add: e)
  then have "?f (infos t' ! p) = ?f (infos t ! p)" using assms(2) l by simp
  then have "experimentalColumn (?f (infos t' ! p)) = experimentalColumn (?f (infos t ! p))"
    and "weight (?f (infos t' ! p)) = weight (?f (infos t ! p))" by simp_all
  then show "experimentalColumn (infoAt t' p) = experimentalColumn (infoAt t p)"
    and "weight (infoAt t' p) = weight (infoAt t p)" by (simp_all add: infoAt_def)
qed

lemma prepareToSolve_unprescribedStep_guess:
  "fst (prepareToSolve_unprescribedStep e m dataRow i (qGuess, t)) =
     qGuess[i := (if experimentalColumn (infoAt t (unprescribedQs t ! i)) \<ge> 0
                  then dataRow (experimentalColumn (infoAt t (unprescribedQs t ! i)))
                  else getValue e m (coord (infoAt t (unprescribedQs t ! i))))]"
  by (simp add: prepareToSolve_unprescribedStep_def Let_def)

lemma fold_prepareToSolve_unprescribedStep_guess:
  "length (fst (fold (prepareToSolve_unprescribedStep e m dataRow) is (qGuess, t))) = length qGuess \<and>
   (j \<notin> set is \<longrightarrow>
      fst (fold (prepareToSolve_unprescribedStep e m dataRow) is (qGuess, t)) ! j = qGuess ! j)"
proof (induction "is" arbitrary: qGuess t)
  case Nil
  show ?case by simp
next
  case (Cons i "is")
  obtain q1 t1 where s: "prepareToSolve_unprescribedStep e m dataRow i (qGuess, t) = (q1, t1)"
    by (cases "prepareToSolve_unprescribedStep e m dataRow i (qGuess, t)")
  have q1: "length q1 = length qGuess" "j \<noteq> i \<Longrightarrow> q1 ! j = qGuess ! j"
    using prepareToSolve_unprescribedStep_guess[of e m dataRow i qGuess t] by (simp_all add: s)
  show ?case
    using Cons.IH[where qGuess = q1 and t = t1] q1 by (simp add: s)
qed

lemma prepareToSolve_guess:
  assumes p: "partitioned t" and i: "i < numParameters t" and l: "length qGuess = numParameters t"
    and c: "experimentalColumn (infoAt t (unprescribedQs t ! i)) \<ge> 0"
    and r: "prepareToSolve e dataRow qGuess m t = (qGuess', m', t')"
  shows "qGuess' ! i = dataRow (experimentalColumn (infoAt t (unprescribedQs t ! i)))"
proof -
  let ?m = "prepareToSolve_prescribed e dataRow t m"
  let ?step = "prepareToSolve_unprescribedStep e ?m dataRow"
  let ?p = "unprescribedQs t ! i"
  have n: "numParameters t = length (unprescribedQs t)"
    using p by (simp add: partitioned_def)
  have pl: "?p < length (infos t)"
  proof -
    have "?p \<in> set (unprescribedQs t)" using i n by simp
    then show ?thesis using p by (auto simp: partitioned_def)
  qed
  obtain q1 t1 where f1: "fold ?step [0..<i] (qGuess, t) = (q1, t1)"
    by (cases "fold ?step [0..<i] (qGuess, t)")
  have s1: "sameCoordinates t t1"
    using fold_prepareToSolve_unprescribedStep_same[of t e ?m dataRow "[0..<i]" qGuess]
    by (simp add: f1)
  have l1: "length q1 = length qGuess"
    using fold_prepareToSolve_unprescribedStep_guess[of e ?m dataRow "[0..<i]" qGuess t]
    by (simp add: f1)
  have u1: "unprescribedQs t1 = unprescribedQs t"
    using s1 by (simp add: sameCoordinates_def)
  obtain q2 t2 where f2: "?step i (q1, t1) = (q2, t2)"
    by (cases "?step i (q1, t1)")
  have q2: "q2 = q1[i := dataRow (experimentalColumn (infoAt t ?p))]"
    using prepareToSolve_unprescribedStep_guess[of e ?m dataRow i q1 t1] c
    by (simp add: f2 u1 sameCoordinates_column(1)[OF s1 pl])
  obtain q3 t3 where f3: "fold ?step [Suc i..<numParameters t] (q2, t2) = (q3, t3)"
    by (cases "fold ?step [Suc i..<numParameters t] (q2, t2)")
  have q3: "q3 ! i = q2 ! i"
    using fold_prepareToSolve_unprescribedStep_guess[of e ?m dataRow
        "[Suc i..<numParameters t]" q2 t2 i]
    by (simp add: f3)
  have "fold ?step [0..<length (unprescribedQs t)] (qGuess, t) = (q3, t3)"
    unfolding n[symmetric] upt_split[OF i] by (simp add: f1 f2 f3)
  then have "qGuess' = q3"
    using r by (simp add: prepareToSolve_def Let_def)
  then show ?thesis
    using q3 q2 l1 l i by simp
qed

text \<open>
  C9. In an object built by the constructor, at any time of its life, let parameter \<open>i\<close>
  be an unprescribed coordinate with weight 0 and an experimental column (that is, a
  value from file). Then \<^verbatim>\<open>prepareToSolve\<close> stores the value of that column of the
  frame in \<open>qGuess[i]\<close>; the coordinate is not in \<^verbatim>\<open>_unprescribedWeightedQs\<close>, over which
  the coordinate terms of the objective and the coordinate rows of the residual
  vector range; and neither the result of \<^verbatim>\<open>objectiveFunc\<close> nor the residual vector of
  an evaluation in the solver depends on the experimental value of the coordinate.
\<close>

theorem unweighted_coordinate_guess_only:
  assumes "newIKTarget e m0 rawMarker rawInfo u tasks labels = Inr t0"
    and "lifetime e t0 t"
    and "i < numParameters t" and "length qGuess = numParameters t"
    and "weight (infoAt t (unprescribedQs t ! i)) = 0"
    and "experimentalColumn (infoAt t (unprescribedQs t ! i)) \<ge> 0"
    and "prepareToSolve e dataRow qGuess m t = (qGuess', m', t')"
  shows "qGuess' ! i = dataRow (experimentalColumn (infoAt t (unprescribedQs t ! i))) \<and>
         unprescribedQs t' ! i = unprescribedQs t ! i \<and>
         unprescribedQs t ! i \<notin> set (unprescribedWeightedQs t') \<and>
         (\<forall>v x mm.
            objectiveFunc e x mm (withExperimentalValue t' (unprescribedQs t ! i) v) =
              (case objectiveFunc e x mm t' of
                 Inl a \<Rightarrow> Inl a
               | Inr (status, f, m1, t1) \<Rightarrow>
                   Inr (status, f, m1, withExperimentalValue t1 (unprescribedQs t ! i) v))) \<and>
         (\<forall>v x st.
            dError (evaluateDError e x
                      (st\<lparr>target := withExperimentalValue t' (unprescribedQs t ! i) v\<rparr>)) =
            dError (evaluateDError e x (st\<lparr>target := t'\<rparr>)))"
proof -
  let ?p = "unprescribedQs t ! i"
  have p: "partitioned t" by (rule lifetime_partitioned[OF assms(1,2)])
  have s: "sameCoordinates t t'" by (rule prepareToSolve_same[OF assms(7)])
  have p': "partitioned t'" by (rule partitioned_sameCoordinates[OF s p])
  have n: "numParameters t = length (unprescribedQs t)"
    using p by (simp add: partitioned_def)
  have pl: "?p < length (infos t)"
  proof -
    have "?p \<in> set (unprescribedQs t)" using assms(3) n by simp
    then show ?thesis using p by (auto simp: partitioned_def)
  qed
  have w: "weight (infoAt t' ?p) = 0"
    using sameCoordinates_column(2)[OF s pl] assms(5) by simp
  have u: "unprescribedQs t' = unprescribedQs t"
    using s by (simp add: sameCoordinates_def)
  have nw: "?p \<notin> set (unprescribedWeightedQs t')"
  proof -
    have "unprescribedWeightedQs t' =
        filter (\<lambda>q. weight (infos t' ! q) \<noteq> 0) (unprescribedQs t')"
      using p' by (simp add: partitioned_def)
    then show ?thesis using w by (simp add: infoAt_def)
  qed
  show ?thesis
    using prepareToSolve_guess[OF p assms(3,4,6,7)] u nw
      objectiveFunc_withExperimentalValue[OF nw]
      evaluateDError_withExperimentalValue[OF w]
    by (intro conjI allI) simp_all
qed

theorem unweighted_coordinate_guess_only_witness:
  "newIKTarget exEngine exModel exRawMarker exRawInfo 0 exTasks exLabels = Inr exNew \<and>
   lifetime exEngine exNew exNew \<and>
   1 < numParameters exNew \<and> length [0, 0 :: real] = numParameters exNew \<and>
   weight (infoAt exNew (unprescribedQs exNew ! 1)) = 0 \<and>
   experimentalColumn (infoAt exNew (unprescribedQs exNew ! 1)) \<ge> 0 \<and>
   prepareToSolve exEngine exRow [0, 0] exModel exNew = (exGuess, exModel, exTarget) \<and>
   exGuess ! 1 = exRow (experimentalColumn (infoAt exNew (unprescribedQs exNew ! 1))) \<and>
   unprescribedQs exNew ! 1 \<notin> set (unprescribedWeightedQs exTarget) \<and>
   objectiveFunc exEngine [1, 1] exModel (withExperimentalValue exTarget (unprescribedQs exNew ! 1) 5) =
     Inr (0, 0, [1, 0, 1],
          withExperimentalValue (exTarget\<lparr>markers := exMarkers (1, 1, 0)\<rparr>)
            (unprescribedQs exNew ! 1) 5)"
proof -
  have h: "1 < numParameters exNew" "length [0, 0 :: real] = numParameters exNew"
    "weight (infoAt exNew (unprescribedQs exNew ! 1)) = 0"
    "experimentalColumn (infoAt exNew (unprescribedQs exNew ! 1)) \<ge> 0"
    by (simp_all add: exNew_def exInfos_def infoAt_def)
  note c = unweighted_coordinate_guess_only[OF ex_new lifetime.constructed h ex_bound]
  note c1 = c[THEN conjunct1]
  note c3 = c[THEN conjunct2, THEN conjunct2, THEN conjunct1]
  note c4 = c[THEN conjunct2, THEN conjunct2, THEN conjunct2, THEN conjunct1, rule_format,
      where v = 5 and x = "[1, 1]" and mm = exModel, unfolded ex_objective sum.case prod.case]
  show ?thesis
    using ex_new lifetime.constructed[of exEngine exNew] h ex_bound c1 c3 c4
    by (intro conjI)
qed

subsection \<open>The halved steps of a pass\<close>

lemma outerBody_backtrack:
  "outerBody e st = map_option acceptStep (backtrack e (solveStep e st))"
proof (cases "tempDErrorNorm (solveStep e st) > previousDErrorNorm (solveStep e st)")
  case True
  then show ?thesis
    by (simp add: outerBody_def Let_def split: option.splits)
next
  case False
  then have "backtrack e (solveStep e st) = Some (solveStep e st)"
    by (subst backtrack.simps) simp
  with False show ?thesis
    by (simp add: outerBody_def Let_def)
qed

lemma halveStep_fields:
  "results (halveStep e st) = results st"
  "dQ (halveStep e st) = map (\<lambda>v. v * (1 / 2)) (dQ st)"
  "J (halveStep e st) = J st"
  "currentDErrorNorm (halveStep e st) = currentDErrorNorm st"
  by (simp_all add: halveStep_def Let_def evaluateDError_fields)

lemma solveStep_results: "results (solveStep e st) = results st"
  by (simp add: solveStep_def Let_def evaluateDError_fields split: prod.splits)

lemma halved_fields:
  "previousDErrorNorm ((halveStep e ^^ k) s) = previousDErrorNorm s"
  "results ((halveStep e ^^ k) s) = results s"
  "dQ ((halveStep e ^^ k) s) = map (\<lambda>v. v * (1 / 2) ^ k) (dQ s)"
  by (induction k) (simp_all add: halveStep_norms halveStep_fields mult.assoc)

lemma halved_frame: "frame (target s) (target ((halveStep e ^^ k) s))"
proof (induction k)
  case 0
  show ?case by (simp add: frame_refl)
next
  case (Suc k)
  from frame_trans[OF Suc frame_halveStep] show ?case by simp
qed

lemma halved_norm:
  "tempDErrorNorm s = norm_col (dError s) \<Longrightarrow>
   tempDErrorNorm ((halveStep e ^^ k) s) = norm_col (dError ((halveStep e ^^ k) s))"
  by (cases k) (simp_all add: halveStep_norms)

lemma backtrack_halved:
  assumes "backtrack e s = Some s'"
  shows "\<exists>k. s' = (halveStep e ^^ k) s \<and> \<not> tempDErrorNorm s' > previousDErrorNorm s \<and>
           (\<forall>j<k. tempDErrorNorm ((halveStep e ^^ j) s) > previousDErrorNorm s)"
  using assms
proof (induct rule: backtrack_induct)
  case (step bt e s s')
  show ?case
  proof (cases "tempDErrorNorm s > previousDErrorNorm s")
    case True
    with step(2) have "bt e (halveStep e s) = Some s'" by simp
    from step(1)[OF this] obtain k where k: "s' = (halveStep e ^^ k) (halveStep e s)"
      "\<not> tempDErrorNorm s' > previousDErrorNorm s"
      "\<forall>j<k. tempDErrorNorm ((halveStep e ^^ j) (halveStep e s)) > previousDErrorNorm s"
      by (auto simp: halveStep_norms)
    have "\<forall>j<Suc k. tempDErrorNorm ((halveStep e ^^ j) s) > previousDErrorNorm s"
    proof (intro allI impI)
      fix j assume "j < Suc k"
      then show "tempDErrorNorm ((halveStep e ^^ j) s) > previousDErrorNorm s"
        using True k(3) by (cases j) (simp_all add: funpow_swap1)
    qed
    moreover have "s' = (halveStep e ^^ Suc k) s"
      using k(1) by (simp add: funpow_swap1)
    ultimately show ?thesis using k(2) by blast
  next
    case False
    with step(2) have "s' = s" by simp
    with False have "s' = (halveStep e ^^ 0) s \<and> \<not> tempDErrorNorm s' > previousDErrorNorm s \<and>
           (\<forall>j<0. tempDErrorNorm ((halveStep e ^^ j) s) > previousDErrorNorm s)"
      by simp
    then show ?thesis by blast
  qed
qed

lemma halved_backtrack:
  "\<not> tempDErrorNorm ((halveStep e ^^ k) s) > previousDErrorNorm s \<Longrightarrow>
   \<forall>j<k. tempDErrorNorm ((halveStep e ^^ j) s) > previousDErrorNorm s \<Longrightarrow>
   backtrack e s = Some ((halveStep e ^^ k) s)"
proof (induction k arbitrary: s)
  case 0
  then show ?case by (subst backtrack.simps) simp
next
  case (Suc k)
  from Suc.prems(2) have t: "tempDErrorNorm s > previousDErrorNorm s" by force
  have a: "\<not> tempDErrorNorm ((halveStep e ^^ k) (halveStep e s)) > previousDErrorNorm (halveStep e s)"
    using Suc.prems(1) by (simp add: funpow_swap1 halveStep_norms)
  have b: "\<forall>j<k. tempDErrorNorm ((halveStep e ^^ j) (halveStep e s)) > previousDErrorNorm (halveStep e s)"
  proof (intro allI impI)
    fix j assume "j < k"
    then have "Suc j < Suc k" by simp
    with Suc.prems(2) have "tempDErrorNorm ((halveStep e ^^ Suc j) s) > previousDErrorNorm s"
      by blast
    then show "tempDErrorNorm ((halveStep e ^^ j) (halveStep e s)) > previousDErrorNorm (halveStep e s)"
      by (simp add: funpow_swap1 halveStep_norms)
  qed
  from Suc.IH[OF a b] t show ?case
    by (subst backtrack.simps) (simp add: funpow_swap1)
qed

lemma outerBody_halved:
  "outerBody e st = Some st' \<longleftrightarrow>
     (\<exists>k. st' = acceptStep (trialStep e st k) \<and>
          tempDErrorNorm (trialStep e st k) \<le> currentDErrorNorm st \<and>
          (\<forall>j<k. tempDErrorNorm (trialStep e st j) > currentDErrorNorm st))"
proof
  assume "outerBody e st = Some st'"
  then obtain s5 where b: "backtrack e (solveStep e st) = Some s5" and a: "st' = acceptStep s5"
    by (auto simp: outerBody_backtrack)
  from backtrack_halved[OF b] obtain k where k: "s5 = (halveStep e ^^ k) (solveStep e st)"
    "\<not> tempDErrorNorm s5 > previousDErrorNorm (solveStep e st)"
    "\<forall>j<k. tempDErrorNorm ((halveStep e ^^ j) (solveStep e st)) > previousDErrorNorm (solveStep e st)"
    by blast
  have "st' = acceptStep (trialStep e st k) \<and>
          tempDErrorNorm (trialStep e st k) \<le> currentDErrorNorm st \<and>
          (\<forall>j<k. tempDErrorNorm (trialStep e st j) > currentDErrorNorm st)"
    using a k by (simp add: trialStep_def solveStep_norms)
  then show "\<exists>k. st' = acceptStep (trialStep e st k) \<and>
          tempDErrorNorm (trialStep e st k) \<le> currentDErrorNorm st \<and>
          (\<forall>j<k. tempDErrorNorm (trialStep e st j) > currentDErrorNorm st)" ..
next
  assume "\<exists>k. st' = acceptStep (trialStep e st k) \<and>
          tempDErrorNorm (trialStep e st k) \<le> currentDErrorNorm st \<and>
          (\<forall>j<k. tempDErrorNorm (trialStep e st j) > currentDErrorNorm st)"
  then obtain k where k: "st' = acceptStep (trialStep e st k)"
    "tempDErrorNorm (trialStep e st k) \<le> currentDErrorNorm st"
    "\<forall>j<k. tempDErrorNorm (trialStep e st j) > currentDErrorNorm st"
    by blast
  have "backtrack e (solveStep e st) = Some ((halveStep e ^^ k) (solveStep e st))"
    using k(2,3) by (intro halved_backtrack) (simp_all add: trialStep_def solveStep_norms)
  then show "outerBody e st = Some st'"
    by (simp add: outerBody_backtrack k(1) trialStep_def)
qed


lemma trialStep_numParameters:
  "numParameters (target (trialStep e st k)) = numParameters (target st)"
proof -
  have "frame (target st) (target (trialStep e st k))"
    unfolding trialStep_def by (rule frame_trans[OF frame_solveStep halved_frame])
  then have "fixedPart (target (trialStep e st k)) = fixedPart (target st)"
    by (simp add: frame_def)
  from fixedPart_fields(5)[OF this] show ?thesis .
qed

lemma trialStep_fields:
  "trialStep e st 0 = solveStep e st"
  "dQ (trialStep e st i) = map (\<lambda>v. v * (1 / 2) ^ i) (dQ (solveStep e st))"
  "tempDErrorNorm (trialStep e st i) = norm_col (dError (trialStep e st i))"
  "results (trialStep e st i) = results st"
  "previousDErrorNorm (trialStep e st i) = currentDErrorNorm st"
  by (simp_all add: trialStep_def halved_fields halved_norm solveStep_norms solveStep_results)

lemma trialStep_Suc:
  "trialStep e st (Suc i) =
     (let s = (trialStep e st i)\<lparr>dQ := map (\<lambda>v. v * (1 / 2) ^ Suc i) (dQ (solveStep e st))\<rparr>;
          s' = evaluateDError e (trialValues (results st) (dQ s) (numParameters (target st))) s
      in s'\<lparr>tempDErrorNorm := norm_col (dError s')\<rparr>)"
proof -
  have "trialStep e st (Suc i) = halveStep e (trialStep e st i)"
    by (simp add: trialStep_def)
  also have "\<dots> =
     (let s = (trialStep e st i)\<lparr>dQ := map (\<lambda>v. v * (1 / 2) ^ Suc i) (dQ (solveStep e st))\<rparr>;
          s' = evaluateDError e (trialValues (results st) (dQ s) (numParameters (target st))) s
      in s'\<lparr>tempDErrorNorm := norm_col (dError s')\<rparr>)"
    by (simp add: halveStep_def Let_def trialStep_fields trialStep_numParameters mult.assoc o_def)
  finally show ?thesis .
qed

lemma outerBody_norms:
  assumes "outerBody e st = Some st'"
  shows "currentDErrorNorm st' \<le> previousDErrorNorm st'"
    "previousDErrorNorm st' = currentDErrorNorm st"
    "currentDErrorNorm st' = norm_col (dError st')"
    "results st' = trialValues (results st) (dQ st') (length (results st))"
proof -
  from assms obtain k where k: "st' = acceptStep (trialStep e st k)"
    "tempDErrorNorm (trialStep e st k) \<le> currentDErrorNorm st"
    unfolding outerBody_halved by blast
  show "currentDErrorNorm st' \<le> previousDErrorNorm st'"
    using k(2) by (simp add: k(1) acceptStep_def trialStep_fields(3)[symmetric] trialStep_fields(5))
  show "previousDErrorNorm st' = currentDErrorNorm st"
    by (simp add: k(1) acceptStep_def trialStep_fields(5))
  show "currentDErrorNorm st' = norm_col (dError st')"
    by (simp add: k(1) acceptStep_def)
  show "results st' = trialValues (results st) (dQ st') (length (results st))"
    by (simp add: k(1) acceptStep_def trialStep_fields(4))
qed

lemma passes_norm:
  "passes e n iter st = Some (iter', st') \<Longrightarrow> currentDErrorNorm st' \<le> currentDErrorNorm st"
proof (induction n arbitrary: iter st)
  case 0
  then show ?case by simp
next
  case (Suc n)
  from Suc.prems obtain s1 where o: "outerBody e st = Some s1"
    and p: "passes e n (iter + 1) s1 = Some (iter', st')"
    by (auto split: if_splits option.splits)
  from outerBody_norms(1,2)[OF o] have "currentDErrorNorm s1 \<le> currentDErrorNorm st" by simp
  with Suc.IH[OF p] show ?case by simp
qed


lemma ex_bent_initial: "initialSolver exBent exGuess exModel exTarget = exS0"
  by (simp add: initialSolver_def exS0_def exBent_def ex_defs eval_defs)

lemma ex_bent_jacobian:
  "createJacobian exBent (target exS0) (results exS0) (model exS0) (J exS0) = ([1, 0, 0], exJ)"
  by (simp add: exS0_def exJ_def exBent_def ex_defs jacobian_defs)

lemma ex_bent_solve: "solveStep exBent exS0 = exB0"
proof -
  have t: "target exS0 = exTarget\<lparr>markers := exMarkers (1, 0, 0)\<rparr>"
    and d: "dError exS0 = [0, 1, 0, 0, 0, 0, 0]"
    by (simp_all add: exS0_def)
  have n: "numParameters (target exS0) = 2" "residualSize (target exS0) = 7"
    by (simp_all add: t exTarget_def exNew_def exMarkers_def residualSize_def)
  have g: "dgelsy exBent = exDgelsy" by (simp add: exBent_def exEngine_def)
  have "solveStep exBent exS0 =
      (let st2 = exS0\<lparr>previousDErrorNorm := 1, model := [1, 0, 0], J := exJ, dQ := [0, 1], rank := 2\<rparr>;
           st3 = evaluateDError exBent [1, 1] st2
       in st3\<lparr>tempDErrorNorm := norm_col (dError st3)\<rparr>)"
    apply (simp only: solveStep_def)
    apply (simp add: ex_bent_jacobian n g ex_dgelsy0 d trialValues_def upt_rec)
    apply (simp add: exS0_def)
    done
  also have "\<dots> = exB0"
    by (simp add: exS0_def exB0_def exBent_def ex_defs eval_defs)
  finally show ?thesis .
qed

lemma ex_bent_halve:
  "halveStep exBent exB0 = exB1\<lparr>results := [1, 0], currentDErrorNorm := 1, deltaDErrorNorm := 100\<rparr>"
proof -
  have q: "sqrt (1 / 4) = 1 / 2"
    by (simp add: real_sqrt_divide)
  have "halveStep exBent exB0 =
      (let st1 = exB0\<lparr>dQ := [0, 1 / 2]\<rparr>;
           st2 = evaluateDError exBent [1, 1 / 2] st1
       in st2\<lparr>tempDErrorNorm := norm_col (dError st2)\<rparr>)"
    by (simp add: halveStep_def exB0_def exTarget_def exNew_def trialValues_def upt_rec)
  also have "\<dots> = exB1\<lparr>results := [1, 0], currentDErrorNorm := 1, deltaDErrorNorm := 100\<rparr>"
    by (simp add: exB0_def exB1_def exBent_def ex_defs eval_defs q)
  finally show ?thesis .
qed

lemma ex_bent_trials:
  "trialStep exBent exS0 0 = exB0"
  "trialStep exBent exS0 (Suc 0) =
     exB1\<lparr>results := [1, 0], currentDErrorNorm := 1, deltaDErrorNorm := 100\<rparr>"
  by (simp_all add: trialStep_def ex_bent_solve ex_bent_halve)

lemma ex_bent_accept:
  "acceptStep (exB1\<lparr>results := [1, 0], currentDErrorNorm := 1, deltaDErrorNorm := 100\<rparr>) = exB1"
proof -
  have q: "sqrt (1 / 4) = 1 / 2"
    by (simp add: real_sqrt_divide)
  show ?thesis
    by (simp add: exB1_def acceptStep_def norm_col_def trialValues_def upt_rec q)
qed

text \<open>
  C5. A pass of the outer loop of \<^verbatim>\<open>iterativeOptimization\<close> ends exactly when some number
  \<open>k\<close> of halvings brings the trial norm down to the norm that the pass before had
  accepted, and it ends with the first such \<open>k\<close>: the trial step is the one of the
  least-squares solution, every halving multiplies \<^verbatim>\<open>dQ\<close> by 1/2 and evaluates the
  residual vector again at \<^verbatim>\<open>results\<close> plus the halved \<^verbatim>\<open>dQ\<close>, and the trial norm is the
  norm of that vector. The accepted norm \<^verbatim>\<open>currentDErrorNorm\<close> is then the norm of the
  residual vector at the accepted step, which is added to \<^verbatim>\<open>results\<close>, and it is at most
  \<^verbatim>\<open>previousDErrorNorm\<close>, the accepted norm of the pass before. So the accepted norm
  never increases over the passes of a run.
\<close>

theorem accepted_norm_not_increased:
  "(outerBody e st = Some st' \<longleftrightarrow>
      (\<exists>k. tempDErrorNorm (trialStep e st k) \<le> currentDErrorNorm st \<and>
           (\<forall>j<k. tempDErrorNorm (trialStep e st j) > currentDErrorNorm st) \<and>
           st' = acceptStep (trialStep e st k))) \<and>
   (outerBody e st = Some st' \<longrightarrow>
      currentDErrorNorm st' \<le> previousDErrorNorm st' \<and>
      previousDErrorNorm st' = currentDErrorNorm st \<and>
      currentDErrorNorm st' = norm_col (dError st') \<and>
      results st' = trialValues (results st) (dQ st') (length (results st))) \<and>
   (passes e n iter st = Some (iter', st'') \<longrightarrow>
      currentDErrorNorm st'' \<le> currentDErrorNorm st) \<and>
   trialStep e st 0 = solveStep e st \<and>
   dQ (trialStep e st i) = map (\<lambda>v. v * (1 / 2) ^ i) (dQ (solveStep e st)) \<and>
   tempDErrorNorm (trialStep e st i) = norm_col (dError (trialStep e st i)) \<and>
   trialStep e st (Suc i) =
     (let s = (trialStep e st i)\<lparr>dQ := map (\<lambda>v. v * (1 / 2) ^ Suc i) (dQ (solveStep e st))\<rparr>;
          s' = evaluateDError e (trialValues (results st) (dQ s) (numParameters (target st))) s
      in s'\<lparr>tempDErrorNorm := norm_col (dError s')\<rparr>)"
proof (intro conjI impI)
  show "outerBody e st = Some st' \<longleftrightarrow>
      (\<exists>k. tempDErrorNorm (trialStep e st k) \<le> currentDErrorNorm st \<and>
           (\<forall>j<k. tempDErrorNorm (trialStep e st j) > currentDErrorNorm st) \<and>
           st' = acceptStep (trialStep e st k))"
    unfolding outerBody_halved by blast
next
  assume o: "outerBody e st = Some st'"
  show "currentDErrorNorm st' \<le> previousDErrorNorm st'" by (rule outerBody_norms(1)[OF o])
  show "previousDErrorNorm st' = currentDErrorNorm st" by (rule outerBody_norms(2)[OF o])
  show "currentDErrorNorm st' = norm_col (dError st')" by (rule outerBody_norms(3)[OF o])
  show "results st' = trialValues (results st) (dQ st') (length (results st))"
    by (rule outerBody_norms(4)[OF o])
next
  assume "passes e n iter st = Some (iter', st'')"
  then show "currentDErrorNorm st'' \<le> currentDErrorNorm st" by (rule passes_norm)
next
  show "trialStep e st 0 = solveStep e st" by (rule trialStep_fields(1))
  show "dQ (trialStep e st i) = map (\<lambda>v. v * (1 / 2) ^ i) (dQ (solveStep e st))"
    by (rule trialStep_fields(2))
  show "tempDErrorNorm (trialStep e st i) = norm_col (dError (trialStep e st i))"
    by (rule trialStep_fields(3))
  show "trialStep e st (Suc i) =
     (let s = (trialStep e st i)\<lparr>dQ := map (\<lambda>v. v * (1 / 2) ^ Suc i) (dQ (solveStep e st))\<rparr>;
          s' = evaluateDError e (trialValues (results st) (dQ s) (numParameters (target st))) s
      in s'\<lparr>tempDErrorNorm := norm_col (dError s')\<rparr>)"
    by (rule trialStep_Suc)
qed

theorem accepted_norm_not_increased_witness:
  "initialSolver exBent exGuess exModel exTarget = exS0 \<and>
   currentDErrorNorm exS0 = 1 \<and>
   dQ (trialStep exBent exS0 0) = [0, 1] \<and> tempDErrorNorm (trialStep exBent exS0 0) = 2 \<and>
   dQ (trialStep exBent exS0 1) = [0, 1 / 2] \<and> tempDErrorNorm (trialStep exBent exS0 1) = 1 / 2 \<and>
   outerBody exBent exS0 = Some exB1 \<and>
   passes exBent 1 0 exS0 = Some (1, exB1) \<and>
   dQ exB1 = [0, 1 / 2] \<and> results exB1 = [1, 1 / 2] \<and>
   previousDErrorNorm exB1 = 1 \<and> currentDErrorNorm exB1 = 1 / 2"
proof -
  have c: "currentDErrorNorm exS0 = 1" "deltaDErrorNorm exS0 = 100" by (simp_all add: exS0_def)
  have t0: "tempDErrorNorm (trialStep exBent exS0 0) = 2" "dQ (trialStep exBent exS0 0) = [0, 1]"
    by (simp_all add: ex_bent_trials exB0_def)
  have t1: "tempDErrorNorm (trialStep exBent exS0 (Suc 0)) = 1 / 2"
    "dQ (trialStep exBent exS0 (Suc 0)) = [0, 1 / 2]"
    by (simp_all add: ex_bent_trials exB1_def)
  have a: "exB1 = acceptStep (trialStep exBent exS0 (Suc 0))"
    by (simp add: ex_bent_trials ex_bent_accept)
  have "tempDErrorNorm (trialStep exBent exS0 (Suc 0)) \<le> currentDErrorNorm exS0 \<and>
        (\<forall>j<Suc 0. tempDErrorNorm (trialStep exBent exS0 j) > currentDErrorNorm exS0) \<and>
        exB1 = acceptStep (trialStep exBent exS0 (Suc 0))"
    using a by (simp add: c t0 t1)
  then have "\<exists>k. tempDErrorNorm (trialStep exBent exS0 k) \<le> currentDErrorNorm exS0 \<and>
        (\<forall>j<k. tempDErrorNorm (trialStep exBent exS0 j) > currentDErrorNorm exS0) \<and>
        exB1 = acceptStep (trialStep exBent exS0 k)" ..
  then have o: "outerBody exBent exS0 = Some exB1"
    using accepted_norm_not_increased[of exBent exS0 exB1, THEN conjunct1] by simp
  have l: "errorTol < 100" "0 < maxIter"
    by (simp_all add: errorTol_def maxIter_def)
  have p: "passes exBent (Suc 0) 0 exS0 = Some (Suc 0, exB1)"
    by (simp add: o c l)
  show ?thesis
    by (simp add: ex_bent_initial c t0 t1 o p del: passes.simps) (simp add: exB1_def)
qed

subsection \<open>The cancellation flag\<close>

lemma infoAt_cong: "infos t' = infos t \<Longrightarrow> infoAt t' = infoAt t"
  by (rule ext) (simp add: infoAt_def)

lemma applyParameters_cong:
  assumes "infos t' = infos t" "unprescribedQs t' = unprescribedQs t"
    "numParameters t' = numParameters t"
  shows "applyParameters e t' = applyParameters e t"
  by (intro ext) (simp add: applyParameters_def assms infoAt_cong[OF assms(1)])

lemma residualCoordinates_cong:
  assumes "infos t' = infos t" "unprescribedQs t' = unprescribedQs t"
    "numParameters t' = numParameters t" "length (markers t') = length (markers t)"
  shows "residualCoordinates e m t' = residualCoordinates e m t"
proof -
  have "residualCoordinateStep e m t' = residualCoordinateStep e m t"
    by (intro ext) (simp add: residualCoordinateStep_def assms infoAt_cong[OF assms(1)])
  then show ?thesis by (intro ext) (simp add: residualCoordinates_def assms)
qed

lemma createJacobian_cong:
  assumes "infos t' = infos t" "unprescribedQs t' = unprescribedQs t"
    "numParameters t' = numParameters t" "markers t' = markers t" "dx t' = dx t"
    "unprescribedWeightedQs t' = unprescribedWeightedQs t"
  shows "createJacobian e t' = createJacobian e t"
proof -
  have "jacobianColumn e t' = jacobianColumn e t"
    by (intro ext) (simp add: jacobianColumn_def assms infoAt_cong[OF assms(1)])
  then show ?thesis
    by (intro ext)
       (simp add: createJacobian_def jacobianColumns_def markerWeightsOf_def residualSize_def assms)
qed

lemma flagged_fields [simp]:
  "model (flagged b st) = model st" "results (flagged b st) = results st"
  "J (flagged b st) = J st" "dQ (flagged b st) = dQ st" "dError (flagged b st) = dError st"
  "rank (flagged b st) = rank st"
  "previousDErrorNorm (flagged b st) = previousDErrorNorm st"
  "currentDErrorNorm (flagged b st) = currentDErrorNorm st"
  "tempDErrorNorm (flagged b st) = tempDErrorNorm st"
  "deltaDErrorNorm (flagged b st) = deltaDErrorNorm st"
  "target (flagged b st) = (target st)\<lparr>interrupted := b\<rparr>"
  by (simp_all add: flagged_def)

lemma flagged_flagged: "flagged (interrupted (target st)) (flagged b st) = st"
  by (simp add: flagged_def)

lemma flagged_updates:
  "flagged b (st\<lparr>dQ := d\<rparr>) = (flagged b st)\<lparr>dQ := d\<rparr>"
  "flagged b (st\<lparr>tempDErrorNorm := v\<rparr>) = (flagged b st)\<lparr>tempDErrorNorm := v\<rparr>"
  "flagged b (st\<lparr>currentDErrorNorm := v\<rparr>) = (flagged b st)\<lparr>currentDErrorNorm := v\<rparr>"
  "flagged b (st\<lparr>previousDErrorNorm := v, model := m, J := j, dQ := d, rank := r\<rparr>) =
     (flagged b st)\<lparr>previousDErrorNorm := v, model := m, J := j, dQ := d, rank := r\<rparr>"
  by (simp_all add: flagged_def)

lemma evaluateDError_flagged:
  "evaluateDError e x (flagged b st) = flagged b (evaluateDError e x st)"
proof -
  let ?t = "target st"
  let ?tb = "?t\<lparr>interrupted := b\<rparr>"
  have a: "applyParameters e ?tb = applyParameters e ?t"
    by (rule applyParameters_cong) simp_all
  obtain ms dE where r: "residualMarkers e (applyParameters e ?t x (model st)) 0
      (markers ?t) [] (dError st) = (ms, dE)"
    by (cases "residualMarkers e (applyParameters e ?t x (model st)) 0 (markers ?t) [] (dError st)")
  have c: "residualCoordinates e m (?tb\<lparr>markers := ms\<rparr>) = residualCoordinates e m (?t\<lparr>markers := ms\<rparr>)" for m
    by (rule residualCoordinates_cong) simp_all
  show ?thesis
    by (simp add: evaluateDError_def Let_def a r c flagged_def)
qed

lemma halveStep_flagged: "halveStep e (flagged b st) = flagged b (halveStep e st)"
  by (simp add: halveStep_def Let_def flagged_updates[symmetric] evaluateDError_flagged)

lemma acceptStep_flagged: "acceptStep (flagged b st) = flagged b (acceptStep st)"
  by (simp add: acceptStep_def flagged_def)

lemma solveStep_flagged: "solveStep e (flagged b st) = flagged b (solveStep e st)"
proof -
  let ?t = "target st"
  have j: "createJacobian e (?t\<lparr>interrupted := b\<rparr>) = createJacobian e ?t"
    by (rule createJacobian_cong) simp_all
  obtain m' J' where c: "createJacobian e ?t (results st) (model st) (J st) = (m', J')"
    by (cases "createJacobian e ?t (results st) (model st) (J st)")
  obtain v rk where d: "dgelsy e (residualSize ?t) (numParameters ?t) J' (dError st) rcond = (v, rk)"
    by (cases "dgelsy e (residualSize ?t) (numParameters ?t) J' (dError st) rcond")
  have s: "residualSize (?t\<lparr>interrupted := b\<rparr>) = residualSize ?t"
    by (simp add: residualSize_def)
  show ?thesis
    by (simp add: solveStep_def Let_def j c d s flagged_updates[symmetric] evaluateDError_flagged)
qed

lemma backtrack_flagged_Some:
  assumes "backtrack e st = Some st'"
  shows "backtrack e (flagged b st) = Some (flagged b st')"
  using assms
proof (induct rule: backtrack_induct)
  case (step bt e st st')
  show ?case
  proof (cases "tempDErrorNorm st > previousDErrorNorm st")
    case True
    with step(2) have "bt e (halveStep e st) = Some st'" by simp
    from step(1)[OF this] show ?thesis
      using True by (subst backtrack.simps) (simp add: halveStep_flagged)
  next
    case False
    with step(2) show ?thesis by (subst backtrack.simps) simp
  qed
qed

lemma backtrack_flagged:
  "backtrack e (flagged b st) = map_option (flagged b) (backtrack e st)"
proof (cases "backtrack e st")
  case (Some st')
  then show ?thesis by (simp add: backtrack_flagged_Some)
next
  case None
  have "backtrack e (flagged b st) = None"
  proof (rule ccontr)
    assume "backtrack e (flagged b st) \<noteq> None"
    then obtain y where "backtrack e (flagged b st) = Some y" by auto
    from backtrack_flagged_Some[OF this, of "interrupted (target st)"]
    show False using None by (simp add: flagged_flagged)
  qed
  then show ?thesis by (simp add: None)
qed


lemma outerBody_flagged:
  "outerBody e (flagged b st) = map_option (flagged b) (outerBody e st)"
proof (cases "backtrack e (solveStep e st)")
  case None
  then show ?thesis
    by (simp add: outerBody_backtrack solveStep_flagged backtrack_flagged)
next
  case (Some s5)
  then show ?thesis
    by (simp add: outerBody_backtrack solveStep_flagged backtrack_flagged acceptStep_flagged)
qed

lemma solverLoop_flagged:
  "solverLoop e iter (flagged b st) =
     map_option (\<lambda>(k, st'). (k, flagged b st')) (solverLoop e iter st)"
proof (induction e iter st rule: solverLoop.induct)
  case (1 e iter st)
  show ?case
  proof (cases "deltaDErrorNorm st > errorTol \<and> iter < maxIter")
    case True
    show ?thesis
    proof (cases "outerBody e st")
      case None
      then have "solverLoop e iter st = None" "solverLoop e iter (flagged b st) = None"
        using True by (simp_all add: solverLoop.simps[of e iter] outerBody_flagged)
      then show ?thesis by simp
    next
      case (Some st1)
      then have "solverLoop e iter st = solverLoop e (iter + 1) st1"
        "solverLoop e iter (flagged b st) = solverLoop e (iter + 1) (flagged b st1)"
        using True by (simp_all add: solverLoop.simps[of e iter] outerBody_flagged)
      with "1.IH"[OF True Some] show ?thesis by simp
    qed
  next
    case False
    then have "solverLoop e iter st = Some (iter, st)"
      "solverLoop e iter (flagged b st) = Some (iter, flagged b st)"
      by (auto simp add: solverLoop.simps[of e iter])
    then show ?thesis by simp
  qed
qed


lemma initialSolver_flagged:
  "initialSolver e rs m (t\<lparr>interrupted := b\<rparr>) = flagged b (initialSolver e rs m t)"
proof -
  let ?st0 = "\<lparr>model = m, target = t, results = rs,
        J = replicate (numParameters t) (replicate (residualSize t) 0),
        dQ = replicate (numParameters t) 0, dError = replicate (residualSize t) 0,
        rank = numParameters t, previousDErrorNorm = 0, currentDErrorNorm = 0,
        tempDErrorNorm = 0, deltaDErrorNorm = 100\<rparr>"
  have s: "residualSize (t\<lparr>interrupted := b\<rparr>) = residualSize t"
    by (simp add: residualSize_def)
  have "initialSolver e rs m (t\<lparr>interrupted := b\<rparr>) =
      (let st1 = evaluateDError e rs (flagged b ?st0)
       in st1\<lparr>currentDErrorNorm := norm_col (dError st1)\<rparr>)"
    by (simp add: initialSolver_def s flagged_def)
  also have "\<dots> = flagged b (initialSolver e rs m t)"
    by (simp add: evaluateDError_flagged Let_def initialSolver_def flagged_updates)
  finally show ?thesis .
qed

lemma objectiveCoordinates_cong:
  assumes "infos t' = infos t"
  shows "objectiveCoordinates e m t' i ps acc = objectiveCoordinates e m t i ps acc"
  by (induction ps arbitrary: i acc) (simp_all add: infoAt_cong[OF assms])

lemma finishSolver_flagged:
  "finishSolver e (flagged b st) =
     (case finishSolver e st of (status, rs, m, t) \<Rightarrow> (status, rs, m, t\<lparr>interrupted := b\<rparr>))"
proof -
  let ?t = "target st"
  let ?tb = "?t\<lparr>interrupted := b\<rparr>"
  let ?m = "applyParameters e ?t (results st) (model st)"
  have a: "applyParameters e ?tb = applyParameters e ?t"
    by (rule applyParameters_cong) simp_all
  have c: "objectiveCoordinates e m ?tb i ps acc = objectiveCoordinates e m ?t i ps acc" for m i ps acc
    by (rule objectiveCoordinates_cong) simp
  have i: "infoAt ?tb = infoAt ?t" by (rule infoAt_cong) simp
  have r: "reportErrors e m p q u v ?tb = (reportErrors e m p q u v ?t)\<lparr>interrupted := b\<rparr>" for m p q u v
    by (simp add: reportErrors_def setErrorReportingQuantities_def i)
  obtain tw tm mx worst where f: "finalMarkers e ?m 0 (markers ?t) (0, 0, 0, -1) = (tw, tm, mx, worst)"
    by (cases "finalMarkers e ?m 0 (markers ?t) (0, 0, 0, -1)")
  obtain tw' tc mc worstc where
    o: "objectiveCoordinates e ?m ?t 0 (unprescribedWeightedQs ?t) (tw, 0, 0, -1) = (tw', tc, mc, worstc)"
    by (cases "objectiveCoordinates e ?m ?t 0 (unprescribedWeightedQs ?t) (tw, 0, 0, -1)")
  have 1: "finishSolver e st = (0, results st, ?m, reportErrors e ?m mx worst mc worstc ?t)"
    by (simp add: finishSolver_def Let_def f o)
  have 2: "finishSolver e (flagged b st) =
      (0, results st, ?m, reportErrors e ?m mx worst mc worstc ?tb)"
    by (simp add: finishSolver_def Let_def a c f o)
  show ?thesis
    by (simp add: 1 2 r)
qed

lemma iterativeOptimization_flagged:
  "iterativeOptimization e rs m (t\<lparr>interrupted := b\<rparr>) =
     map_option (\<lambda>(status, rs', m', t'). (status, rs', m', t'\<lparr>interrupted := b\<rparr>))
       (iterativeOptimization e rs m t)"
proof (cases "solverLoop e 0 (initialSolver e rs m t)")
  case None
  then show ?thesis
    by (simp add: iterativeOptimization_def initialSolver_flagged solverLoop_flagged)
next
  case (Some p)
  obtain k st where p: "p = (k, st)" by (cases p)
  obtain status rs' m' t' where f: "finishSolver e st = (status, rs', m', t')"
    by (cases "finishSolver e st")
  show ?thesis
    by (simp add: iterativeOptimization_def initialSolver_flagged solverLoop_flagged Some p
        finishSolver_flagged f)
qed


text \<open>
  C2, as the code has it. \<^verbatim>\<open>objectiveFunc\<close> tests the cancellation flag before anything
  else: with \<^verbatim>\<open>_interrupted\<close> set it fails with \<^verbatim>\<open>InterruptedException\<close>, and no parameter has
  been applied to the model and nothing of the object has been written (the failure
  carries no new model and no new object). The residual evaluations of
  \<^verbatim>\<open>iterativeOptimization\<close> do not test the flag: each of them, and the whole run, does
  with the flag set what it does with the flag clear, and leaves the flag as it is.
\<close>

theorem cancellation_flag_observed:
  "(interrupted t \<longrightarrow> objectiveFunc e x m t = Inl InterruptedException) \<and>
   evaluateDError e x (flagged b st) = flagged b (evaluateDError e x st) \<and>
   iterativeOptimization e rs m (t\<lparr>interrupted := b\<rparr>) =
     map_option (\<lambda>(status, rs', m', t'). (status, rs', m', t'\<lparr>interrupted := b\<rparr>))
       (iterativeOptimization e rs m t)"
  by (simp add: objectiveFunc_def evaluateDError_flagged iterativeOptimization_flagged)

theorem cancellation_flag_observed_witness:
  "interrupted (exTarget\<lparr>interrupted := True\<rparr>) \<and>
   objectiveFunc exEngine exGuess exModel (exTarget\<lparr>interrupted := True\<rparr>) =
     Inl InterruptedException"
  using cancellation_flag_observed[of "exTarget\<lparr>interrupted := True\<rparr>" exEngine exGuess exModel]
  by simp

text \<open>
  The claim C2 as it is stated fails for the solver: on the example frame, with the flag
  set, \<^verbatim>\<open>iterativeOptimization\<close> returns the status 0 and the pose \<open>[1, 1]\<close>; the first
  residual evaluation alone has applied the guess to the model and written the computed
  position of the marker \<open>M\<close>, and the run has moved the coordinate \<open>r\<close> of the model
  to 1 and that computed position to \<open>(1, 1, 0)\<close>.
\<close>

theorem solver_ignores_cancellation_flag:
  "interrupted (exTarget\<lparr>interrupted := True\<rparr>) \<and>
   initialSolver exEngine exGuess exModel (exTarget\<lparr>interrupted := True\<rparr>) = flagged True exS0 \<and>
   model exS0 = [1, 0, 0] \<and> exModel = [0, 0, 0] \<and>
   map computedPosition (markers (target exS0)) = [(1, 0, 0), (7, 7, 7)] \<and>
   map computedPosition (markers exTarget) = [(7, 7, 7), (7, 7, 7)] \<and>
   iterativeOptimization exEngine exGuess exModel (exTarget\<lparr>interrupted := True\<rparr>) =
     Some (0, [1, 1], [1, 0, 1],
           exTarget\<lparr>markers := exMarkers (1, 1, 0), interrupted := True\<rparr>)"
proof -
  have "initialSolver exEngine exGuess exModel (exTarget\<lparr>interrupted := True\<rparr>) = flagged True exS0"
    by (simp add: initialSolver_flagged ex_initial)
  moreover have "iterativeOptimization exEngine exGuess exModel (exTarget\<lparr>interrupted := True\<rparr>) =
     Some (0, [1, 1], [1, 0, 1],
           exTarget\<lparr>markers := exMarkers (1, 1, 0), interrupted := True\<rparr>)"
    by (simp add: iterativeOptimization_flagged ex_solved)
  moreover have "model exS0 = [1, 0, 0]" "exModel = [0, 0, 0]"
    "map computedPosition (markers (target exS0)) = [(1, 0, 0), (7, 7, 7)]"
    "map computedPosition (markers exTarget) = [(7, 7, 7), (7, 7, 7)]"
    by (simp_all add: exS0_def exModel_def exMarkers_def exTarget_def)
  ultimately show ?thesis by simp
qed

end
